(* ===== verification/Prelude.thy ===== *)
theory Prelude
  imports Main "HOL-Library.Multiset" "HOL-Library.Word" "HOL-Library.AList"
begin

text \<open>
  What every component shares: the machine integers and string maps of the Go source, Go's
  error values, and the contract of the standard library's \<open>sort.Slice\<close>.

  Go strings are byte strings, so they are Isabelle's \<^typ>\<open>string\<close> (a list of 8-bit
  characters). A \<open>map[string]string\<close> is an association list; a nil map and an empty map are
  the same value, because the source only asks a nil map for its length and for missing keys.
\<close>

named_theorems go_std \<open>rewrite rules for the Go standard library layer\<close>
named_theorems kube_defs \<open>definitions of the reconciler's mutate functions\<close>

type_synonym int32 = "32 word"
type_synonym int64 = "64 word"
type_synonym uint32 = "32 word"
type_synonym byte = "8 word"
type_synonym strmap = "(string \<times> string) list"

section \<open>Machine integers\<close>

lemma sint64_of_int: "- (2 ^ 63) \<le> i \<Longrightarrow> i < 2 ^ 63 \<Longrightarrow> sint (word_of_int i :: int64) = i"
  by (simp add: sint_sbintrunc' signed_take_bit_int_eq_self)

lemma sint32_of_int: "- (2 ^ 31) \<le> i \<Longrightarrow> i < 2 ^ 31 \<Longrightarrow> sint (word_of_int i :: int32) = i"
  by (simp add: sint_sbintrunc' signed_take_bit_int_eq_self)

lemma sint64_of_nat: "int n < 2 ^ 63 \<Longrightarrow> sint (word_of_nat n :: int64) = int n"
  using sint64_of_int [of "int n"] by simp

lemma sint64_bounds: "- (2 ^ 63) \<le> sint (w :: int64)" "sint w < 2 ^ 63"
  using sint_greater_eq [of w] sint_lt [of w] by simp_all

lemma sint32_bounds: "- (2 ^ 31) \<le> sint (w :: int32)" "sint w < 2 ^ 31"
  using sint_greater_eq [of w] sint_lt [of w] by simp_all

section \<open>Maps of strings\<close>

definition mapGet :: "strmap \<Rightarrow> string \<Rightarrow> string option" where
  "mapGet m k = map_of m k"

definition mapPut :: "string \<Rightarrow> string \<Rightarrow> strmap \<Rightarrow> strmap" where
  "mapPut k v m = AList.update k v m"

lemma mapGet_Nil [simp]: "mapGet [] k = None"
  by (simp add: mapGet_def)

lemma mapGet_Cons [simp]: "mapGet ((k, v) # m) k' = (if k = k' then Some v else mapGet m k')"
  by (simp add: mapGet_def)

lemma mapGet_mapPut [simp]: "mapGet (mapPut k v m) k' = (if k' = k then Some v else mapGet m k')"
  by (simp add: mapGet_def mapPut_def update_conv')

lemma mapPut_not_Nil [simp]: "mapPut k v m \<noteq> []"
  by (cases m) (auto simp: mapPut_def)

lemma mapPut_same [simp]: "mapGet m k = Some v \<Longrightarrow> mapPut k v m = m"
  by (induction m) (auto simp: mapPut_def mapGet_def split: if_splits)

section \<open>Errors\<close>

text \<open>
  \<open>NotFoundErr\<close> is an API error for which \<open>apierrors.IsNotFound\<close> holds, \<open>OtherErr\<close> any
  other error with its text, \<open>Wrapped p e\<close> the error of \<open>fmt.Errorf("p: %w", e)\<close>.
\<close>

datatype goerr = NotFoundErr string | OtherErr string | Wrapped string goerr

fun IsNotFound :: "goerr \<Rightarrow> bool" where
  "IsNotFound (NotFoundErr _) = True"
| "IsNotFound (OtherErr _) = False"
| "IsNotFound (Wrapped _ e) = IsNotFound e"

fun errorText :: "goerr \<Rightarrow> string" where
  "errorText (NotFoundErr s) = s"
| "errorText (OtherErr s) = s"
| "errorText (Wrapped p e) = p @ '': '' @ errorText e"

section \<open>The contract of sort.Slice\<close>

text \<open>
  \<open>sort.Slice(x, lt)\<close> permutes \<open>x\<close> so that it is ordered by \<open>lt\<close>, for a \<open>lt\<close> that is a
  strict weak order; it is documented not to be stable, so which of two equal elements comes
  first is left open. The functions of the source that sort take the sorting function as an
  argument and their lemmas hold for every function with this contract.
\<close>

definition strict_weak :: "('a \<Rightarrow> 'a \<Rightarrow> bool) \<Rightarrow> bool" where
  "strict_weak lt \<longleftrightarrow> asymp lt \<and> transp (\<lambda>a b. \<not> lt b a)"

lemma strict_weak_key: "strict_weak (\<lambda>a b. (f a :: 'b::linorder) < f b)"
  by (auto simp: strict_weak_def asymp_on_def transp_on_def)

locale sort_slice =
  fixes srt :: "('a \<Rightarrow> 'a \<Rightarrow> bool) \<Rightarrow> 'a list \<Rightarrow> 'a list"
  assumes mset_srt: "mset (srt lt xs) = mset xs"
    and ordered_srt: "strict_weak lt \<Longrightarrow> sorted_wrt (\<lambda>a b. \<not> lt b a) (srt lt xs)"
begin

lemma set_srt [simp]: "set (srt lt xs) = set xs"
  by (rule mset_eq_setD [OF mset_srt])

lemma length_srt [simp]: "length (srt lt xs) = length xs"
  by (rule mset_eq_length [OF mset_srt])

lemma distinct_srt [simp]: "distinct (srt lt xs) = distinct xs"
  by (rule mset_eq_imp_distinct_iff [OF mset_srt])

lemma sorted_key_srt: "sorted (map f (srt (\<lambda>a b. f a < f b) xs))"
  for f :: "'a \<Rightarrow> 'b::linorder"
proof -
  have "sorted_wrt (\<lambda>a b. \<not> f b < f a) (srt (\<lambda>a b. f a < f b) xs)"
    by (rule ordered_srt [OF strict_weak_key])
  then show ?thesis
    by (simp add: sorted_map not_less)
qed

lemma srt_unique:
  fixes f :: "'a \<Rightarrow> 'b::linorder"
  assumes inj: "inj_on f (set xs)" and ms: "mset ys = mset xs" and ys: "sorted (map f ys)"
  shows "srt (\<lambda>a b. f a < f b) xs = ys"
proof -
  let ?zs = "srt (\<lambda>a b. f a < f b) xs"
  have zs: "mset ?zs = mset ys"
    by (simp add: ms mset_srt)
  then have "mset (map f ?zs) = mset (map f ys)"
    by simp
  then have "map f ?zs = map f ys"
    using sorted_key_srt [of f xs] ys
    by (metis properties_for_sort)
  moreover have "set ys = set xs"
    using ms by (rule mset_eq_setD)
  ultimately show ?thesis
    using inj by (simp add: inj_on_map_eq_map)
qed

end

text \<open>Go sorts short slices (at most twelve elements) by insertion; the contract holds of it.\<close>

fun insertBy :: "('a \<Rightarrow> 'a \<Rightarrow> bool) \<Rightarrow> 'a \<Rightarrow> 'a list \<Rightarrow> 'a list" where
  "insertBy lt x [] = [x]"
| "insertBy lt x (y # ys) = (if lt x y then x # y # ys else y # insertBy lt x ys)"

definition insertionSort :: "('a \<Rightarrow> 'a \<Rightarrow> bool) \<Rightarrow> 'a list \<Rightarrow> 'a list" where
  "insertionSort lt xs = fold (insertBy lt) xs []"

lemma mset_insertBy: "mset (insertBy lt x ys) = add_mset x (mset ys)"
  by (induction ys) auto

lemma set_insertBy: "set (insertBy lt x ys) = insert x (set ys)"
  by (induction ys) auto

lemma sorted_insertBy:
  assumes "strict_weak lt" "sorted_wrt (\<lambda>a b. \<not> lt b a) ys"
  shows "sorted_wrt (\<lambda>a b. \<not> lt b a) (insertBy lt x ys)"
  using assms(2)
proof (induction ys)
  case Nil
  then show ?case by simp
next
  case (Cons y ys)
  have tr: "\<not> lt b a \<Longrightarrow> \<not> lt c b \<Longrightarrow> \<not> lt c a" for a b c
    using assms(1) by (auto simp: strict_weak_def transp_on_def)
  have as: "lt a b \<Longrightarrow> \<not> lt b a" for a b
    using assms(1) by (auto simp: strict_weak_def asymp_on_def)
  show ?case
  proof (cases "lt x y")
    case True
    then have y: "\<not> lt y x" by (rule as)
    have "\<not> lt z x" if "z \<in> set ys" for z
      using tr [OF y] that Cons.prems by simp
    with True y Cons.prems show ?thesis by simp
  next
    case False
    with Cons show ?thesis
      by (auto simp: set_insertBy)
  qed
qed

lemma mset_fold_insertBy: "mset (fold (insertBy lt) xs ys) = mset xs + mset ys"
  by (induction xs arbitrary: ys) (auto simp: mset_insertBy)

lemma sorted_fold_insertBy:
  "strict_weak lt \<Longrightarrow> sorted_wrt (\<lambda>a b. \<not> lt b a) ys \<Longrightarrow>
   sorted_wrt (\<lambda>a b. \<not> lt b a) (fold (insertBy lt) xs ys)"
  by (induction xs arbitrary: ys) (auto simp: sorted_insertBy)

interpretation ins: sort_slice insertionSort
  by unfold_locales (auto simp: insertionSort_def mset_fold_insertBy sorted_fold_insertBy)

end
