(* ===== verification/Go_Std.thy ===== *)
theory Go_Std
  imports Prelude
begin

text \<open>
  The parts of Go's standard library the source computes with: decimal printing and parsing
  (\<open>strconv\<close>, the \<open>%d\<close> verb), the \<open>strings\<close> functions, \<open>time.Time\<close> and \<open>time.Duration\<close>,
  and \<open>sort.Search\<close>. The lemmas give the round trip of the decimal form, the injectivity of
  printed names, how long a drain stamp measures, and that \<open>sort.Search\<close> finds the first
  index of a monotone predicate.
\<close>

section \<open>Decimal numbers\<close>

definition digitChar :: "nat \<Rightarrow> char" where
  "digitChar n = char_of (48 + n)"

definition digitVal :: "char \<Rightarrow> nat option" where
  "digitVal c = (let n = of_char c in if 48 \<le> n \<and> n \<le> (57::nat) then Some (n - 48) else None)"

fun fmtNat :: "nat \<Rightarrow> string" where
  "fmtNat n = (if n < 10 then [digitChar n] else fmtNat (n div 10) @ [digitChar (n mod 10)])"

declare fmtNat.simps [simp del]

text \<open>\<open>strconv.FormatInt(i, 10)\<close>, which is also what \<open>%d\<close> prints.\<close>

definition fmtInt :: "int \<Rightarrow> string" where
  "fmtInt i = (if i < 0 then ''-'' @ fmtNat (nat (- i)) else fmtNat (nat i))"

definition FormatInt :: "int64 \<Rightarrow> string" where
  "FormatInt w = fmtInt (sint w)"

fun parseDigits :: "nat \<Rightarrow> string \<Rightarrow> nat option" where
  "parseDigits acc [] = Some acc"
| "parseDigits acc (c # cs) =
     (case digitVal c of None \<Rightarrow> None | Some d \<Rightarrow> parseDigits (10 * acc + d) cs)"

definition parseNat :: "string \<Rightarrow> nat option" where
  "parseNat s = (if s = [] then None else parseDigits 0 s)"

text \<open>
  \<open>strconv.ParseInt(s, 10, 64)\<close>, and \<open>strconv.Atoi(s)\<close> on a 64-bit platform: an optional
  sign, at least one digit, and a value in the range of \<open>int64\<close>. \<open>None\<close> is a syntax or range
  error; no caller distinguishes the two.
\<close>

definition ParseInt :: "string \<Rightarrow> int64 option" where
  "ParseInt s =
     (let neg = (s \<noteq> [] \<and> hd s = CHR ''-'');
          body = (if s \<noteq> [] \<and> (hd s = CHR ''-'' \<or> hd s = CHR ''+'') then tl s else s)
      in case parseNat body of
           None \<Rightarrow> None
         | Some n \<Rightarrow>
             (let i = (if neg then - int n else int n)
              in if - (2 ^ 63) \<le> i \<and> i < 2 ^ 63 then Some (word_of_int i) else None))"

lemma digitVal_digitChar [simp]: "n < 10 \<Longrightarrow> digitVal (digitChar n) = Some n"
  by (simp add: digitVal_def digitChar_def)

lemma digitVal_bound: "digitVal c = Some d \<Longrightarrow> d < 10"
  by (auto simp: digitVal_def Let_def split: if_splits)

lemma digitChar_digitVal: "digitVal c = Some d \<Longrightarrow> digitChar d = c"
  by (auto simp: digitVal_def digitChar_def Let_def split: if_splits)

lemma parseDigits_append:
  "parseDigits a (xs @ ys) = (case parseDigits a xs of None \<Rightarrow> None | Some b \<Rightarrow> parseDigits b ys)"
  by (induction xs arbitrary: a) (auto split: option.splits)

lemma fmtNat_not_Nil [simp]: "fmtNat n \<noteq> []"
  by (subst fmtNat.simps) simp

lemma parseDigits_fmtNat: "parseDigits 0 (fmtNat n) = Some n"
proof (induction n rule: fmtNat.induct)
  case (1 n)
  show ?case
  proof (cases "n < 10")
    case True
    then show ?thesis by (simp add: fmtNat.simps [of n])
  next
    case False
    with "1.IH" show ?thesis
      by (simp add: fmtNat.simps [of n] parseDigits_append)
  qed
qed

lemma parseNat_fmtNat [simp]: "parseNat (fmtNat n) = Some n"
  by (simp add: parseNat_def parseDigits_fmtNat)

lemma fmtNat_inject [simp]: "fmtNat m = fmtNat n \<longleftrightarrow> m = n"
  by (metis option.inject parseNat_fmtNat)

definition isDigit :: "char \<Rightarrow> bool" where
  "isDigit c \<longleftrightarrow> digitVal c \<noteq> None"

lemma digitChar_isDigit [simp]: "n < 10 \<Longrightarrow> isDigit (digitChar n)"
  by (simp add: isDigit_def)

lemma fmtNat_digits: "c \<in> set (fmtNat n) \<Longrightarrow> isDigit c"
proof (induction n rule: fmtNat.induct)
  case (1 n)
  then show ?case
    by (cases "n < 10") (auto simp: fmtNat.simps [of n])
qed

lemma not_isDigit [simp]:
  "\<not> isDigit (CHR ''-'')" "\<not> isDigit (CHR ''+'')" "\<not> isDigit (CHR ''#'')" "\<not> isDigit (CHR ''.'')"
  by (simp_all add: isDigit_def digitVal_def)

lemma fmtNat_no_sign [simp]:
  "CHR ''-'' \<notin> set (fmtNat n)" "CHR ''+'' \<notin> set (fmtNat n)" "CHR ''#'' \<notin> set (fmtNat n)"
  using fmtNat_digits not_isDigit by blast+

lemma hd_fmtNat [simp]: "hd (fmtNat n) \<noteq> CHR ''-''" "hd (fmtNat n) \<noteq> CHR ''+''"
  using fmtNat_no_sign(1,2) [of n] hd_in_set [OF fmtNat_not_Nil [of n]] by metis+

lemma ParseInt_fmtNat: "int n < 2 ^ 63 \<Longrightarrow> ParseInt (fmtNat n) = Some (word_of_nat n)"
  by (simp add: ParseInt_def Let_def)

lemma ParseInt_fmtInt: "- (2 ^ 63) \<le> i \<Longrightarrow> i < 2 ^ 63 \<Longrightarrow> ParseInt (fmtInt i) = Some (word_of_int i)"
  by (auto simp: ParseInt_def fmtInt_def Let_def)

lemma ParseInt_FormatInt [simp]: "ParseInt (FormatInt w) = Some w"
  using sint64_bounds [of w] by (simp add: FormatInt_def ParseInt_fmtInt)

lemma ParseInt_unsigned:
  assumes "ParseInt s = Some w" "CHR ''-'' \<notin> set s"
  shows "0 \<le> sint w"
proof -
  have "s = [] \<or> hd s \<noteq> CHR ''-''"
    using assms(2) by (metis hd_in_set)
  with assms(1) obtain n where n: "int n < 2 ^ 63" "w = word_of_int (int n)"
    by (auto simp: ParseInt_def Let_def split: option.splits if_splits)
  then show ?thesis
    by (simp add: sint64_of_int del: of_int_of_nat_eq)
qed

section \<open>Strings\<close>

text \<open>\<open>strings.LastIndex(s, "c")\<close> for a one-byte separator; -1 when absent.\<close>

fun LastIndex :: "string \<Rightarrow> char \<Rightarrow> int" where
  "LastIndex [] c = -1"
| "LastIndex (x # xs) c =
     (let i = LastIndex xs c in if 0 \<le> i then i + 1 else if x = c then 0 else -1)"

definition HasPrefix :: "string \<Rightarrow> string \<Rightarrow> bool" where
  "HasPrefix s p \<longleftrightarrow> take (length p) s = p"

definition TrimPrefix :: "string \<Rightarrow> string \<Rightarrow> string" where
  "TrimPrefix s p = (if HasPrefix s p then drop (length p) s else s)"

lemma LastIndex_ge: "- 1 \<le> LastIndex s c"
  by (induction s) (auto simp: Let_def)

lemma LastIndex_absent: "c \<notin> set s \<Longrightarrow> LastIndex s c = - 1"
  by (induction s) auto

lemma LastIndex_append:
  "c \<notin> set ys \<Longrightarrow> LastIndex (xs @ c # ys) c = int (length xs)"
  by (induction xs) (auto simp: LastIndex_absent)

lemma LastIndex_split:
  "0 \<le> LastIndex s c \<Longrightarrow> \<exists>xs ys. s = xs @ c # ys \<and> c \<notin> set ys \<and> LastIndex s c = int (length xs)"
proof (induction s)
  case Nil
  then show ?case by simp
next
  case (Cons x s)
  show ?case
  proof (cases "0 \<le> LastIndex s c")
    case True
    then obtain xs ys where "s = xs @ c # ys" "c \<notin> set ys" "LastIndex s c = int (length xs)"
      using Cons.IH by blast
    then show ?thesis
      using True by (intro exI [of _ "x # xs"] exI [of _ ys]) simp
  next
    case False
    then have "c \<notin> set s"
      by (metis LastIndex_append of_nat_0_le_iff split_list_last)
    moreover have "x = c"
      using Cons.prems False by (auto simp: Let_def split: if_splits)
    ultimately show ?thesis
      by (intro exI [of _ "[]"] exI [of _ s]) (simp add: LastIndex_absent)
  qed
qed

lemma TrimPrefix_append [simp]: "TrimPrefix (p @ s) p = s" "HasPrefix (p @ s) p"
  by (simp_all add: TrimPrefix_def HasPrefix_def)

lemma HasPrefix_iff: "HasPrefix s p \<longleftrightarrow> (\<exists>t. s = p @ t)"
  unfolding HasPrefix_def by (metis append_eq_conv_conj append_take_drop_id)

section \<open>Time\<close>

text \<open>
  A \<open>time.Time\<close> is a second count since year 1 (\<open>int64\<close>, so \<open>time.Unix\<close> wraps for absurd
  stamps) and nanoseconds. \<open>Sub\<close> returns the difference in nanoseconds, saturated to the range
  of \<open>time.Duration\<close>; this is exact Go behaviour unless the two instants are more than
  \<open>2^63\<close> seconds apart.
\<close>

record Time =
  t_sec :: int64
  t_nsec :: int

type_synonym Duration = int64

definition unixToInternal :: int64 where
  "unixToInternal = 62135596800"

definition time_Unix :: "int64 \<Rightarrow> Time" where
  "time_Unix ts = \<lparr>t_sec = ts + unixToInternal, t_nsec = 0\<rparr>"

definition Unix :: "Time \<Rightarrow> int64" where
  "Unix t = t_sec t - unixToInternal"

definition Second :: int where
  "Second = 1000000000"

definition instant :: "Time \<Rightarrow> int" where
  "instant t = sint (t_sec t) * Second + t_nsec t"

definition saturate :: "int \<Rightarrow> Duration" where
  "saturate i = word_of_int (max (- (2 ^ 63)) (min (2 ^ 63 - 1) i))"

definition Sub :: "Time \<Rightarrow> Time \<Rightarrow> Duration" where
  "Sub t u = saturate (instant t - instant u)"

lemma sint_saturate: "sint (saturate i) = max (- (2 ^ 63)) (min (2 ^ 63 - 1) i)"
  unfolding saturate_def by (subst sint64_of_int) auto

lemma saturate_less_iff:
  "- (2 ^ 63) < g \<Longrightarrow> g < 2 ^ 63 \<Longrightarrow> sint (saturate i) < g \<longleftrightarrow> i < g"
  by (auto simp: sint_saturate)

text \<open>A stamp \<open>FormatInt (Unix t)\<close> read back is the start of the second \<open>t\<close> lies in.\<close>

lemma instant_stamp: "instant (time_Unix (Unix t)) = instant t - t_nsec t"
  by (simp add: instant_def time_Unix_def Unix_def)

section \<open>sort.Search\<close>

text \<open>
  The loop of \<open>sort.Search(n, f)\<close>: \<open>i, j := 0, n; for i < j { h := (i+j)/2; if !f(h) { i = h+1 }
  else { j = h } }; return i\<close>.
\<close>

function searchLoop :: "(nat \<Rightarrow> bool) \<Rightarrow> nat \<Rightarrow> nat \<Rightarrow> nat" where
  "searchLoop f i j =
     (if i < j then (let h = (i + j) div 2 in if \<not> f h then searchLoop f (h + 1) j else searchLoop f i h)
      else i)"
  by pat_completeness auto
termination
  by (relation "measure (\<lambda>(f, i, j). j - i)") auto

declare searchLoop.simps [simp del]

definition Search :: "nat \<Rightarrow> (nat \<Rightarrow> bool) \<Rightarrow> nat" where
  "Search n f = searchLoop f 0 n"

lemma searchLoop_correct:
  assumes "i \<le> j" "j \<le> n" "\<forall>a b. a \<le> b \<longrightarrow> b < n \<longrightarrow> f a \<longrightarrow> f b"
    and "\<forall>a < i. \<not> f a" "\<forall>a. j \<le> a \<longrightarrow> a < n \<longrightarrow> f a"
  shows "searchLoop f i j \<le> n \<and> (\<forall>a < searchLoop f i j. \<not> f a)
    \<and> (\<forall>a. searchLoop f i j \<le> a \<longrightarrow> a < n \<longrightarrow> f a)"
  using assms
proof (induction f i j rule: searchLoop.induct)
  case (1 f i j)
  show ?case
  proof (cases "i < j")
    case False
    then have "searchLoop f i j = i"
      by (simp add: searchLoop.simps [of f i j])
    with False "1.prems" show ?thesis by simp
  next
    case True
    define h where "h = (i + j) div 2"
    have h: "i \<le> h" "h < j" "h \<le> n" "h + 1 \<le> j" "h < n"
      using True "1.prems"(2) by (auto simp: h_def)
    show ?thesis
    proof (cases "f h")
      case True
      then have eq: "searchLoop f i j = searchLoop f i h" and nn: "\<not> \<not> f h"
        using \<open>i < j\<close> by (simp_all add: searchLoop.simps [of f i j] h_def Let_def)
      have "\<forall>a. h \<le> a \<longrightarrow> a < n \<longrightarrow> f a"
        using "1.prems"(3) True by blast
      then show ?thesis
        unfolding eq by (rule "1.IH"(2) [OF \<open>i < j\<close> h_def nn h(1,3) "1.prems"(3,4)])
    next
      case False
      then have eq: "searchLoop f i j = searchLoop f (h + 1) j"
        using \<open>i < j\<close> by (simp add: searchLoop.simps [of f i j] h_def Let_def)
      have "\<not> f a" if "a < h + 1" for a
        using "1.prems"(3) [rule_format, of a h] that False h(5) by linarith
      then have "\<forall>a < h + 1. \<not> f a" by blast
      then show ?thesis
        unfolding eq by (rule "1.IH"(1) [OF \<open>i < j\<close> h_def False h(4) "1.prems"(2,3) _ "1.prems"(5)])
    qed
  qed
qed

lemma Search_correct:
  assumes "\<And>a b. a \<le> b \<Longrightarrow> b < n \<Longrightarrow> f a \<Longrightarrow> f b"
  shows Search_le: "Search n f \<le> n"
    and Search_below: "a < Search n f \<Longrightarrow> \<not> f a"
    and Search_above: "Search n f \<le> a \<Longrightarrow> a < n \<Longrightarrow> f a"
proof -
  have "\<forall>a b. a \<le> b \<longrightarrow> b < n \<longrightarrow> f a \<longrightarrow> f b"
    using assms by blast
  then have *: "searchLoop f 0 n \<le> n \<and> (\<forall>a < searchLoop f 0 n. \<not> f a)
    \<and> (\<forall>a. searchLoop f 0 n \<le> a \<longrightarrow> a < n \<longrightarrow> f a)"
    by (intro searchLoop_correct) simp_all
  then show "Search n f \<le> n" and "a < Search n f \<Longrightarrow> \<not> f a"
    and "Search n f \<le> a \<Longrightarrow> a < n \<Longrightarrow> f a"
    unfolding Search_def by blast+
qed

end
