(* ===== verification/Api_Types.thy ===== *)
theory Api_Types
  imports Go_Std
begin

text \<open>
  The data the operator works on: the custom resource of \<open>api/v1alpha1/distributedcache_types.go\<close>
  and, of the Kubernetes objects, the fields the source reads or writes. Go's embedding of
  \<open>metav1.ObjectMeta\<close> is record extension, so that \<open>Labels\<close> or \<open>Name\<close> apply to every object.

  A \<open>resource.Quantity\<close> is third-party; it is represented by its canonical text (what
  \<open>Quantity.String()\<close> returns and what the API server stores), and its arithmetic is a
  parameter of the functions that use it. Optional pointers are \<^typ>\<open>'a option\<close>; a timestamp
  pointer that is nil or zero is \<^const>\<open>None\<close>.
\<close>

type_synonym Quantity = string

record DrainSpec =
  GracePeriodSeconds :: int32

record TenantSpec =
  Isolate :: bool

record DistributedCacheSpec =
  Replicas :: "int32 option"
  Image :: string
  MemoryPerPod :: Quantity
  Drain :: DrainSpec
  Tenant :: "TenantSpec option"

text \<open>\<open>metav1.Condition\<close>, the element of \<open>status.conditions\<close>.\<close>

record Condition =
  c_Type :: string
  c_Status :: string
  c_Reason :: string
  c_Message :: string
  c_ObservedGeneration :: int64
  c_LastTransitionTime :: "Time option"

record RingStatus =
  rs_Version :: int64
  rs_Members :: "string list"
  rs_ConfigMapName :: string

record DistributedCacheStatus =
  Conditions :: "Condition list"
  ObservedGeneration :: int64
  ReadyReplicas :: int32
  RingSummary :: RingStatus

text \<open>\<open>metav1.ObjectMeta\<close>: an owner reference is the UID of the owner and the controller flag.\<close>

record OwnerReference =
  or_UID :: string
  or_Controller :: bool

record ObjectMeta =
  Name :: string
  Namespace :: string
  UID :: string
  Generation :: int64
  Labels :: strmap
  Annotations :: strmap
  Finalizers :: "string list"
  OwnerReferences :: "OwnerReference list"
  CreationTimestamp :: "Time option"
  DeletionTimestamp :: "Time option"

record DistributedCache = ObjectMeta +
  Spec :: DistributedCacheSpec
  Status :: DistributedCacheStatus

text \<open>\<open>corev1.Pod\<close>.\<close>

record PodCondition =
  pc_Type :: string
  pc_Status :: string

record Pod = ObjectMeta +
  Phase :: string
  PodConditions :: "PodCondition list"

text \<open>\<open>corev1.Namespace\<close>, \<open>ResourceQuota\<close>, \<open>NetworkPolicy\<close>, \<open>ConfigMap\<close>.\<close>

type_synonym NamespaceObj = ObjectMeta

record ResourceQuota = ObjectMeta +
  Hard :: "(string \<times> Quantity) list"

record NetworkPolicySpec =
  np_PodSelector :: strmap
  np_PolicyTypes :: "string list"
  np_Ingress :: "strmap option list list"

record NetworkPolicy = ObjectMeta +
  np_Spec :: NetworkPolicySpec

record ConfigMap = ObjectMeta +
  Data :: strmap

text \<open>\<open>corev1.Service\<close>.\<close>

record ServicePort =
  sp_Name :: string
  sp_Port :: int32
  sp_TargetPort :: int32
  sp_Protocol :: string

record Service = ObjectMeta +
  svc_ClusterIP :: string
  svc_Selector :: strmap
  svc_Ports :: "ServicePort list"
  svc_PublishNotReadyAddresses :: bool

text \<open>\<open>appsv1.StatefulSet\<close> with its pod template.\<close>

record ContainerPort =
  cp_Name :: string
  cp_Port :: int32
  cp_Protocol :: string

record Probe =
  pr_Path :: string
  pr_Port :: int32
  pr_PeriodSeconds :: int32
  pr_TimeoutSeconds :: int32
  pr_FailureThreshold :: int32

record Container =
  ct_Name :: string
  ct_Image :: string
  ct_Ports :: "ContainerPort list"
  ct_Requests :: "(string \<times> Quantity) list"
  ct_Limits :: "(string \<times> Quantity) list"
  ct_ReadinessProbe :: Probe
  ct_LivenessProbe :: Probe

record StatefulSet = ObjectMeta +
  sts_Replicas :: "int32 option"
  sts_ServiceName :: string
  sts_Selector :: "strmap option"
  sts_PodManagementPolicy :: string
  sts_TemplateLabels :: strmap
  sts_TerminationGracePeriodSeconds :: "int64 option"
  sts_Containers :: "Container list"

text \<open>\<open>types.NamespacedName\<close>.\<close>

record NamespacedName =
  nn_Namespace :: string
  nn_Name :: string

text \<open>The zero value of an object with a name and a namespace, as the source writes it.\<close>

definition newMeta :: "string \<Rightarrow> string \<Rightarrow> ObjectMeta" where
  "newMeta name ns = \<lparr>Name = name, Namespace = ns, UID = '''', Generation = 0, Labels = [],
     Annotations = [], Finalizers = [], OwnerReferences = [], CreationTimestamp = None,
     DeletionTimestamp = None\<rparr>"

lemma newMeta_sel [simp]:
  "Name (newMeta n ns) = n" "Namespace (newMeta n ns) = ns" "Labels (newMeta n ns) = []"
  "Annotations (newMeta n ns) = []" "OwnerReferences (newMeta n ns) = []"
  "CreationTimestamp (newMeta n ns) = None" "DeletionTimestamp (newMeta n ns) = None"
  by (simp_all add: newMeta_def)

end
