(* ===== verification/Deep_Copy.thy ===== *)
theory Deep_Copy
  imports Api_Types
begin

text \<open>
  The generated copying functions of \<open>api/v1alpha1/zz_generated.deepcopy.go\<close>, on an explicit store.
  Everywhere else a resource is a value; here it is what Go keeps in memory, with its pointers and
  slices, and the theorems justify the values: a copy denotes the same value as the original, and
  no write through one of them is seen through the other.

  The types of apimachinery (\<open>ObjectMeta\<close>, \<open>ListMeta\<close>, \<open>Condition\<close>, \<open>Quantity\<close>) are opaque; their
  copying functions are parameters, and the locale \<open>copy_lib\<close> states their contract.
\<close>

section \<open>The store\<close>

type_synonym addr = nat

text \<open>A slice: its backing array and its length.\<close>

record slice =
  sl_arr :: addr
  sl_len :: nat

text \<open>The structs as they lie in memory; \<open>'v\<close> stands for the structs of apimachinery.\<close>

record RingStatus_mem =
  rm_Version :: int64
  rm_Members :: "slice option"
  rm_ConfigMapName :: string

record 'v Spec_mem =
  sm_Replicas :: "addr option"
  sm_Image :: string
  sm_MemoryPerPod :: 'v
  sm_Drain :: DrainSpec
  sm_Tenant :: "addr option"

record Status_mem =
  tm_Conditions :: "slice option"
  tm_ObservedGeneration :: int64
  tm_ReadyReplicas :: int32
  tm_Ring :: RingStatus_mem

record 'v Cache_mem =
  cm_TypeMeta :: "string \<times> string"
  cm_ObjectMeta :: 'v
  cm_Spec :: "'v Spec_mem"
  cm_Status :: Status_mem

record 'v CacheList_mem =
  lm_TypeMeta :: "string \<times> string"
  lm_ListMeta :: 'v
  lm_Items :: "slice option"

text \<open>What an address may hold: a variable, an array or a struct; \<open>'u\<close> belongs to apimachinery.\<close>

datatype ('v, 'u) cell =
    CInt32 int32
  | CTenant TenantSpec
  | CDrain DrainSpec
  | CStrings "string list"
  | CConditions "'v list"
  | CCaches "'v Cache_mem list"
  | CRing RingStatus_mem
  | CSpec "'v Spec_mem"
  | CStatus Status_mem
  | CCache "'v Cache_mem"
  | CList "'v CacheList_mem"
  | COther 'u

record ('v, 'u) heap =
  h_next :: addr
  h_cell :: "addr \<Rightarrow> ('v, 'u) cell"

type_synonym ('v, 'u, 'a) copier = "'a \<Rightarrow> ('v, 'u) heap \<Rightarrow> 'a \<times> ('v, 'u) heap"

definition alloc :: "('v, 'u) cell \<Rightarrow> ('v, 'u) heap \<Rightarrow> addr \<times> ('v, 'u) heap" where
  "alloc c h = (h_next h, \<lparr>h_next = Suc (h_next h), h_cell = (h_cell h)(h_next h := c)\<rparr>)"

definition write_cell :: "addr \<Rightarrow> ('v, 'u) cell \<Rightarrow> ('v, 'u) heap \<Rightarrow> ('v, 'u) heap" where
  "write_cell a c h = h\<lparr>h_cell := (h_cell h)(a := c)\<rparr>"

text \<open>Reading a cell at its type; Go's types rule the other cases out.\<close>

fun int32Of :: "('v, 'u) cell \<Rightarrow> int32" where
  "int32Of (CInt32 i) = i"
| "int32Of _ = 0"

fun tenantOf :: "('v, 'u) cell \<Rightarrow> TenantSpec" where
  "tenantOf (CTenant t) = t"
| "tenantOf _ = \<lparr>Isolate = False\<rparr>"

fun stringsOf :: "('v, 'u) cell \<Rightarrow> string list" where
  "stringsOf (CStrings xs) = xs"
| "stringsOf _ = []"

fun conditionsOf :: "('v, 'u) cell \<Rightarrow> 'v list" where
  "conditionsOf (CConditions xs) = xs"
| "conditionsOf _ = []"

fun cachesOf :: "('v, 'u) cell \<Rightarrow> 'v Cache_mem list" where
  "cachesOf (CCaches xs) = xs"
| "cachesOf _ = []"

section \<open>The copying functions\<close>

text \<open>The copying functions of apimachinery.\<close>

record ('v, 'u) copyLib =
  ObjectMeta_DeepCopyInto :: "('v, 'u, 'v) copier"
  ListMeta_DeepCopyInto :: "('v, 'u, 'v) copier"
  Condition_DeepCopyInto :: "('v, 'u, 'v) copier"
  Quantity_DeepCopy :: "('v, 'u, 'v) copier"

text \<open>\<open>for i := range *in { (*in)[i].DeepCopyInto(&(*out)[i]) }\<close>, and \<open>copy\<close> for plain elements.\<close>

fun copyAll :: "('v, 'u, 'a) copier \<Rightarrow> ('v, 'u, 'a list) copier" where
  "copyAll f [] h = ([], h)"
| "copyAll f (x # xs) h =
     (case f x h of (y, h) \<Rightarrow> case copyAll f xs h of (ys, h) \<Rightarrow> (y # ys, h))"

definition plain :: "('v, 'u, 'a) copier" where
  "plain x h = (x, h)"

text \<open>\<open>if in.F != nil { *out = make([]T, len(*in)); ... }\<close>: the new array is filled by the loop.\<close>

definition copySlice ::
  "('a list \<Rightarrow> ('v, 'u) cell) \<Rightarrow> (('v, 'u) cell \<Rightarrow> 'a list) \<Rightarrow> ('v, 'u, 'a) copier \<Rightarrow> ('v, 'u, slice option) copier" where
  "copySlice mk el f s h =
     (case s of
        None \<Rightarrow> (None, h)
      | Some s \<Rightarrow>
          (case alloc (mk []) h of
             (a, h) \<Rightarrow>
               (case copyAll f (take (sl_len s) (el (h_cell h (sl_arr s)))) h of
                  (ys, h) \<Rightarrow> (Some \<lparr>sl_arr = a, sl_len = sl_len s\<rparr>, write_cell a (mk ys) h))))"

text \<open>\<open>if in.F != nil { *out = new(T); **out = **in }\<close>.\<close>

definition copyPtr :: "(('v, 'u) cell \<Rightarrow> ('v, 'u) cell) \<Rightarrow> ('v, 'u, addr option) copier" where
  "copyPtr get p h =
     (case p of
        None \<Rightarrow> (None, h)
      | Some p \<Rightarrow> (case alloc (get (h_cell h p)) h of (a, h) \<Rightarrow> (Some a, h)))"

definition TenantSpec_DeepCopyInto :: "('v, 'u, TenantSpec) copier" where
  "TenantSpec_DeepCopyInto inp h = (inp, h)"

definition DrainSpec_DeepCopyInto :: "('v, 'u, DrainSpec) copier" where
  "DrainSpec_DeepCopyInto inp h = (inp, h)"

definition RingStatus_DeepCopyInto :: "('v, 'u, RingStatus_mem) copier" where
  "RingStatus_DeepCopyInto inp h =
     (case copySlice CStrings stringsOf plain (rm_Members inp) h of
        (members, h) \<Rightarrow> (inp\<lparr>rm_Members := members\<rparr>, h))"

definition Status_DeepCopyInto :: "('v, 'u) copyLib \<Rightarrow> ('v, 'u, Status_mem) copier" where
  "Status_DeepCopyInto L inp h =
     (case copySlice CConditions conditionsOf (Condition_DeepCopyInto L) (tm_Conditions inp) h of
        (conditions, h) \<Rightarrow>
          (case RingStatus_DeepCopyInto (tm_Ring inp) h of
             (ring, h) \<Rightarrow> (inp\<lparr>tm_Conditions := conditions, tm_Ring := ring\<rparr>, h)))"

definition Spec_DeepCopyInto :: "('v, 'u) copyLib \<Rightarrow> ('v, 'u, 'v Spec_mem) copier" where
  "Spec_DeepCopyInto L inp h =
     (case copyPtr (\<lambda>c. CInt32 (int32Of c)) (sm_Replicas inp) h of
        (replicas, h) \<Rightarrow>
          (case Quantity_DeepCopy L (sm_MemoryPerPod inp) h of
             (memory, h) \<Rightarrow>
               (case copyPtr (\<lambda>c. CTenant (tenantOf c)) (sm_Tenant inp) h of
                  (tenant, h) \<Rightarrow>
                    (inp\<lparr>sm_Replicas := replicas, sm_MemoryPerPod := memory, sm_Drain := sm_Drain inp,
                         sm_Tenant := tenant\<rparr>, h))))"

definition Cache_DeepCopyInto :: "('v, 'u) copyLib \<Rightarrow> ('v, 'u, 'v Cache_mem) copier" where
  "Cache_DeepCopyInto L inp h =
     (case ObjectMeta_DeepCopyInto L (cm_ObjectMeta inp) h of
        (meta, h) \<Rightarrow>
          (case Spec_DeepCopyInto L (cm_Spec inp) h of
             (spec, h) \<Rightarrow>
               (case Status_DeepCopyInto L (cm_Status inp) h of
                  (status, h) \<Rightarrow>
                    (inp\<lparr>cm_TypeMeta := cm_TypeMeta inp, cm_ObjectMeta := meta, cm_Spec := spec,
                         cm_Status := status\<rparr>, h))))"

definition CacheList_DeepCopyInto :: "('v, 'u) copyLib \<Rightarrow> ('v, 'u, 'v CacheList_mem) copier" where
  "CacheList_DeepCopyInto L inp h =
     (case ListMeta_DeepCopyInto L (lm_ListMeta inp) h of
        (meta, h) \<Rightarrow>
          (case copySlice CCaches cachesOf (Cache_DeepCopyInto L) (lm_Items inp) h of
             (items, h) \<Rightarrow>
               (inp\<lparr>lm_TypeMeta := lm_TypeMeta inp, lm_ListMeta := meta, lm_Items := items\<rparr>, h)))"

text \<open>
  \<open>in.DeepCopy()\<close>: nil for nil, else \<open>out := new(T)\<close> (holding \<open>*in\<close>, the first assignment of
  \<open>DeepCopyInto\<close>) and \<open>in.DeepCopyInto(out)\<close>. \<open>DeepCopyObject\<close> is the same pointer as an interface.
\<close>

definition deepCopyPtr ::
  "('a \<Rightarrow> ('v, 'u) cell) \<Rightarrow> (('v, 'u) cell \<Rightarrow> 'a option) \<Rightarrow> ('v, 'u, 'a) copier \<Rightarrow> ('v, 'u, addr option) copier" where
  "deepCopyPtr mk get into p h =
     (case p of
        None \<Rightarrow> (None, h)
      | Some p \<Rightarrow>
          (case get (h_cell h p) of
             None \<Rightarrow> (None, h)
           | Some v \<Rightarrow>
               (case alloc (mk v) h of
                  (a, h) \<Rightarrow> (case into v h of (w, h) \<Rightarrow> (Some a, write_cell a (mk w) h)))))"

definition Cache_DeepCopy :: "('v, 'u) copyLib \<Rightarrow> ('v, 'u, addr option) copier" where
  "Cache_DeepCopy L = deepCopyPtr CCache (\<lambda>c. case c of CCache v \<Rightarrow> Some v | _ \<Rightarrow> None) (Cache_DeepCopyInto L)"

definition Cache_DeepCopyObject :: "('v, 'u) copyLib \<Rightarrow> ('v, 'u, addr option) copier" where
  "Cache_DeepCopyObject L p h = (case Cache_DeepCopy L p h of (Some c, h) \<Rightarrow> (Some c, h) | (None, h) \<Rightarrow> (None, h))"

definition CacheList_DeepCopy :: "('v, 'u) copyLib \<Rightarrow> ('v, 'u, addr option) copier" where
  "CacheList_DeepCopy L = deepCopyPtr CList (\<lambda>c. case c of CList v \<Rightarrow> Some v | _ \<Rightarrow> None) (CacheList_DeepCopyInto L)"

definition CacheList_DeepCopyObject :: "('v, 'u) copyLib \<Rightarrow> ('v, 'u, addr option) copier" where
  "CacheList_DeepCopyObject L p h =
     (case CacheList_DeepCopy L p h of (Some c, h) \<Rightarrow> (Some c, h) | (None, h) \<Rightarrow> (None, h))"

definition Spec_DeepCopy :: "('v, 'u) copyLib \<Rightarrow> ('v, 'u, addr option) copier" where
  "Spec_DeepCopy L = deepCopyPtr CSpec (\<lambda>c. case c of CSpec v \<Rightarrow> Some v | _ \<Rightarrow> None) (Spec_DeepCopyInto L)"

definition Status_DeepCopy :: "('v, 'u) copyLib \<Rightarrow> ('v, 'u, addr option) copier" where
  "Status_DeepCopy L = deepCopyPtr CStatus (\<lambda>c. case c of CStatus v \<Rightarrow> Some v | _ \<Rightarrow> None) (Status_DeepCopyInto L)"

definition RingStatus_DeepCopy :: "('v, 'u, addr option) copier" where
  "RingStatus_DeepCopy = deepCopyPtr CRing (\<lambda>c. case c of CRing v \<Rightarrow> Some v | _ \<Rightarrow> None) RingStatus_DeepCopyInto"

definition DrainSpec_DeepCopy :: "('v, 'u, addr option) copier" where
  "DrainSpec_DeepCopy = deepCopyPtr CDrain (\<lambda>c. case c of CDrain v \<Rightarrow> Some v | _ \<Rightarrow> None) DrainSpec_DeepCopyInto"

definition TenantSpec_DeepCopy :: "('v, 'u, addr option) copier" where
  "TenantSpec_DeepCopy = deepCopyPtr CTenant (\<lambda>c. case c of CTenant v \<Rightarrow> Some v | _ \<Rightarrow> None) TenantSpec_DeepCopyInto"

section \<open>What memory denotes\<close>

text \<open>The values of the structs of apimachinery, and the addresses they refer to.\<close>

record ('v, 'u) memView =
  mv_meta :: "('v, 'u) heap \<Rightarrow> 'v \<Rightarrow> ObjectMeta"
  mv_list :: "('v, 'u) heap \<Rightarrow> 'v \<Rightarrow> string"
  mv_cond :: "('v, 'u) heap \<Rightarrow> 'v \<Rightarrow> Condition"
  mv_quantity :: "('v, 'u) heap \<Rightarrow> 'v \<Rightarrow> Quantity"
  mv_refs :: "('v, 'u) heap \<Rightarrow> 'v \<Rightarrow> addr set"

definition slicePart :: "(('v, 'u) cell \<Rightarrow> 'a list) \<Rightarrow> ('v, 'u) heap \<Rightarrow> slice \<Rightarrow> 'a list" where
  "slicePart el h s = take (sl_len s) (el (h_cell h (sl_arr s)))"

definition valSlice ::
  "(('v, 'u) cell \<Rightarrow> 'a list) \<Rightarrow> (('v, 'u) heap \<Rightarrow> 'a \<Rightarrow> 'b) \<Rightarrow> ('v, 'u) heap \<Rightarrow> slice option \<Rightarrow> 'b list option" where
  "valSlice el val h s = map_option (\<lambda>s. map (val h) (slicePart el h s)) s"

definition refsSlice ::
  "(('v, 'u) cell \<Rightarrow> 'a list) \<Rightarrow> (('v, 'u) heap \<Rightarrow> 'a \<Rightarrow> addr set) \<Rightarrow> ('v, 'u) heap \<Rightarrow> slice option \<Rightarrow> addr set" where
  "refsSlice el refs h s =
     (case s of None \<Rightarrow> {} | Some s \<Rightarrow> insert (sl_arr s) (\<Union>x \<in> set (slicePart el h s). refs h x))"

definition valPtr :: "(('v, 'u) cell \<Rightarrow> 'a) \<Rightarrow> ('v, 'u) heap \<Rightarrow> addr option \<Rightarrow> 'a option" where
  "valPtr get h p = map_option (\<lambda>p. get (h_cell h p)) p"

definition refsPtr :: "('v, 'u) heap \<Rightarrow> addr option \<Rightarrow> addr set" where
  "refsPtr h p = set_option p"

definition nilAsEmpty :: "'a list option \<Rightarrow> 'a list" where
  "nilAsEmpty xs = (case xs of None \<Rightarrow> [] | Some xs \<Rightarrow> xs)"

definition valRing :: "('v, 'u) heap \<Rightarrow> RingStatus_mem \<Rightarrow> RingStatus" where
  "valRing h r = \<lparr>rs_Version = rm_Version r, rs_Members = nilAsEmpty (valSlice stringsOf (\<lambda>h x. x) h (rm_Members r)),
     rs_ConfigMapName = rm_ConfigMapName r\<rparr>"

definition refsRing :: "('v, 'u) heap \<Rightarrow> RingStatus_mem \<Rightarrow> addr set" where
  "refsRing h r = refsSlice stringsOf (\<lambda>h x. {}) h (rm_Members r)"

definition valStatus :: "('v, 'u) memView \<Rightarrow> ('v, 'u) heap \<Rightarrow> Status_mem \<Rightarrow> DistributedCacheStatus" where
  "valStatus V h t = \<lparr>Conditions = nilAsEmpty (valSlice conditionsOf (mv_cond V) h (tm_Conditions t)),
     ObservedGeneration = tm_ObservedGeneration t, ReadyReplicas = tm_ReadyReplicas t, RingSummary = valRing h (tm_Ring t)\<rparr>"

definition refsStatus :: "('v, 'u) memView \<Rightarrow> ('v, 'u) heap \<Rightarrow> Status_mem \<Rightarrow> addr set" where
  "refsStatus V h t = refsSlice conditionsOf (mv_refs V) h (tm_Conditions t) \<union> refsRing h (tm_Ring t)"

definition valSpec :: "('v, 'u) memView \<Rightarrow> ('v, 'u) heap \<Rightarrow> 'v Spec_mem \<Rightarrow> DistributedCacheSpec" where
  "valSpec V h s = \<lparr>Replicas = valPtr int32Of h (sm_Replicas s), Image = sm_Image s,
     MemoryPerPod = mv_quantity V h (sm_MemoryPerPod s), Drain = sm_Drain s, Tenant = valPtr tenantOf h (sm_Tenant s)\<rparr>"

definition refsSpec :: "('v, 'u) memView \<Rightarrow> ('v, 'u) heap \<Rightarrow> 'v Spec_mem \<Rightarrow> addr set" where
  "refsSpec V h s = refsPtr h (sm_Replicas s) \<union> mv_refs V h (sm_MemoryPerPod s) \<union> refsPtr h (sm_Tenant s)"

definition valCache :: "('v, 'u) memView \<Rightarrow> ('v, 'u) heap \<Rightarrow> 'v Cache_mem \<Rightarrow> DistributedCache" where
  "valCache V h c = ObjectMeta.extend (mv_meta V h (cm_ObjectMeta c))
     (DistributedCache.fields (valSpec V h (cm_Spec c)) (valStatus V h (cm_Status c)))"

definition refsCache :: "('v, 'u) memView \<Rightarrow> ('v, 'u) heap \<Rightarrow> 'v Cache_mem \<Rightarrow> addr set" where
  "refsCache V h c = mv_refs V h (cm_ObjectMeta c) \<union> refsSpec V h (cm_Spec c) \<union> refsStatus V h (cm_Status c)"

definition valList :: "('v, 'u) memView \<Rightarrow> ('v, 'u) heap \<Rightarrow> 'v CacheList_mem \<Rightarrow> string \<times> DistributedCache list" where
  "valList V h l = (mv_list V h (lm_ListMeta l), nilAsEmpty (valSlice cachesOf (valCache V) h (lm_Items l)))"

definition refsList :: "('v, 'u) memView \<Rightarrow> ('v, 'u) heap \<Rightarrow> 'v CacheList_mem \<Rightarrow> addr set" where
  "refsList V h l = mv_refs V h (lm_ListMeta l) \<union> refsSlice cachesOf (refsCache V) h (lm_Items l)"

section \<open>Copying\<close>

text \<open>The store has grown: old cells are as they were.\<close>

definition grows :: "('v, 'u) heap \<Rightarrow> ('v, 'u) heap \<Rightarrow> bool" where
  "grows h h' \<longleftrightarrow> h_next h \<le> h_next h' \<and> (\<forall>a < h_next h. h_cell h' a = h_cell h a)"

text \<open>A value depends only on the cells it refers to.\<close>

definition stable :: "(('v, 'u) heap \<Rightarrow> 'a \<Rightarrow> 'b) \<Rightarrow> (('v, 'u) heap \<Rightarrow> 'a \<Rightarrow> addr set) \<Rightarrow> bool" where
  "stable val refs \<longleftrightarrow> (\<forall>h h' x. (\<forall>a \<in> refs h x. h_cell h' a = h_cell h a) \<longrightarrow> val h' x = val h x \<and> refs h' x = refs h x)"

text \<open>\<open>y\<close> in \<open>h'\<close> is a copy of \<open>x\<close> in \<open>h\<close>: the same value, on cells allocated in between.\<close>

definition copied ::
  "(('v, 'u) heap \<Rightarrow> 'a \<Rightarrow> 'b) \<Rightarrow> (('v, 'u) heap \<Rightarrow> 'a \<Rightarrow> addr set) \<Rightarrow> ('v, 'u) heap \<Rightarrow> 'a \<Rightarrow> ('v, 'u) heap \<Rightarrow> 'a \<Rightarrow> bool" where
  "copied val refs h x h' y \<longleftrightarrow> grows h h' \<and> refs h' y \<subseteq> {h_next h..<h_next h'} \<and> val h' y = val h x"

definition deepCopier ::
  "(('v, 'u) heap \<Rightarrow> 'a \<Rightarrow> 'b) \<Rightarrow> (('v, 'u) heap \<Rightarrow> 'a \<Rightarrow> addr set) \<Rightarrow> ('v, 'u, 'a) copier \<Rightarrow> bool" where
  "deepCopier val refs f \<longleftrightarrow> stable val refs \<and>
     (\<forall>h x h' y. refs h x \<subseteq> {..<h_next h} \<longrightarrow> f x h = (y, h') \<longrightarrow> copied val refs h x h' y)"

lemma grows_refl [simp]: "grows h h"
  by (simp add: grows_def)

lemma grows_trans: "grows h1 h2 \<Longrightarrow> grows h2 h3 \<Longrightarrow> grows h1 h3"
  by (force simp: grows_def)

lemma stable_grows:
  assumes "stable val refs" "refs h x \<subseteq> {..<h_next h}" "grows h h'"
  shows "val h' x = val h x" "refs h' x = refs h x"
proof -
  have "\<forall>a \<in> refs h x. h_cell h' a = h_cell h a"
    using assms(2,3) by (auto simp: grows_def)
  then show "val h' x = val h x" "refs h' x = refs h x"
    using assms(1) unfolding stable_def by blast+
qed

text \<open>A copy stays one while the store grows after it, and is one of what was there before.\<close>

lemma copied_later:
  assumes "stable val refs" "copied val refs h x h1 y" "grows h1 h2"
  shows "copied val refs h x h2 y"
proof -
  have r: "refs h1 y \<subseteq> {h_next h..<h_next h1}"
    using assms(2) by (simp add: copied_def)
  then have "refs h1 y \<subseteq> {..<h_next h1}"
    by auto
  note same = stable_grows [OF assms(1) this assms(3)]
  have "grows h h2" "h_next h1 \<le> h_next h2"
    using assms(2,3) grows_trans [of h h1 h2] by (simp_all add: copied_def grows_def)
  then show ?thesis
    using assms(2) r unfolding copied_def same by auto
qed

lemma copied_earlier:
  assumes "stable val refs" "copied val refs h1 x h2 y" "grows h h1" "refs h x \<subseteq> {..<h_next h}"
  shows "copied val refs h x h2 y"
proof -
  have "grows h h2" "h_next h \<le> h_next h1"
    using assms(2,3) grows_trans [of h h1 h2] by (simp_all add: copied_def grows_def)
  then show ?thesis
    using assms(2) stable_grows(1) [OF assms(1,4,3)] unfolding copied_def by auto
qed

lemma deepCopierD:
  assumes "deepCopier val refs f" "f x h1 = (y, h2)" "refs h x \<subseteq> {..<h_next h}" "grows h h1"
  shows "copied val refs h x h2 y" "grows h1 h2"
proof -
  have st: "stable val refs"
    using assms(1) by (simp add: deepCopier_def)
  have "refs h1 x \<subseteq> {..<h_next h1}"
    using assms(3,4) unfolding stable_grows(2) [OF st assms(3,4)] by (auto simp: grows_def)
  then have c: "copied val refs h1 x h2 y"
    using assms(1,2) by (simp add: deepCopier_def)
  then show "grows h1 h2"
    by (simp add: copied_def)
  show "copied val refs h x h2 y"
    by (rule copied_earlier [OF st c assms(4,3)])
qed

lemma deepCopier_stable: "deepCopier val refs f \<Longrightarrow> stable val refs"
  by (simp add: deepCopier_def)

lemma stableD:
  assumes "stable val refs" "\<forall>a \<in> refs h x. h_cell h' a = h_cell h a"
  shows "val h' x = val h x \<and> refs h' x = refs h x"
  using assms(1) [unfolded stable_def, THEN spec, THEN spec, THEN spec, of h x h'] assms(2) by (rule mp)

lemma deepCopier_intro:
  assumes "stable val refs"
    and "\<And>h x h' y. refs h x \<subseteq> {..<h_next h} \<Longrightarrow> f x h = (y, h') \<Longrightarrow> copied val refs h x h' y"
  shows "deepCopier val refs f"
  using assms by (simp add: deepCopier_def)

lemma deepCopier_plain: "deepCopier (\<lambda>h x. x) (\<lambda>h x. {}) plain"
  by (auto simp: deepCopier_def stable_def copied_def plain_def)

lemma stable_all:
  fixes val :: "('v, 'u) heap \<Rightarrow> 'a \<Rightarrow> 'b"
  assumes "stable val refs"
  shows "stable (\<lambda>h. map (val h)) (\<lambda>h xs. \<Union>x \<in> set xs. refs h x)"
  unfolding stable_def
proof (intro allI impI)
  fix h h' :: "('v, 'u) heap" and xs
  assume same: "\<forall>a \<in> \<Union>x \<in> set xs. refs h x. h_cell h' a = h_cell h a"
  have "val h' x = val h x \<and> refs h' x = refs h x" if "x \<in> set xs" for x
    using that same by (intro stableD [OF assms]) blast
  then show "map (val h') xs = map (val h) xs \<and> (\<Union>x \<in> set xs. refs h' x) = (\<Union>x \<in> set xs. refs h x)"
    by auto
qed

lemma deepCopier_all:
  assumes "deepCopier val refs f"
  shows "deepCopier (\<lambda>h. map (val h)) (\<lambda>h xs. \<Union>x \<in> set xs. refs h x) (copyAll f)"
proof (rule deepCopier_intro)
  note st = deepCopier_stable [OF assms]
  show "stable (\<lambda>h. map (val h)) (\<lambda>h xs. \<Union>x \<in> set xs. refs h x)"
    by (rule stable_all [OF st])
  show "copied (\<lambda>h. map (val h)) (\<lambda>h xs. \<Union>x \<in> set xs. refs h x) h xs h' ys"
    if "(\<Union>x \<in> set xs. refs h x) \<subseteq> {..<h_next h}" "copyAll f xs h = (ys, h')" for h xs h' ys
    using that
  proof (induction xs arbitrary: h ys)
    case Nil
    then show ?case
      by (simp add: copied_def)
  next
    case (Cons x xs)
    obtain y h1 zs where y: "f x h = (y, h1)" and zs: "copyAll f xs h1 = (zs, h')" "ys = y # zs"
      using Cons.prems(2) by (auto split: prod.splits)
    have x: "refs h x \<subseteq> {..<h_next h}" "(\<Union>x \<in> set xs. refs h x) \<subseteq> {..<h_next h}"
      using Cons.prems(1) by auto
    note first = deepCopierD [OF assms y x(1) grows_refl]
    have "(\<Union>x \<in> set xs. refs h1 x) \<subseteq> {..<h_next h1}"
      using x(2) first(2) unfolding stable_grows(2) [OF stable_all [OF st] x(2) first(2)] by (auto simp: grows_def)
    from Cons.IH [OF this zs(1)]
    have rest: "copied (\<lambda>h. map (val h)) (\<lambda>h xs. \<Union>x \<in> set xs. refs h x) h1 xs h' zs" .
    then have "copied val refs h x h' y"
      using copied_later [OF st first(1)] by (simp add: copied_def)
    moreover have "copied (\<lambda>h. map (val h)) (\<lambda>h xs. \<Union>x \<in> set xs. refs h x) h xs h' zs"
      by (rule copied_earlier [OF stable_all [OF st] rest first(2) x(2)])
    ultimately show ?case
      by (auto simp: copied_def zs(2))
  qed
qed

lemma alloc_grows: "alloc c h = (a, h') \<Longrightarrow> grows h h' \<and> a = h_next h \<and> h_next h' = Suc a \<and> h_cell h' a = c"
  by (auto simp: alloc_def grows_def)

lemma write_cell_sel [simp]: "h_next (write_cell a c h) = h_next h" "h_cell (write_cell a c h) = (h_cell h)(a := c)"
  by (simp_all add: write_cell_def)

lemma stable_slice:
  fixes val :: "('v, 'u) heap \<Rightarrow> 'a \<Rightarrow> 'b"
  assumes "stable val refs"
  shows "stable (valSlice el val) (refsSlice el refs)"
  unfolding stable_def
proof (intro allI impI)
  fix h h' :: "('v, 'u) heap" and s
  assume same: "\<forall>a \<in> refsSlice el refs h s. h_cell h' a = h_cell h a"
  show "valSlice el val h' s = valSlice el val h s \<and> refsSlice el refs h' s = refsSlice el refs h s"
  proof (cases s)
    case (Some s')
    have part: "slicePart el h' s' = slicePart el h s'"
      using same Some by (simp add: slicePart_def refsSlice_def)
    have "\<forall>a \<in> \<Union>x \<in> set (slicePart el h s'). refs h x. h_cell h' a = h_cell h a"
      using same Some by (auto simp: refsSlice_def)
    then have "map (val h') (slicePart el h s') = map (val h) (slicePart el h s')
      \<and> (\<Union>x \<in> set (slicePart el h s'). refs h' x) = (\<Union>x \<in> set (slicePart el h s'). refs h x)"
      by (rule stableD [OF stable_all [OF assms]])
    then show ?thesis
      by (simp add: valSlice_def refsSlice_def Some part)
  qed (simp add: valSlice_def refsSlice_def)
qed

lemma deepCopier_slice:
  fixes val :: "('v, 'u) heap \<Rightarrow> 'a \<Rightarrow> 'b"
  assumes f: "deepCopier val refs f" and el: "\<And>xs. el (mk xs) = xs"
  shows "deepCopier (valSlice el val) (refsSlice el refs) (copySlice mk el f)"
proof (rule deepCopier_intro)
  note st = deepCopier_stable [OF f]
  show "stable (valSlice el val) (refsSlice el refs)"
    by (rule stable_slice [OF st])
  fix h h' :: "('v, 'u) heap" and s t
  assume refs: "refsSlice el refs h s \<subseteq> {..<h_next h}" and run: "copySlice mk el f s h = (t, h')"
  show "copied (valSlice el val) (refsSlice el refs) h s h' t"
  proof (cases s)
    case None
    then show ?thesis
      using run by (simp add: copySlice_def copied_def valSlice_def refsSlice_def)
  next
    case (Some s')
    obtain a h1 ys h2 where a: "alloc (mk []) h = (a, h1)"
      and ys: "copyAll f (take (sl_len s') (el (h_cell h1 (sl_arr s')))) h1 = (ys, h2)"
      and t: "t = Some \<lparr>sl_arr = a, sl_len = sl_len s'\<rparr>" "h' = write_cell a (mk ys) h2"
      using run Some by (auto simp: copySlice_def split: prod.splits)
    note al = alloc_grows [OF a]
    have xs: "(\<Union>x \<in> set (slicePart el h s'). refs h x) \<subseteq> {..<h_next h}" "sl_arr s' < h_next h"
      using refs Some by (auto simp: refsSlice_def)
    then have part: "take (sl_len s') (el (h_cell h1 (sl_arr s'))) = slicePart el h s'"
      using al by (simp add: slicePart_def grows_def)
    note all = deepCopier_all [OF f]
    have xs1: "(\<Union>x \<in> set (slicePart el h s'). refs h1 x) \<subseteq> {..<h_next h1}"
      using xs(1) al unfolding stable_grows(2) [OF deepCopier_stable [OF all] xs(1) al [THEN conjunct1]]
      by auto
    have c: "copied (\<lambda>h. map (val h)) (\<lambda>h xs. \<Union>x \<in> set xs. refs h x) h1 (slicePart el h s') h2 ys"
      using deepCopierD(1) [OF all ys [unfolded part] xs1 grows_refl] .
    have g: "grows h h'"
      using al c t(2) by (auto simp: copied_def grows_def)
    have fresh: "\<forall>b \<in> \<Union>y \<in> set ys. refs h2 y. h_cell h' b = h_cell h2 b"
      using c al t(2) by (auto simp: copied_def)
    note same = stableD [OF deepCopier_stable [OF all] fresh, THEN conjunct1]
      stableD [OF deepCopier_stable [OF all] fresh, THEN conjunct2]
    have "map (val h1) (slicePart el h s') = map (val h) (slicePart el h s')"
      by (rule stable_grows(1) [OF deepCopier_stable [OF all] xs(1) al [THEN conjunct1]])
    then have vals: "map (val h') ys = map (val h) (slicePart el h s')"
      using c same(1) by (simp only: copied_def)
    have "length ys = length (slicePart el h s')"
      using vals by (metis length_map)
    then have ys': "slicePart el h' \<lparr>sl_arr = a, sl_len = sl_len s'\<rparr> = ys"
      by (simp add: slicePart_def t(2) el)
    have "h_next h1 \<le> h_next h'"
      using c t(2) by (simp add: copied_def grows_def)
    then have "insert a (\<Union>y \<in> set ys. refs h' y) \<subseteq> {h_next h..<h_next h'}"
      using c al t(2) unfolding same(2) by (auto simp: copied_def)
    with g vals show ?thesis
      by (simp add: copied_def valSlice_def refsSlice_def Some t(1) ys')
  qed
qed

lemma deepCopier_ptr:
  assumes "\<And>c. get (mk c) = get c"
  shows "deepCopier (valPtr get) refsPtr (copyPtr mk)"
proof (rule deepCopier_intro)
  show "stable (valPtr get) refsPtr"
    by (auto simp: stable_def valPtr_def refsPtr_def intro!: option.map_cong)
  show "copied (valPtr get) refsPtr h p h' q" if "copyPtr mk p h = (q, h')" for h p h' q
    using that assms by (auto simp: copyPtr_def alloc_def copied_def valPtr_def refsPtr_def grows_def split: option.splits)
qed

text \<open>A struct is copied by copying three of its parts; \<open>c\<close> makes its value of theirs and of the rest.\<close>

lemma deepCopier_struct:
  assumes g: "deepCopier val1 refs1 g1" "deepCopier val2 refs2 g2" "deepCopier val3 refs3 g3"
    and F: "\<And>x h. F x h = (case g1 (f1 x) h of (a1, h) \<Rightarrow> case g2 (f2 x) h of (a2, h) \<Rightarrow> case g3 (f3 x) h of (a3, h) \<Rightarrow>
      (put a1 a2 a3 x, h))"
    and put: "\<And>a1 a2 a3 x. f1 (put a1 a2 a3 x) = a1 \<and> f2 (put a1 a2 a3 x) = a2 \<and> f3 (put a1 a2 a3 x) = a3 \<and> c (put a1 a2 a3 x) = c x"
  shows "deepCopier (\<lambda>h x. c x (val1 h (f1 x)) (val2 h (f2 x)) (val3 h (f3 x)))
    (\<lambda>h x. refs1 h (f1 x) \<union> refs2 h (f2 x) \<union> refs3 h (f3 x)) F"
proof (rule deepCopier_intro)
  note st = g [THEN deepCopier_stable]
  show "stable (\<lambda>h x. c x (val1 h (f1 x)) (val2 h (f2 x)) (val3 h (f3 x)))
    (\<lambda>h x. refs1 h (f1 x) \<union> refs2 h (f2 x) \<union> refs3 h (f3 x))"
    using st unfolding stable_def by (metis UnCI)
  fix h x h' y
  assume refs: "refs1 h (f1 x) \<union> refs2 h (f2 x) \<union> refs3 h (f3 x) \<subseteq> {..<h_next h}" and "F x h = (y, h')"
  then obtain a1 h1 a2 h2 a3 where a1: "g1 (f1 x) h = (a1, h1)" and a2: "g2 (f2 x) h1 = (a2, h2)"
    and a3: "g3 (f3 x) h2 = (a3, h')" and y: "y = put a1 a2 a3 x"
    by (auto simp: F split: prod.splits)
  have r: "refs1 h (f1 x) \<subseteq> {..<h_next h}" "refs2 h (f2 x) \<subseteq> {..<h_next h}" "refs3 h (f3 x) \<subseteq> {..<h_next h}"
    using refs by auto
  note 1 = deepCopierD [OF g(1) a1 r(1) grows_refl]
  note 2 = deepCopierD [OF g(2) a2 r(2) 1(2)]
  note 3 = deepCopierD [OF g(3) a3 r(3) grows_trans [OF 1(2) 2(2)]]
  have "copied val1 refs1 h (f1 x) h' a1" "copied val2 refs2 h (f2 x) h' a2"
    using copied_later [OF st(1) 1(1) grows_trans [OF 2(2) 3(2)]] copied_later [OF st(2) 2(1) 3(2)] .
  with 3(1) show "copied (\<lambda>h x. c x (val1 h (f1 x)) (val2 h (f2 x)) (val3 h (f3 x)))
    (\<lambda>h x. refs1 h (f1 x) \<union> refs2 h (f2 x) \<union> refs3 h (f3 x)) h x h' y"
    by (simp add: copied_def y put)
qed

section \<open>The contract of apimachinery\<close>

locale copy_lib =
  fixes L :: "('v, 'u) copyLib" and V :: "('v, 'u) memView"
  assumes meta_copy: "deepCopier (mv_meta V) (mv_refs V) (ObjectMeta_DeepCopyInto L)"
    and list_copy: "deepCopier (mv_list V) (mv_refs V) (ListMeta_DeepCopyInto L)"
    and cond_copy: "deepCopier (mv_cond V) (mv_refs V) (Condition_DeepCopyInto L)"
    and quantity_copy: "deepCopier (mv_quantity V) (mv_refs V) (Quantity_DeepCopy L)"
begin

lemma ring_copy: "deepCopier valRing refsRing RingStatus_DeepCopyInto"
proof -
  have "deepCopier (\<lambda>h x. (\<lambda>ms u1 u2. \<lparr>rs_Version = rm_Version x, rs_Members = nilAsEmpty ms, rs_ConfigMapName = rm_ConfigMapName x\<rparr>)
      (valSlice stringsOf (\<lambda>h x. x) h (rm_Members x)) () ())
    (\<lambda>h x. refsSlice stringsOf (\<lambda>h x. {}) h (rm_Members x) \<union> {} \<union> {}) RingStatus_DeepCopyInto"
    by (rule deepCopier_struct [OF deepCopier_slice [where mk = CStrings, OF deepCopier_plain] deepCopier_plain deepCopier_plain,
          where put = "\<lambda>ms u1 u2 x. x\<lparr>rm_Members := ms\<rparr>" and ?f2.0 = "\<lambda>x. ()" and ?f3.0 = "\<lambda>x. ()"])
       (simp_all add: RingStatus_DeepCopyInto_def plain_def split: prod.splits)
  then show ?thesis
    by (simp add: valRing_def [abs_def] refsRing_def [abs_def])
qed

lemma status_copy: "deepCopier (valStatus V) (refsStatus V) (Status_DeepCopyInto L)"
proof -
  have "deepCopier (\<lambda>h x. (\<lambda>cs r u. \<lparr>Conditions = nilAsEmpty cs, ObservedGeneration = tm_ObservedGeneration x,
        ReadyReplicas = tm_ReadyReplicas x, RingSummary = r\<rparr>)
      (valSlice conditionsOf (mv_cond V) h (tm_Conditions x)) (valRing h (tm_Ring x)) ())
    (\<lambda>h x. refsSlice conditionsOf (mv_refs V) h (tm_Conditions x) \<union> refsRing h (tm_Ring x) \<union> {}) (Status_DeepCopyInto L)"
    by (rule deepCopier_struct [OF deepCopier_slice [where mk = CConditions, OF cond_copy] ring_copy deepCopier_plain,
          where put = "\<lambda>cs r u x. x\<lparr>tm_Conditions := cs, tm_Ring := r\<rparr>" and ?f3.0 = "\<lambda>x. ()"])
       (simp_all add: Status_DeepCopyInto_def plain_def split: prod.splits)
  then show ?thesis
    by (simp add: valStatus_def [abs_def] refsStatus_def [abs_def])
qed

lemma spec_copy: "deepCopier (valSpec V) (refsSpec V) (Spec_DeepCopyInto L)"
  unfolding valSpec_def [abs_def] refsSpec_def [abs_def]
  by (rule deepCopier_struct [OF deepCopier_ptr quantity_copy deepCopier_ptr,
        where put = "\<lambda>r m t x. x\<lparr>sm_Replicas := r, sm_MemoryPerPod := m, sm_Tenant := t\<rparr>"
          and c = "\<lambda>x r m t. \<lparr>Replicas = r, Image = sm_Image x, MemoryPerPod = m, Drain = sm_Drain x, Tenant = t\<rparr>"])
     (simp_all add: Spec_DeepCopyInto_def split: prod.splits)

lemma cache_copy: "deepCopier (valCache V) (refsCache V) (Cache_DeepCopyInto L)"
  unfolding valCache_def [abs_def] refsCache_def [abs_def]
  by (rule deepCopier_struct [OF meta_copy spec_copy status_copy,
        where put = "\<lambda>m s t x. x\<lparr>cm_ObjectMeta := m, cm_Spec := s, cm_Status := t\<rparr>"
          and c = "\<lambda>x m s t. ObjectMeta.extend m (DistributedCache.fields s t)"])
     (simp_all add: Cache_DeepCopyInto_def split: prod.splits)

lemma cacheList_copy: "deepCopier (valList V) (refsList V) (CacheList_DeepCopyInto L)"
proof -
  have "deepCopier (\<lambda>h x. (\<lambda>m xs u. (m, nilAsEmpty xs)) (mv_list V h (lm_ListMeta x)) (valSlice cachesOf (valCache V) h (lm_Items x)) ())
    (\<lambda>h x. mv_refs V h (lm_ListMeta x) \<union> refsSlice cachesOf (refsCache V) h (lm_Items x) \<union> {}) (CacheList_DeepCopyInto L)"
    by (rule deepCopier_struct [OF list_copy deepCopier_slice [where mk = CCaches, OF cache_copy] deepCopier_plain,
          where put = "\<lambda>m xs u x. x\<lparr>lm_ListMeta := m, lm_Items := xs\<rparr>" and ?f3.0 = "\<lambda>x. ()"])
       (simp_all add: CacheList_DeepCopyInto_def plain_def split: prod.splits)
  then show ?thesis
    by (simp add: valList_def [abs_def] refsList_def [abs_def])
qed

end

section \<open>Copies of pointers\<close>

lemma deepCopyPtr_copied:
  assumes f: "deepCopier val refs f" and get: "\<And>v. get (mk v) = Some v"
    and v: "get (h_cell h p) = Some v" "refs h v \<subseteq> {..<h_next h}"
    and run: "deepCopyPtr mk get f (Some p) h = (out, h')"
  obtains w where "out = Some (h_next h)" "h_next h < h_next h'" "h_cell h' (h_next h) = mk w" "copied val refs h v h' w"
proof -
  note st = deepCopier_stable [OF f]
  obtain a h1 w h2 where a: "alloc (mk v) h = (a, h1)" and w: "f v h1 = (w, h2)"
    and out: "out = Some a" "h' = write_cell a (mk w) h2"
    using run v(1) by (auto simp: deepCopyPtr_def split: prod.splits)
  have al: "grows h h1" "a = h_next h" "h_next h1 = Suc a"
    using alloc_grows [OF a] by blast+
  have "refs h1 v \<subseteq> {..<h_next h1}"
    using v(2) al unfolding stable_grows(2) [OF st v(2) al(1)] by auto
  note c = deepCopierD [OF f w this grows_refl]
  have g: "grows h h'"
    using al c(2) out(2) by (auto simp: grows_def)
  have fresh: "\<forall>b \<in> refs h2 w. h_cell h' b = h_cell h2 b"
    using c(1) al out(2) by (auto simp: copied_def)
  note same = stableD [OF st fresh]
  have "val h' w = val h v"
    using same c(1) stable_grows(1) [OF st v(2) al(1)] by (simp add: copied_def)
  moreover have "refs h' w \<subseteq> {h_next h..<h_next h'}"
    using c(1) al out(2) unfolding same [THEN conjunct2] by (auto simp: copied_def)
  ultimately have "copied val refs h v h' w"
    using g by (simp add: copied_def)
  moreover have "h_next h < h_next h'"
    using al c(2) out(2) by (simp add: grows_def)
  ultimately show thesis
    using that [of w] out al(2) by simp
qed

lemma deepCopyPtr_ex:
  assumes "deepCopier val refs f" "\<And>v. get (mk v) = Some v" "h_cell h p = mk v" "refs h v \<subseteq> {..<h_next h}"
    and "deepCopyPtr mk get f (Some p) h = (out, h')"
  shows "\<exists>w. out = Some (h_next h) \<and> h_cell h' (h_next h) = mk w \<and> copied val refs h v h' w"
proof -
  have "get (h_cell h p) = Some v"
    using assms(2,3) by simp
  from deepCopyPtr_copied [OF assms(1,2) this assms(4,5)] show ?thesis
    by blast
qed

context copy_lib
begin

lemma cache_pointer_copy:
  "h_cell h p = CCache c \<Longrightarrow> refsCache V h c \<subseteq> {..<h_next h} \<Longrightarrow> Cache_DeepCopy L (Some p) h = (out, h') \<Longrightarrow>
    \<exists>w. out = Some (h_next h) \<and> h_cell h' (h_next h) = CCache w \<and> copied (valCache V) (refsCache V) h c h' w"
  unfolding Cache_DeepCopy_def by (rule deepCopyPtr_ex [OF cache_copy]) simp_all

lemma cacheList_pointer_copy:
  "h_cell h p = CList l \<Longrightarrow> refsList V h l \<subseteq> {..<h_next h} \<Longrightarrow> CacheList_DeepCopy L (Some p) h = (out, h') \<Longrightarrow>
    \<exists>w. out = Some (h_next h) \<and> h_cell h' (h_next h) = CList w \<and> copied (valList V) (refsList V) h l h' w"
  unfolding CacheList_DeepCopy_def by (rule deepCopyPtr_ex [OF cacheList_copy]) simp_all

lemma spec_pointer_copy:
  "h_cell h p = CSpec s \<Longrightarrow> refsSpec V h s \<subseteq> {..<h_next h} \<Longrightarrow> Spec_DeepCopy L (Some p) h = (out, h') \<Longrightarrow>
    \<exists>w. out = Some (h_next h) \<and> h_cell h' (h_next h) = CSpec w \<and> copied (valSpec V) (refsSpec V) h s h' w"
  unfolding Spec_DeepCopy_def by (rule deepCopyPtr_ex [OF spec_copy]) simp_all

lemma status_pointer_copy:
  "h_cell h p = CStatus t \<Longrightarrow> refsStatus V h t \<subseteq> {..<h_next h} \<Longrightarrow> Status_DeepCopy L (Some p) h = (out, h') \<Longrightarrow>
    \<exists>w. out = Some (h_next h) \<and> h_cell h' (h_next h) = CStatus w \<and> copied (valStatus V) (refsStatus V) h t h' w"
  unfolding Status_DeepCopy_def by (rule deepCopyPtr_ex [OF status_copy]) simp_all

lemma ring_pointer_copy:
  "h_cell h p = CRing r \<Longrightarrow> refsRing h r \<subseteq> {..<h_next h} \<Longrightarrow> RingStatus_DeepCopy (Some p) h = (out, h') \<Longrightarrow>
    \<exists>w. out = Some (h_next h) \<and> h_cell h' (h_next h) = CRing w \<and> copied valRing refsRing h r h' w"
  unfolding RingStatus_DeepCopy_def by (rule deepCopyPtr_ex [OF ring_copy]) simp_all

end

text \<open>Copies of values on either side of an address are independent of each other.\<close>

lemma copied_isolated:
  assumes "stable val refs" "copied val refs h v h' w" "refs h v \<subseteq> {..<h_next h}"
  shows "\<forall>a < h_next h. h_cell k a = h_cell h' a \<Longrightarrow> val k v = val h v"
    and "\<forall>a \<ge> h_next h. h_cell k a = h_cell h' a \<Longrightarrow> val k w = val h v"
proof -
  have "\<forall>a \<in> refs h v. h_cell k a = h_cell h a" if "\<forall>a < h_next h. h_cell k a = h_cell h' a"
    using assms(2,3) that by (auto simp: copied_def grows_def)
  then show "\<forall>a < h_next h. h_cell k a = h_cell h' a \<Longrightarrow> val k v = val h v"
    using stableD [OF assms(1)] by blast
  have "\<forall>a \<in> refs h' w. h_cell k a = h_cell h' a" if "\<forall>a \<ge> h_next h. h_cell k a = h_cell h' a"
    using assms(2) that by (auto simp: copied_def)
  then have "\<forall>a \<ge> h_next h. h_cell k a = h_cell h' a \<Longrightarrow> val k w = val h' w"
    using stableD [OF assms(1)] by blast
  then show "\<forall>a \<ge> h_next h. h_cell k a = h_cell h' a \<Longrightarrow> val k w = val h v"
    using assms(2) by (simp add: copied_def)
qed

section \<open>An implementation of the contract\<close>

text \<open>Each struct of apimachinery as one cell of its own, copied into a new one.\<close>

datatype other = OMeta ObjectMeta | OList string | OCondition Condition | OQuantity Quantity

definition cellCopy :: "(addr, other, addr) copier" where
  "cellCopy v h = alloc (h_cell h v) h"

definition cellLib :: "(addr, other) copyLib" where
  "cellLib = \<lparr>ObjectMeta_DeepCopyInto = cellCopy, ListMeta_DeepCopyInto = cellCopy, Condition_DeepCopyInto = cellCopy,
     Quantity_DeepCopy = cellCopy\<rparr>"

definition cellView :: "(addr, other) memView" where
  "cellView =
    \<lparr>mv_meta = (\<lambda>h v. case h_cell h v of COther (OMeta m) \<Rightarrow> m | _ \<Rightarrow> newMeta '''' ''''),
     mv_list = (\<lambda>h v. case h_cell h v of COther (OList l) \<Rightarrow> l | _ \<Rightarrow> ''''),
     mv_cond = (\<lambda>h v. case h_cell h v of COther (OCondition c) \<Rightarrow> c
       | _ \<Rightarrow> \<lparr>c_Type = '''', c_Status = '''', c_Reason = '''', c_Message = '''', c_ObservedGeneration = 0,
              c_LastTransitionTime = None\<rparr>),
     mv_quantity = (\<lambda>h v. case h_cell h v of COther (OQuantity q) \<Rightarrow> q | _ \<Rightarrow> ''''),
     mv_refs = (\<lambda>h v. {v})\<rparr>"

lemma cellCopy_copies: "deepCopier (\<lambda>h v. g (h_cell h v)) (\<lambda>h v. {v}) cellCopy"
  by (auto simp: deepCopier_def stable_def copied_def cellCopy_def alloc_def grows_def)

interpretation cell_mem: copy_lib cellLib cellView
  by unfold_locales (simp_all add: cellLib_def cellView_def cellCopy_copies)

text \<open>A resource in memory: three replicas, and a ring whose slice shows the first of two names.\<close>

definition exampleMemory :: "(addr, other) heap" where
  "exampleMemory = \<lparr>h_next = 5, h_cell = (\<lambda>_. CInt32 0)
     (0 := CInt32 3, 1 := COther (OMeta (newMeta ''c'' ''default'')), 2 := COther (OQuantity ''1Gi''), 3 := CStrings [''c-0'', ''c-1''],
      4 := CCache \<lparr>cm_TypeMeta = (''DistributedCache'', ''v1alpha1''), cm_ObjectMeta = 1,
        cm_Spec = \<lparr>sm_Replicas = Some 0, sm_Image = ''tiny-cache'', sm_MemoryPerPod = 2, sm_Drain = \<lparr>GracePeriodSeconds = 30\<rparr>,
          sm_Tenant = None\<rparr>,
        cm_Status = \<lparr>tm_Conditions = None, tm_ObservedGeneration = 0, tm_ReadyReplicas = 2,
          tm_Ring = \<lparr>rm_Version = 1, rm_Members = Some \<lparr>sl_arr = 3, sl_len = 1\<rparr>, rm_ConfigMapName = ''c-ring''\<rparr>\<rparr>\<rparr>)\<rparr>"

definition exampleStruct :: "addr Cache_mem" where
  "exampleStruct = (case h_cell exampleMemory 4 of CCache c \<Rightarrow> c)"

section \<open>Properties\<close>

text \<open>
  C26: \<open>DeepCopy\<close> makes an independent copy. For a resource in memory whose pointers and slices are
  allocated, and any copying functions of apimachinery that keep their contract, \<open>DeepCopy\<close>
  returns a new struct that denotes the same resource and refers only to new memory. Whatever is
  then written to that memory, the original still denotes the resource it did; whatever is
  written elsewhere, the copy does. A nil pointer is copied to nil.
\<close>

theorem deep_copy_isolates:
  assumes "copy_lib L V" "h_cell h p = CCache c" "refsCache V h c \<subseteq> {..<h_next h}"
    and "Cache_DeepCopy L (Some p) h = (out, h')"
  shows "\<exists>c'. out = Some (h_next h) \<and> h_cell h' (h_next h) = CCache c' \<and> valCache V h' c' = valCache V h c
    \<and> refsCache V h' c' \<subseteq> {h_next h..<h_next h'} \<and> Cache_DeepCopy L None h = (None, h)
    \<and> (\<forall>k. (\<forall>a < h_next h. h_cell k a = h_cell h' a) \<longrightarrow> valCache V k c = valCache V h c)
    \<and> (\<forall>k. (\<forall>a \<ge> h_next h. h_cell k a = h_cell h' a) \<longrightarrow> valCache V k c' = valCache V h c)"
proof -
  note copy = copy_lib.cache_copy [OF assms(1)]
  obtain c' where c': "out = Some (h_next h)" "h_cell h' (h_next h) = CCache c'"
    "copied (valCache V) (refsCache V) h c h' c'"
    using copy_lib.cache_pointer_copy [OF assms] by blast
  note iso = copied_isolated [OF deepCopier_stable [OF copy] c'(3) assms(3)]
  have "Cache_DeepCopy L None h = (None, h)"
    by (simp add: Cache_DeepCopy_def deepCopyPtr_def)
  with c' iso show ?thesis
    by (auto simp: copied_def)
qed

theorem deep_copy_isolates_witness:
  "\<exists>c' h'. Cache_DeepCopy cellLib (Some 4) exampleMemory = (Some 5, h') \<and> h_cell h' 5 = CCache c'
     \<and> valCache cellView h' c' = valCache cellView exampleMemory exampleStruct
     \<and> valCache cellView (write_cell 6 (CInt32 1) h') exampleStruct = valCache cellView exampleMemory exampleStruct
     \<and> Replicas (Spec (valCache cellView exampleMemory exampleStruct)) = Some 3
     \<and> rs_Members (RingSummary (Status (valCache cellView exampleMemory exampleStruct))) = [''c-0'']"
proof -
  have c: "h_cell exampleMemory 4 = CCache exampleStruct"
    by (simp add: exampleStruct_def exampleMemory_def)
  have next5: "h_next exampleMemory = 5"
    by (simp add: exampleMemory_def)
  have refs: "refsCache cellView exampleMemory exampleStruct \<subseteq> {..<h_next exampleMemory}"
    by (simp add: refsCache_def refsSpec_def refsStatus_def refsPtr_def refsRing_def refsSlice_def slicePart_def
        cellView_def exampleStruct_def exampleMemory_def)
  obtain out h' where run: "Cache_DeepCopy cellLib (Some 4) exampleMemory = (out, h')"
    by (cases "Cache_DeepCopy cellLib (Some 4) exampleMemory")
  from deep_copy_isolates [OF cell_mem.copy_lib_axioms c refs run]
  obtain c' where c': "out = Some 5" "h_cell h' 5 = CCache c'" "valCache cellView h' c' = valCache cellView exampleMemory exampleStruct"
    and iso: "\<And>k. \<forall>a < 5. h_cell k a = h_cell h' a \<Longrightarrow> valCache cellView k exampleStruct = valCache cellView exampleMemory exampleStruct"
    unfolding next5 by blast
  moreover have "valCache cellView (write_cell 6 (CInt32 1) h') exampleStruct = valCache cellView exampleMemory exampleStruct"
    by (rule iso) simp
  moreover have "Replicas (Spec (valCache cellView exampleMemory exampleStruct)) = Some 3"
    "rs_Members (RingSummary (Status (valCache cellView exampleMemory exampleStruct))) = [''c-0'']"
    by (simp_all add: valCache_def valSpec_def valPtr_def valStatus_def valRing_def valSlice_def slicePart_def nilAsEmpty_def
        exampleStruct_def exampleMemory_def ObjectMeta.extend_def DistributedCache.fields_def)
  ultimately show ?thesis
    using run by blast
qed

end
