(* ===== verification/Ring.thy ===== *)
theory Ring
  imports Api_Types
begin

text \<open>
  \<open>internal/controller/ring.go\<close>: the published ring and the computation of its members from a
  pod list. The lemmas show that the two comparison loops decide equality, that the ordinal of
  a StatefulSet pod name is read back from its printed form, and that \<open>computeMembers\<close> returns
  exactly the eligible pods, once each, by increasing ordinal.
\<close>

record Ring =
  Version :: int64
  Members :: "string list"

text \<open>The index loop shared by \<open>Equal\<close> and \<open>MembersEqual\<close>: \<open>for i := range r.Members\<close>.\<close>

fun membersLoop :: "string list \<Rightarrow> string list \<Rightarrow> nat \<Rightarrow> nat \<Rightarrow> bool" where
  "membersLoop xs ys i 0 = True"
| "membersLoop xs ys i (Suc k) = (if xs ! i \<noteq> ys ! i then False else membersLoop xs ys (Suc i) k)"

definition MembersEqual :: "Ring \<Rightarrow> Ring \<Rightarrow> bool" where
  "MembersEqual r other =
     (if length (Members r) \<noteq> length (Members other) then False
      else membersLoop (Members r) (Members other) 0 (length (Members r)))"

definition ringEqual :: "Ring \<Rightarrow> Ring \<Rightarrow> bool" where
  "ringEqual r other =
     (if Version r \<noteq> Version other then False
      else if length (Members r) \<noteq> length (Members other) then False
      else membersLoop (Members r) (Members other) 0 (length (Members r)))"

definition drainAnnotation :: string where
  "drainAnnotation = ''cache.sk1.services.com/draining-since''"

definition podOrdinal :: "string \<Rightarrow> int64 option" where
  "podOrdinal name =
     (let idx = LastIndex name (CHR ''-'')
      in if idx = -1 \<or> idx = int (length name) - 1 then None
         else ParseInt (drop (nat (idx + 1)) name))"

fun readyLoop :: "PodCondition list \<Rightarrow> bool" where
  "readyLoop [] = False"
| "readyLoop (c # cs) = (if pc_Type c = ''Ready'' then pc_Status c = ''True'' else readyLoop cs)"

definition isPodReady :: "Pod \<Rightarrow> bool" where
  "isPodReady p = readyLoop (PodConditions p)"

text \<open>The local struct \<open>ordered\<close> of \<open>computeMembers\<close>.\<close>

record ordered =
  o_name :: string
  o_ordinal :: int64

fun collectReady :: "Pod list \<Rightarrow> ordered list" where
  "collectReady [] = []"
| "collectReady (p # ps) =
     (if DeletionTimestamp p \<noteq> None then collectReady ps
      else if mapGet (Annotations p) drainAnnotation \<noteq> None then collectReady ps
      else if Phase p \<noteq> ''Running'' then collectReady ps
      else if \<not> isPodReady p then collectReady ps
      else case podOrdinal (Name p) of
             None \<Rightarrow> collectReady ps
           | Some ord \<Rightarrow> \<lparr>o_name = Name p, o_ordinal = ord\<rparr> # collectReady ps)"

type_synonym sort_ordered = "(ordered \<Rightarrow> ordered \<Rightarrow> bool) \<Rightarrow> ordered list \<Rightarrow> ordered list"

definition computeMembers :: "sort_ordered \<Rightarrow> Pod list \<Rightarrow> string list" where
  "computeMembers srt pods =
     map o_name (srt (\<lambda>a b. sint (o_ordinal a) < sint (o_ordinal b)) (collectReady pods))"

section \<open>Comparison of rings\<close>

lemma membersLoop_iff: "membersLoop xs ys i k \<longleftrightarrow> (\<forall>j < k. xs ! (i + j) = ys ! (i + j))"
proof (induction k arbitrary: i)
  case 0
  then show ?case by simp
next
  case (Suc k)
  show ?case
    by (simp add: Suc All_less_Suc2)
qed

lemma membersLoop_eq:
  "length xs = length ys \<Longrightarrow> membersLoop xs ys 0 (length ys) \<longleftrightarrow> xs = ys"
  by (simp add: membersLoop_iff list_eq_iff_nth_eq)

lemma MembersEqual_iff [simp]: "MembersEqual r s \<longleftrightarrow> Members r = Members s"
  by (auto simp: MembersEqual_def membersLoop_eq)

lemma ringEqual_iff [simp]: "ringEqual r s \<longleftrightarrow> r = s"
  by (cases r; cases s) (auto simp: ringEqual_def membersLoop_eq)

section \<open>Ordinals\<close>

lemma podOrdinal_suffix:
  assumes "CHR ''-'' \<notin> set t" "t \<noteq> []"
  shows "podOrdinal (s @ CHR ''-'' # t) = ParseInt t"
  using assms by (simp add: podOrdinal_def LastIndex_append nat_add_distrib Let_def)

lemma podOrdinal_nonneg: "podOrdinal name = Some w \<Longrightarrow> 0 \<le> sint w"
proof -
  assume p: "podOrdinal name = Some w"
  let ?idx = "LastIndex name (CHR ''-'')"
  have "0 \<le> ?idx"
    using p LastIndex_ge [of name "CHR ''-''"] by (auto simp: podOrdinal_def Let_def split: if_splits)
  then obtain xs ys where name: "name = xs @ CHR ''-'' # ys" and ys: "CHR ''-'' \<notin> set ys"
    and idx: "?idx = int (length xs)"
    using LastIndex_split by blast
  with p have "ParseInt ys = Some w"
    by (auto simp: podOrdinal_def nat_add_distrib Let_def split: if_splits)
  then show ?thesis
    using ys by (rule ParseInt_unsigned)
qed

lemma podOrdinal_podName:
  "int n < 2 ^ 63 \<Longrightarrow> podOrdinal (s @ ''-'' @ fmtNat n) = Some (word_of_nat n)"
  using podOrdinal_suffix [of "fmtNat n" s] by (simp add: ParseInt_fmtNat)

section \<open>Members\<close>

text \<open>The pods the selection rules admit.\<close>

definition eligible :: "Pod \<Rightarrow> bool" where
  "eligible p \<longleftrightarrow> DeletionTimestamp p = None \<and> mapGet (Annotations p) drainAnnotation = None
     \<and> Phase p = ''Running'' \<and> isPodReady p \<and> podOrdinal (Name p) \<noteq> None"

definition ordinalOf :: "string \<Rightarrow> int" where
  "ordinalOf name = (case podOrdinal name of None \<Rightarrow> -1 | Some w \<Rightarrow> sint w)"

definition toOrdered :: "Pod \<Rightarrow> ordered" where
  "toOrdered p = \<lparr>o_name = Name p, o_ordinal = the (podOrdinal (Name p))\<rparr>"

lemma collectReady_filter: "collectReady ps = map toOrdered (filter eligible ps)"
  by (induction ps) (auto simp: eligible_def toOrdered_def)

lemma toOrdered_sel [simp]: "o_name (toOrdered p) = Name p"
  by (simp add: toOrdered_def)

lemma eligible_ordinal: "eligible p \<Longrightarrow> sint (o_ordinal (toOrdered p)) = ordinalOf (Name p)"
  by (auto simp: eligible_def toOrdered_def ordinalOf_def)

locale member_sort = sort_slice srt for srt :: sort_ordered
begin

lemma mset_computeMembers:
  "mset (computeMembers srt pods) = mset (map Name (filter eligible pods))"
  by (simp add: computeMembers_def mset_srt collectReady_filter multiset.map_comp comp_def)

lemma set_computeMembers: "set (computeMembers srt pods) = Name ` {p \<in> set pods. eligible p}"
  using mset_eq_setD [OF mset_computeMembers] by simp

lemma sorted_computeMembers: "sorted (map ordinalOf (computeMembers srt pods))"
proof -
  let ?xs = "srt (\<lambda>a b. sint (o_ordinal a) < sint (o_ordinal b)) (collectReady pods)"
  have "sorted (map (\<lambda>a. sint (o_ordinal a)) ?xs)"
    by (rule sorted_key_srt)
  moreover have "map (\<lambda>a. sint (o_ordinal a)) ?xs = map (ordinalOf \<circ> o_name) ?xs"
    by (auto simp: collectReady_filter eligible_ordinal)
  ultimately show ?thesis
    by (simp add: computeMembers_def)
qed

lemma distinct_computeMembers:
  "distinct (map Name pods) \<Longrightarrow> distinct (computeMembers srt pods)"
  using mset_eq_imp_distinct_iff [OF mset_computeMembers] by (simp add: distinct_map_filter)

lemma computeMembers_unique:
  assumes "inj_on ordinalOf (Name ` {p \<in> set pods. eligible p})"
    and "mset ms = mset (map Name (filter eligible pods))" and "sorted (map ordinalOf ms)"
  shows "computeMembers srt pods = ms"
proof -
  have eq: "mset (computeMembers srt pods) = mset ms"
    by (simp add: assms(2) mset_computeMembers)
  then have "mset (map ordinalOf (computeMembers srt pods)) = mset (map ordinalOf ms)"
    by simp
  then have "map ordinalOf (computeMembers srt pods) = map ordinalOf ms"
    using sorted_computeMembers [of pods] assms(3) by (metis properties_for_sort)
  moreover have "set ms = Name ` {p \<in> set pods. eligible p}"
    using mset_eq_setD [OF assms(2)] by simp
  ultimately show ?thesis
    using assms(1) by (simp add: inj_on_map_eq_map set_computeMembers)
qed

text \<open>Excluding a set of pods from the list removes their names and keeps the order of the rest.\<close>

lemma computeMembers_exclude:
  assumes inj: "inj_on ordinalOf (Name ` {p \<in> set pods. eligible p})"
    and f: "\<And>p. p \<in> set pods \<Longrightarrow> Name (f p) = Name p"
    and e: "\<And>p. p \<in> set pods \<Longrightarrow> eligible (f p) \<longleftrightarrow> eligible p \<and> Name p \<notin> D"
  shows "computeMembers srt (map f pods) = filter (\<lambda>n. n \<notin> D) (computeMembers srt pods)"
proof (rule computeMembers_unique)
  have names: "map Name (filter eligible (map f pods))
    = filter (\<lambda>n. n \<notin> D) (map Name (filter eligible pods))"
    using f e by (induction pods) auto
  show "mset (filter (\<lambda>n. n \<notin> D) (computeMembers srt pods))
    = mset (map Name (filter eligible (map f pods)))"
    unfolding names by (simp only: mset_filter mset_computeMembers)
  show "sorted (map ordinalOf (filter (\<lambda>n. n \<notin> D) (computeMembers srt pods)))"
    using sorted_computeMembers by (simp add: sorted_filter)
  show "inj_on ordinalOf (Name ` {p \<in> set (map f pods). eligible p})"
    by (rule inj_on_subset [OF inj]) (auto simp: f e)
qed

end

interpretation ms: member_sort insertionSort
  by unfold_locales

section \<open>Properties\<close>

text \<open>
  C11: \<open>computeMembers\<close> returns exactly the names of the pods that are not being deleted, carry no
  drain annotation, run, are Ready and have an ordinal, each once for pods with distinct names,
  and orders them by ordinal, whatever \<open>sort.Slice\<close> does with ties.
\<close>

theorem computeMembers_correct:
  assumes "member_sort srt" and "distinct (map Name pods)"
  shows "set (computeMembers srt pods) = Name ` {p \<in> set pods. eligible p}
    \<and> distinct (computeMembers srt pods)
    \<and> sorted (map ordinalOf (computeMembers srt pods))"
proof -
  from assms(1) have "set (computeMembers srt pods) = Name ` {p \<in> set pods. eligible p}"
    by (rule member_sort.set_computeMembers)
  moreover from assms have "distinct (computeMembers srt pods)"
    by (rule member_sort.distinct_computeMembers)
  moreover from assms(1) have "sorted (map ordinalOf (computeMembers srt pods))"
    by (rule member_sort.sorted_computeMembers)
  ultimately show ?thesis by blast
qed

definition examplePod :: "string \<Rightarrow> strmap \<Rightarrow> Pod" where
  "examplePod name ann = ObjectMeta.extend ((newMeta name ''default'')\<lparr>Annotations := ann\<rparr>)
     (Pod.fields ''Running'' [\<lparr>pc_Type = ''Ready'', pc_Status = ''True''\<rparr>])"

lemma examplePod_sel [simp]:
  "Name (examplePod n a) = n" "Namespace (examplePod n a) = ''default''"
  "Annotations (examplePod n a) = a" "DeletionTimestamp (examplePod n a) = None"
  "Phase (examplePod n a) = ''Running''" "isPodReady (examplePod n a)"
  by (simp_all add: examplePod_def newMeta_def ObjectMeta.extend_def Pod.fields_def isPodReady_def)

theorem computeMembers_correct_witness:
  "let pods = [examplePod ''c-10'' [], examplePod ''c-9'' [], examplePod ''c-1'' [(drainAnnotation, ''5'')]]
   in set (computeMembers insertionSort pods) = Name ` {p \<in> set pods. eligible p}
     \<and> distinct (computeMembers insertionSort pods)
     \<and> sorted (map ordinalOf (computeMembers insertionSort pods))"
  unfolding Let_def
  by (rule computeMembers_correct [OF ms.member_sort_axioms]) simp

text \<open>
  The ordinal read from the name the operator and the StatefulSet controller give pod number
  \<open>n\<close> (\<open>fmt.Sprintf("%s-%d", name, n)\<close>) is \<open>n\<close>, whatever the set's name is.
\<close>

lemma podOrdinal_roundtrip:
  "n < 2 ^ 63 \<Longrightarrow> podOrdinal (name @ ''-'' @ fmtNat n) = Some (word_of_nat n) \<and> ordinalOf (name @ ''-'' @ fmtNat n) = int n"
proof -
  assume "n < 2 ^ 63"
  then have n: "int n < 2 ^ 63"
    by (metis of_nat_less_iff of_nat_numeral of_nat_power)
  then have "podOrdinal (name @ ''-'' @ fmtNat n) = Some (word_of_nat n)"
    by (rule podOrdinal_podName)
  then show ?thesis
    using sint64_of_nat [OF n] by (simp add: ordinalOf_def)
qed

text \<open>
  The two comparison loops decide equality: \<open>MembersEqual\<close> holds exactly for equal member
  lists (order included) and \<open>Equal\<close> exactly for equal rings.
\<close>

lemma ring_comparisons_decide_equality:
  "(MembersEqual r s \<longleftrightarrow> Members r = Members s) \<and> (ringEqual r s \<longleftrightarrow> r = s)"
  by simp

end
