(* ===== verification/Kube.thy ===== *)
theory Kube
  imports Ring
begin

text \<open>
  The Kubernetes client libraries as the operator sees them. Nothing here is code of the
  repository: every field is a parameter of the reconciler's functions.

  A value \<open>K :: 'w kube\<close> holds the pure helpers of \<open>controllerutil\<close> and \<open>resource\<close>, and the
  requests of the client, recorder and clock as functions on a world \<open>'w\<close> (the cluster, the
  informer caches, the clock, other clients). A request returns Go's \<open>(value, error)\<close> as a sum
  and the world after it; an object that Go passes by pointer for the client to overwrite is
  returned. Nothing is assumed of the world: a request may fail, may see stale data and may be
  preceded by changes of others. What a lemma relies on it states as a hypothesis, or as one of
  the locales of the theory \<open>Cluster\<close>.

  \<open>controllerutil.CreateOrUpdate\<close> takes the object with its key and the mutate function.
\<close>

datatype OperationResult = OperationResultNone | OperationResultCreated | OperationResultUpdated

fun opString :: "OperationResult \<Rightarrow> string" where
  "opString OperationResultNone = ''unchanged''"
| "opString OperationResultCreated = ''created''"
| "opString OperationResultUpdated = ''updated''"

record Event =
  ev_Type :: string
  ev_Reason :: string
  ev_Message :: string

type_synonym ('w, 'a) request = "'w \<Rightarrow> (goerr + 'a) \<times> 'w"
type_synonym 'a mutate = "'a \<Rightarrow> goerr + 'a"
type_synonym ('w, 'a) applying = "'a \<Rightarrow> 'a mutate \<Rightarrow> ('w, OperationResult \<times> 'a) request"

record lib =
  SetControllerReference :: "DistributedCache \<Rightarrow> ObjectMeta \<Rightarrow> goerr + OwnerReference list"
  AddFinalizer :: "string list \<Rightarrow> string \<Rightarrow> string list \<times> bool"
  RemoveFinalizer :: "string list \<Rightarrow> string \<Rightarrow> string list"
  ContainsFinalizer :: "string list \<Rightarrow> string \<Rightarrow> bool"
  QuantityValue :: "Quantity \<Rightarrow> int64"
  QuantitySet :: "Quantity \<Rightarrow> int64 \<Rightarrow> Quantity"
  NewQuantity :: "int64 \<Rightarrow> Quantity"
  SortSlice :: sort_ordered

record 'w kube = lib +
  Get_DC :: "NamespacedName \<Rightarrow> ('w, DistributedCache) request"
  Update_DC :: "DistributedCache \<Rightarrow> ('w, DistributedCache) request"
  StatusUpdate_DC :: "DistributedCache \<Rightarrow> ('w, DistributedCache) request"
  Get_STS :: "NamespacedName \<Rightarrow> ('w, StatefulSet) request"
  Get_CM :: "NamespacedName \<Rightarrow> ('w, ConfigMap) request"
  Get_NS :: "string \<Rightarrow> ('w, NamespaceObj) request"
  Delete_NS :: "NamespaceObj \<Rightarrow> ('w, unit) request"
  List_Pods :: "string \<Rightarrow> strmap \<Rightarrow> ('w, Pod list) request"
  Update_Pod :: "Pod \<Rightarrow> ('w, Pod) request"
  CreateOrUpdate_NS :: "('w, NamespaceObj) applying"
  CreateOrUpdate_RQ :: "('w, ResourceQuota) applying"
  CreateOrUpdate_NP :: "('w, NetworkPolicy) applying"
  CreateOrUpdate_SVC :: "('w, Service) applying"
  CreateOrUpdate_STS :: "('w, StatefulSet) applying"
  CreateOrUpdate_CM :: "('w, ConfigMap) applying"
  SetStatusCondition :: "Condition list \<Rightarrow> Condition \<Rightarrow> 'w \<Rightarrow> Condition list \<times> 'w"
  Eventf :: "DistributedCache \<Rightarrow> Event \<Rightarrow> 'w \<Rightarrow> 'w"
  Now :: "'w \<Rightarrow> Time \<times> 'w"

definition normalEvent :: "string \<Rightarrow> string \<Rightarrow> Event" where
  "normalEvent reason msg = \<lparr>ev_Type = ''Normal'', ev_Reason = reason, ev_Message = msg\<rparr>"

text \<open>The \<open>%v\<close> form of a string slice, and \<open>String()\<close> of a duration of whole seconds.\<close>

fun joinSpace :: "string list \<Rightarrow> string" where
  "joinSpace [] = ''''"
| "joinSpace [x] = x"
| "joinSpace (x # xs) = x @ '' '' @ joinSpace xs"

definition fmtSlice :: "string list \<Rightarrow> string" where
  "fmtSlice xs = ''['' @ joinSpace xs @ '']''"

definition fmtSeconds :: "int \<Rightarrow> string" where
  "fmtSeconds n =
     (let u = nat \<bar>n\<bar>;
          sgn = (if n < 0 then ''-'' else '''');
          s = fmtNat (u mod 60) @ ''s'';
          m = fmtNat (u div 60 mod 60) @ ''m'';
          h = fmtNat (u div 3600) @ ''h''
      in if u < 60 then sgn @ s else if u < 3600 then sgn @ m @ s else sgn @ h @ m @ s)"

end
