(* ===== verification/Cell.thy ===== *)
theory Cell
  imports Kube
begin

text \<open>
  The part of \<open>distributedcache_controller.go\<close> that maintains a cell and the Service: the
  constants, \<open>targetNamespace\<close> and the owner reference rule, and \<open>reconcileCell\<close> with its
  Namespace, ResourceQuota and NetworkPolicy, and \<open>reconcileService\<close>. Each mutate closure is a
  definition of its own (\<open>mutateX\<close>), so that what is written can be stated apart from how the
  API server answers.
\<close>

section \<open>Constants and names\<close>

definition labelName :: string where "labelName = ''app.kubernetes.io/name''"
definition labelInstance :: string where "labelInstance = ''app.kubernetes.io/instance''"
definition labelManagedBy :: string where "labelManagedBy = ''app.kubernetes.io/managed-by''"
definition labelComponent :: string where "labelComponent = ''app.kubernetes.io/component''"
definition appName :: string where "appName = ''distributed-cache''"
definition managedByValue :: string where "managedByValue = ''distributed-cache-operator''"
definition cachePort :: int32 where "cachePort = 8080"
definition cellNamespacePrefix :: string where "cellNamespacePrefix = ''cache-''"
definition drainFinalizer :: string where "drainFinalizer = ''cache.sk1.services.com/drain''"
definition cellOfLabel :: string where "cellOfLabel = ''cache.sk1.services.com/cell-of''"

text \<open>The condition \<open>cache.Spec.Tenant != nil && cache.Spec.Tenant.Isolate\<close>.\<close>

definition isolated :: "DistributedCache \<Rightarrow> bool" where
  "isolated cache = (case Tenant (Spec cache) of None \<Rightarrow> False | Some t \<Rightarrow> Isolate t)"

definition targetNamespace :: "DistributedCache \<Rightarrow> string" where
  "targetNamespace cache = (if isolated cache then cellNamespacePrefix @ Name cache else Namespace cache)"

definition isCrossNamespaceChild :: "DistributedCache \<Rightarrow> bool" where
  "isCrossNamespaceChild cache = (targetNamespace cache \<noteq> Namespace cache)"

definition setControllerReferenceIfSameNamespace ::
  "'w kube \<Rightarrow> DistributedCache \<Rightarrow> 'a ObjectMeta_scheme \<Rightarrow> goerr + 'a ObjectMeta_scheme" where
  "setControllerReferenceIfSameNamespace K cache child =
     (if isCrossNamespaceChild cache then Inr child
      else case SetControllerReference K cache (ObjectMeta.truncate child) of
             Inl e \<Rightarrow> Inl e
           | Inr refs \<Rightarrow> Inr (child\<lparr>OwnerReferences := refs\<rparr>))"

definition podLabels :: "DistributedCache \<Rightarrow> strmap" where
  "podLabels cache = [(labelName, appName), (labelInstance, Name cache)]"

text \<open>The four labels every mutate closure sets, with its component.\<close>

definition setLabels :: "DistributedCache \<Rightarrow> string \<Rightarrow> strmap \<Rightarrow> strmap" where
  "setLabels cache component ls =
     mapPut labelComponent component (mapPut labelManagedBy managedByValue
       (mapPut labelInstance (Name cache) (mapPut labelName appName ls)))"

section \<open>The cell\<close>

definition mutateNamespace :: "DistributedCache \<Rightarrow> NamespaceObj mutate" where
  "mutateNamespace cache ns =
     Inr (ns\<lparr>Labels := mapPut cellOfLabel (Namespace cache @ ''.'' @ Name cache)
                        (setLabels cache ''cell'' (Labels ns))\<rparr>)"

definition reconcileCellNamespace :: "'w kube \<Rightarrow> DistributedCache \<Rightarrow> 'w \<Rightarrow> goerr option \<times> 'w" where
  "reconcileCellNamespace K cache w =
     (case CreateOrUpdate_NS K (newMeta (targetNamespace cache) '''') (mutateNamespace cache) w of
        (Inl e, w) \<Rightarrow> (Some (Wrapped ''CreateOrUpdate Namespace'' e), w)
      | (Inr (op, ns), w) \<Rightarrow>
          (None,
           if op \<noteq> OperationResultNone
           then Eventf K cache (normalEvent ''CellNamespaceReconciled''
                  (''Cell Namespace '' @ Name ns @ '' '' @ opString op)) w
           else w))"

definition resourceQuantity :: "'w kube \<Rightarrow> int64 \<Rightarrow> Quantity" where
  "resourceQuantity K n = NewQuantity K n"

text \<open>\<open>*cache.Spec.Replicas\<close>, or 0 for a nil pointer: the default three functions use.\<close>

definition specReplicas :: "DistributedCache \<Rightarrow> int32" where
  "specReplicas cache = (case Replicas (Spec cache) of None \<Rightarrow> 0 | Some r \<Rightarrow> r)"

text \<open>Go's \<open>/\<close> on \<open>int64\<close> truncates towards zero.\<close>

definition goDiv :: "int64 \<Rightarrow> int64 \<Rightarrow> int64" where
  "goDiv a b = word_of_int (sgn (sint a) * sgn (sint b) * (\<bar>sint a\<bar> div \<bar>sint b\<bar>))"

definition quotaMemory :: "'w kube \<Rightarrow> DistributedCache \<Rightarrow> Quantity" where
  "quotaMemory K cache =
     (let replicas = specReplicas cache;
          mem = MemoryPerPod (Spec cache);
          totalMem = QuantitySet K mem (QuantityValue K mem * word_of_int (sint replicas));
          headroom = goDiv (QuantityValue K totalMem) 4
      in QuantitySet K totalMem (QuantityValue K totalMem + headroom))"

definition podCap :: "DistributedCache \<Rightarrow> int32" where
  "podCap cache = specReplicas cache + 1"

definition mutateResourceQuota :: "'w kube \<Rightarrow> DistributedCache \<Rightarrow> ResourceQuota mutate" where
  "mutateResourceQuota K cache quota =
     setControllerReferenceIfSameNamespace K cache
       (quota\<lparr>Labels := setLabels cache ''cell'' (Labels quota),
              Hard := [(''pods'', resourceQuantity K (word_of_int (sint (podCap cache)))),
                       (''limits.memory'', quotaMemory K cache),
                       (''requests.memory'', quotaMemory K cache)]\<rparr>)"

definition reconcileResourceQuota :: "'w kube \<Rightarrow> DistributedCache \<Rightarrow> 'w \<Rightarrow> goerr option \<times> 'w" where
  "reconcileResourceQuota K cache w =
     (let quota = ObjectMeta.extend (newMeta ''cell-quota'' (targetNamespace cache)) (ResourceQuota.fields [])
      in case CreateOrUpdate_RQ K quota (mutateResourceQuota K cache) w of
        (Inl e, w) \<Rightarrow> (Some (Wrapped ''CreateOrUpdate ResourceQuota'' e), w)
      | (Inr (op, quota), w) \<Rightarrow>
          (None,
           if op \<noteq> OperationResultNone
           then Eventf K cache (normalEvent ''QuotaReconciled''
                  (''ResourceQuota '' @ Namespace quota @ ''/'' @ Name quota @ '' '' @ opString op
                   @ '' (memory='' @ quotaMemory K cache @ '')'')) w
           else w))"

text \<open>An ingress rule is the list of its peers, a peer its optional pod selector.\<close>

definition cellPolicy :: NetworkPolicySpec where
  "cellPolicy = \<lparr>np_PodSelector = [], np_PolicyTypes = [''Ingress''], np_Ingress = [[Some []]]\<rparr>"

definition emptyPolicy :: NetworkPolicySpec where
  "emptyPolicy = \<lparr>np_PodSelector = [], np_PolicyTypes = [], np_Ingress = []\<rparr>"

definition mutateNetworkPolicy :: "'w kube \<Rightarrow> DistributedCache \<Rightarrow> NetworkPolicy mutate" where
  "mutateNetworkPolicy K cache netpol =
     setControllerReferenceIfSameNamespace K cache
       (netpol\<lparr>Labels := setLabels cache ''cell'' (Labels netpol), np_Spec := cellPolicy\<rparr>)"

definition reconcileNetworkPolicy :: "'w kube \<Rightarrow> DistributedCache \<Rightarrow> 'w \<Rightarrow> goerr option \<times> 'w" where
  "reconcileNetworkPolicy K cache w =
     (let netpol = ObjectMeta.extend (newMeta ''cell-isolation'' (targetNamespace cache))
                     (NetworkPolicy.fields emptyPolicy)
      in case CreateOrUpdate_NP K netpol (mutateNetworkPolicy K cache) w of
        (Inl e, w) \<Rightarrow> (Some (Wrapped ''CreateOrUpdate NetworkPolicy'' e), w)
      | (Inr (op, netpol), w) \<Rightarrow>
          (None,
           if op \<noteq> OperationResultNone
           then Eventf K cache (normalEvent ''NetworkPolicyReconciled''
                  (''NetworkPolicy '' @ Namespace netpol @ ''/'' @ Name netpol @ '' '' @ opString op)) w
           else w))"

definition reconcileCell :: "'w kube \<Rightarrow> DistributedCache \<Rightarrow> 'w \<Rightarrow> goerr option \<times> 'w" where
  "reconcileCell K cache w =
     (if \<not> isolated cache then (None, w)
      else case reconcileCellNamespace K cache w of
        (Some e, w) \<Rightarrow> (Some (Wrapped ''namespace'' e), w)
      | (None, w) \<Rightarrow>
          (case reconcileResourceQuota K cache w of
             (Some e, w) \<Rightarrow> (Some (Wrapped ''resourcequota'' e), w)
           | (None, w) \<Rightarrow>
               (case reconcileNetworkPolicy K cache w of
                  (Some e, w) \<Rightarrow> (Some (Wrapped ''networkpolicy'' e), w)
                | (None, w) \<Rightarrow> (None, w))))"

section \<open>The Service\<close>

definition httpPort :: ServicePort where
  "httpPort = \<lparr>sp_Name = ''http'', sp_Port = cachePort, sp_TargetPort = cachePort, sp_Protocol = ''TCP''\<rparr>"

definition mutateService :: "'w kube \<Rightarrow> DistributedCache \<Rightarrow> Service mutate" where
  "mutateService K cache svc =
     setControllerReferenceIfSameNamespace K cache
       (svc\<lparr>Labels := setLabels cache ''cache'' (Labels svc),
            svc_ClusterIP := ''None'',
            svc_Selector := podLabels cache,
            svc_Ports := [httpPort],
            svc_PublishNotReadyAddresses := False\<rparr>)"

definition newService :: "DistributedCache \<Rightarrow> Service" where
  "newService cache = ObjectMeta.extend (newMeta (Name cache) (targetNamespace cache))
     (Service.fields '''' [] [] False)"

definition reconcileService :: "'w kube \<Rightarrow> DistributedCache \<Rightarrow> 'w \<Rightarrow> goerr option \<times> 'w" where
  "reconcileService K cache w =
     (case CreateOrUpdate_SVC K (newService cache) (mutateService K cache) w of
        (Inl e, w) \<Rightarrow> (Some (Wrapped ''CreateOrUpdate Service'' e), w)
      | (Inr (op, svc), w) \<Rightarrow>
          (None,
           if op \<noteq> OperationResultNone
           then Eventf K cache (normalEvent ''ServiceReconciled''
                  (''Headless Service '' @ Namespace svc @ ''/'' @ Name svc @ '' '' @ opString op)) w
           else w))"

end
