(* ===== verification/Cluster.thy ===== *)
theory Cluster
  imports Kube
begin

text \<open>
  What the reconciler relies on of the API server, as a locale over the requests of \<open>Kube\<close>:
  \<open>view w\<close> is what the cluster stores. Reads answer from it, a successful \<open>CreateOrUpdate\<close>
  stores the object the mutate function makes of the stored one, and a failed write either had
  no effect or had its full effect with the reply lost. Other clients write between passes, not
  between the requests of one pass.

  The laws are discharged for an executable in-memory API server whose requests fail as a list
  of faults says (\<open>memKube\<close>); the concrete examples run on it.
\<close>

section \<open>The contract\<close>

definition keyOf :: "'a ObjectMeta_scheme \<Rightarrow> NamespacedName" where
  "keyOf obj = \<lparr>nn_Namespace = Namespace obj, nn_Name = Name obj\<rparr>"

definition matchLabels :: "strmap \<Rightarrow> strmap \<Rightarrow> bool" where
  "matchLabels sel ls = list_all (\<lambda>(k, v). mapGet ls k = Some v) sel"

record cluster =
  v_dc :: "NamespacedName \<Rightarrow> DistributedCache option"
  v_ns :: "string \<Rightarrow> NamespaceObj option"
  v_sts :: "NamespacedName \<Rightarrow> StatefulSet option"
  v_cm :: "NamespacedName \<Rightarrow> ConfigMap option"
  v_pods :: "Pod list"
  v_rq :: "NamespacedName \<Rightarrow> ResourceQuota option"
  v_np :: "NamespacedName \<Rightarrow> NetworkPolicy option"
  v_svc :: "NamespacedName \<Rightarrow> Service option"

definition podsIn :: "cluster \<Rightarrow> string \<Rightarrow> strmap \<Rightarrow> Pod list" where
  "podsIn v ns ls = filter (\<lambda>p. Namespace p = ns \<and> matchLabels ls (Labels p)) (v_pods v)"

definition putPod :: "Pod \<Rightarrow> cluster \<Rightarrow> cluster" where
  "putPod p v = v\<lparr>v_pods := map (\<lambda>q. if keyOf q = keyOf p then p else q) (v_pods v)\<rparr>"

text \<open>The object a mutate function starts from: the stored one, or the new one.\<close>

definition baseObj :: "'a option \<Rightarrow> 'a \<Rightarrow> 'a" where
  "baseObj stored fresh = (case stored of None \<Rightarrow> fresh | Some b \<Rightarrow> b)"

text \<open>
  Two clusters with the same workloads: they agree on StatefulSets, ConfigMaps and pods.
\<close>

definition sameWork :: "cluster \<Rightarrow> cluster \<Rightarrow> bool" where
  "sameWork v v' \<longleftrightarrow> v_sts v' = v_sts v \<and> v_cm v' = v_cm v \<and> v_pods v' = v_pods v"

lemma sameWork_refl [simp]: "sameWork v v"
  by (simp add: sameWork_def)

lemma sameWork_trans: "sameWork u v \<Longrightarrow> sameWork v w \<Longrightarrow> sameWork u w"
  by (simp add: sameWork_def)

lemma sameWork_dc [simp]: "sameWork v (v\<lparr>v_dc := f\<rparr>)" "sameWork v (v\<lparr>v_ns := g\<rparr>)"
  "sameWork v (v\<lparr>v_rq := q\<rparr>)" "sameWork v (v\<lparr>v_np := p\<rparr>)" "sameWork v (v\<lparr>v_svc := s\<rparr>)"
  by (simp_all add: sameWork_def)

locale cluster_api =
  fixes K :: "'w kube" and view :: "'w \<Rightarrow> cluster"
  assumes get_dc: "Get_DC K k w = (Inr c, w') \<Longrightarrow> view w' = view w \<and> v_dc (view w) k = Some c"
    and get_dc_err: "Get_DC K k w = (Inl e, w') \<Longrightarrow>
      view w' = view w \<and> (IsNotFound e \<longrightarrow> v_dc (view w) k = None)"
    and get_sts: "Get_STS K k w = (Inr s, w') \<Longrightarrow> view w' = view w \<and> v_sts (view w) k = Some s"
    and get_sts_err: "Get_STS K k w = (Inl e, w') \<Longrightarrow>
      view w' = view w \<and> (IsNotFound e \<longrightarrow> v_sts (view w) k = None)"
    and get_cm: "Get_CM K k w = (Inr m, w') \<Longrightarrow> view w' = view w \<and> v_cm (view w) k = Some m"
    and get_cm_err: "Get_CM K k w = (Inl e, w') \<Longrightarrow>
      view w' = view w \<and> (IsNotFound e \<longrightarrow> v_cm (view w) k = None)"
    and get_ns: "Get_NS K nm w = (Inr n, w') \<Longrightarrow> view w' = view w \<and> v_ns (view w) nm = Some n"
    and get_ns_err: "Get_NS K nm w = (Inl e, w') \<Longrightarrow>
      view w' = view w \<and> (IsNotFound e \<longrightarrow> v_ns (view w) nm = None)"
    and list_pods: "List_Pods K ns ls w = (Inr ps, w') \<Longrightarrow> view w' = view w \<and> ps = podsIn (view w) ns ls"
    and list_pods_err: "List_Pods K ns ls w = (Inl e, w') \<Longrightarrow> view w' = view w"
    and now_view: "Now K w = (t, w') \<Longrightarrow> view w' = view w"
    and event_view: "view (Eventf K c ev w) = view w"
    and condition_view: "SetStatusCondition K cs cond w = (cs', w') \<Longrightarrow> view w' = view w"
    and update_dc: "Update_DC K c w = (r, w') \<Longrightarrow> \<exists>f. view w' = (view w)\<lparr>v_dc := f\<rparr>"
    and status_dc: "StatusUpdate_DC K c w = (r, w') \<Longrightarrow> \<exists>f. view w' = (view w)\<lparr>v_dc := f\<rparr>"
    and delete_ns: "Delete_NS K n w = (rd, w') \<Longrightarrow> \<exists>f. view w' = (view w)\<lparr>v_ns := f\<rparr>"
    and apply_ns: "CreateOrUpdate_NS K n fn w = (rn, w') \<Longrightarrow>
      (\<exists>e. rn = Inl e \<and> view w' = view w) \<or>
      (\<exists>d c. fn (baseObj (v_ns (view w) (Name n)) n) = Inr d \<and> Labels c = Labels d
         \<and> view w' = (view w)\<lparr>v_ns := (v_ns (view w))(Name n \<mapsto> c)\<rparr>)"
    and apply_rq: "CreateOrUpdate_RQ K q fq w = (rq, w') \<Longrightarrow>
      (\<exists>e. rq = Inl e \<and> view w' = view w) \<or>
      (\<exists>d c. fq (baseObj (v_rq (view w) (keyOf q)) q) = Inr d \<and> Hard c = Hard d
         \<and> view w' = (view w)\<lparr>v_rq := (v_rq (view w))(keyOf q \<mapsto> c)\<rparr>)"
    and apply_np: "CreateOrUpdate_NP K np fp w = (rp, w') \<Longrightarrow>
      (\<exists>e. rp = Inl e \<and> view w' = view w) \<or>
      (\<exists>d c. fp (baseObj (v_np (view w) (keyOf np)) np) = Inr d \<and> np_Spec c = np_Spec d
         \<and> view w' = (view w)\<lparr>v_np := (v_np (view w))(keyOf np \<mapsto> c)\<rparr>)"
    and apply_svc: "CreateOrUpdate_SVC K sv fs w = (rs, w') \<Longrightarrow>
      (\<exists>e. rs = Inl e \<and> view w' = view w) \<or>
      (\<exists>d c. fs (baseObj (v_svc (view w) (keyOf sv)) sv) = Inr d \<and> svc_Selector c = svc_Selector d
         \<and> svc_ClusterIP c = svc_ClusterIP d \<and> svc_Ports c = svc_Ports d
         \<and> view w' = (view w)\<lparr>v_svc := (v_svc (view w))(keyOf sv \<mapsto> c)\<rparr>)"
    and update_pod: "Update_Pod K p w = (Inr p', w') \<Longrightarrow> view w' = putPod p (view w)"
    and update_pod_err: "Update_Pod K p w = (Inl e, w') \<Longrightarrow>
      view w' = view w \<or> view w' = putPod p (view w)"
    and apply_sts: "CreateOrUpdate_STS K s ft w = (rt, w') \<Longrightarrow>
      (\<exists>e. rt = Inl e \<and> view w' = view w) \<or>
      (\<exists>d c. ft (baseObj (v_sts (view w) (keyOf s)) s) = Inr d
         \<and> (sts_Replicas d \<noteq> None \<longrightarrow> sts_Replicas c = sts_Replicas d)
         \<and> view w' = (view w)\<lparr>v_sts := (v_sts (view w))(keyOf s \<mapsto> c)\<rparr>)"
    and apply_cm: "CreateOrUpdate_CM K m fm w = (rm, w') \<Longrightarrow>
      (\<exists>e. rm = Inl e \<and> view w' = view w) \<or>
      (\<exists>d c. fm (baseObj (v_cm (view w) (keyOf m)) m) = Inr d \<and> Data c = Data d
         \<and> view w' = (view w)\<lparr>v_cm := (v_cm (view w))(keyOf m \<mapsto> c)\<rparr>)"
    and delete_ns_gone: "Delete_NS K n w = (Inl e, w') \<Longrightarrow> IsNotFound e \<Longrightarrow> v_ns (view w) nm \<noteq> Some n"

section \<open>An in-memory API server\<close>

datatype fault = NoFault | Refused | LostReply

record memState =
  m_view :: cluster
  m_clock :: Time
  m_events :: "Event list"
  m_faults :: "fault list"

definition takeFault :: "memState \<Rightarrow> fault \<times> memState" where
  "takeFault w = (case m_faults w of [] \<Rightarrow> (NoFault, w) | f # fs \<Rightarrow> (f, w\<lparr>m_faults := fs\<rparr>))"

definition timeoutErr :: goerr where
  "timeoutErr = OtherErr ''timeout''"

definition memRead :: "(memState \<Rightarrow> 'a option) \<Rightarrow> (memState, 'a) request" where
  "memRead get w =
     (case takeFault w of
        (f, w) \<Rightarrow>
          if f \<noteq> NoFault then (Inl timeoutErr, w)
          else case get w of None \<Rightarrow> (Inl (NotFoundErr ''not found''), w) | Some x \<Rightarrow> (Inr x, w))"

definition memWrite :: "(memState \<Rightarrow> memState) \<Rightarrow> 'a \<Rightarrow> (memState, 'a) request" where
  "memWrite put x w =
     (case takeFault w of
        (f, w) \<Rightarrow>
          (case f of
             NoFault \<Rightarrow> (Inr x, put w)
           | Refused \<Rightarrow> (Inl timeoutErr, w)
           | LostReply \<Rightarrow> (Inl timeoutErr, put w)))"

definition memApply ::
  "(memState \<Rightarrow> 'a ObjectMeta_scheme option) \<Rightarrow> ('a ObjectMeta_scheme \<Rightarrow> memState \<Rightarrow> memState) \<Rightarrow>
   (memState, 'a ObjectMeta_scheme) applying" where
  "memApply get put obj f w =
     (case f (baseObj (get w) obj) of
        Inl e \<Rightarrow> (Inl e, w)
      | Inr d \<Rightarrow>
          (case get w of
             None \<Rightarrow>
               (let d = d\<lparr>CreationTimestamp := Some (m_clock w)\<rparr>
                in memWrite (put d) (OperationResultCreated, d) w)
           | Some b \<Rightarrow>
               memWrite (put d) (if d = b then OperationResultNone else OperationResultUpdated, d) w))"

definition memSetCondition ::
  "Condition list \<Rightarrow> Condition \<Rightarrow> memState \<Rightarrow> Condition list \<times> memState" where
  "memSetCondition cs c w =
     (filter (\<lambda>d. c_Type d \<noteq> c_Type c) cs @
        [c\<lparr>c_LastTransitionTime :=
             (case find (\<lambda>d. c_Type d = c_Type c \<and> c_Status d = c_Status c) cs of
                None \<Rightarrow> Some (m_clock w) | Some d \<Rightarrow> c_LastTransitionTime d)\<rparr>], w)"

definition memUpdateView :: "(cluster \<Rightarrow> cluster) \<Rightarrow> memState \<Rightarrow> memState" where
  "memUpdateView g w = w\<lparr>m_view := g (m_view w)\<rparr>"

definition decimalValue :: "Quantity \<Rightarrow> int64" where
  "decimalValue q = (case ParseInt q of None \<Rightarrow> 0 | Some v \<Rightarrow> v)"

definition memKube :: "memState kube" where
  "memKube =
    \<lparr>SetControllerReference = (\<lambda>c m.
       if list_ex (\<lambda>r. or_Controller r \<and> or_UID r \<noteq> UID c) (OwnerReferences m)
       then Inl (OtherErr ''already owned'')
       else Inr (\<lparr>or_UID = UID c, or_Controller = True\<rparr> # filter (\<lambda>r. or_UID r \<noteq> UID c) (OwnerReferences m))),
     AddFinalizer = (\<lambda>fs f. if f \<in> set fs then (fs, False) else (fs @ [f], True)),
     RemoveFinalizer = (\<lambda>fs f. filter (\<lambda>g. g \<noteq> f) fs),
     ContainsFinalizer = (\<lambda>fs f. f \<in> set fs),
     QuantityValue = decimalValue,
     QuantitySet = (\<lambda>q v. FormatInt v),
     NewQuantity = FormatInt,
     SortSlice = insertionSort,
     Get_DC = (\<lambda>k. memRead (\<lambda>w. v_dc (m_view w) k)),
     Update_DC = (\<lambda>c. memWrite (memUpdateView (\<lambda>v. v\<lparr>v_dc := (v_dc v)(keyOf c \<mapsto> c)\<rparr>)) c),
     StatusUpdate_DC = (\<lambda>c. memWrite (memUpdateView (\<lambda>v. v\<lparr>v_dc := (v_dc v)(keyOf c \<mapsto> c)\<rparr>)) c),
     Get_STS = (\<lambda>k. memRead (\<lambda>w. v_sts (m_view w) k)),
     Get_CM = (\<lambda>k. memRead (\<lambda>w. v_cm (m_view w) k)),
     Get_NS = (\<lambda>n. memRead (\<lambda>w. v_ns (m_view w) n)),
     Delete_NS = (\<lambda>n w. memWrite (memUpdateView (\<lambda>v. v\<lparr>v_ns := (v_ns v)(Name n \<mapsto>
       n\<lparr>DeletionTimestamp := Some (m_clock w)\<rparr>)\<rparr>)) () w),
     List_Pods = (\<lambda>ns ls. memRead (\<lambda>w. Some (podsIn (m_view w) ns ls))),
     Update_Pod = (\<lambda>p. memWrite (memUpdateView (putPod p)) p),
     CreateOrUpdate_NS = (\<lambda>n. memApply (\<lambda>w. v_ns (m_view w) (Name n))
       (\<lambda>d. memUpdateView (\<lambda>v. v\<lparr>v_ns := (v_ns v)(Name n \<mapsto> d)\<rparr>)) n),
     CreateOrUpdate_RQ = (\<lambda>q. memApply (\<lambda>w. v_rq (m_view w) (keyOf q))
       (\<lambda>d. memUpdateView (\<lambda>v. v\<lparr>v_rq := (v_rq v)(keyOf q \<mapsto> d)\<rparr>)) q),
     CreateOrUpdate_NP = (\<lambda>q. memApply (\<lambda>w. v_np (m_view w) (keyOf q))
       (\<lambda>d. memUpdateView (\<lambda>v. v\<lparr>v_np := (v_np v)(keyOf q \<mapsto> d)\<rparr>)) q),
     CreateOrUpdate_SVC = (\<lambda>q. memApply (\<lambda>w. v_svc (m_view w) (keyOf q))
       (\<lambda>d. memUpdateView (\<lambda>v. v\<lparr>v_svc := (v_svc v)(keyOf q \<mapsto> d)\<rparr>)) q),
     CreateOrUpdate_STS = (\<lambda>q. memApply (\<lambda>w. v_sts (m_view w) (keyOf q))
       (\<lambda>d. memUpdateView (\<lambda>v. v\<lparr>v_sts := (v_sts v)(keyOf q \<mapsto> d)\<rparr>)) q),
     CreateOrUpdate_CM = (\<lambda>q. memApply (\<lambda>w. v_cm (m_view w) (keyOf q))
       (\<lambda>d. memUpdateView (\<lambda>v. v\<lparr>v_cm := (v_cm v)(keyOf q \<mapsto> d)\<rparr>)) q),
     SetStatusCondition = memSetCondition,
     Eventf = (\<lambda>c ev w. w\<lparr>m_events := m_events w @ [ev]\<rparr>),
     Now = (\<lambda>w. (m_clock w, w))\<rparr>"

lemma memKube_sel:
  "SetControllerReference memKube = (\<lambda>c m. if list_ex (\<lambda>r. or_Controller r \<and> or_UID r
    \<noteq> UID c) (OwnerReferences m) then Inl (OtherErr ''already owned'') else Inr (\<lparr>or_UID = UID
    c, or_Controller = True\<rparr> # filter (\<lambda>r. or_UID r \<noteq> UID c) (OwnerReferences m)))"
  "AddFinalizer memKube = (\<lambda>fs f. if f \<in> set fs then (fs, False) else (fs @ [f], True))"
  "RemoveFinalizer memKube = (\<lambda>fs f. filter (\<lambda>g. g \<noteq> f) fs)"
  "ContainsFinalizer memKube = (\<lambda>fs f. f \<in> set fs)"
  "QuantityValue memKube = decimalValue"
  "QuantitySet memKube = (\<lambda>q v. FormatInt v)"
  "NewQuantity memKube = FormatInt"
  "SortSlice memKube = insertionSort"
  "Get_DC memKube = (\<lambda>k. memRead (\<lambda>w. v_dc (m_view w) k))"
  "Update_DC memKube = (\<lambda>c. memWrite (memUpdateView (\<lambda>v. v\<lparr>v_dc := (v_dc v)(keyOf c
    \<mapsto> c)\<rparr>)) c)"
  "StatusUpdate_DC memKube = (\<lambda>c. memWrite (memUpdateView (\<lambda>v. v\<lparr>v_dc := (v_dc
    v)(keyOf c \<mapsto> c)\<rparr>)) c)"
  "Get_STS memKube = (\<lambda>k. memRead (\<lambda>w. v_sts (m_view w) k))"
  "Get_CM memKube = (\<lambda>k. memRead (\<lambda>w. v_cm (m_view w) k))"
  "Get_NS memKube = (\<lambda>n. memRead (\<lambda>w. v_ns (m_view w) n))"
  "Delete_NS memKube = (\<lambda>n w. memWrite (memUpdateView (\<lambda>v. v\<lparr>v_ns := (v_ns v)(Name n
    \<mapsto> n\<lparr>DeletionTimestamp := Some (m_clock w)\<rparr>)\<rparr>)) () w)"
  "List_Pods memKube = (\<lambda>ns ls. memRead (\<lambda>w. Some (podsIn (m_view w) ns ls)))"
  "Update_Pod memKube = (\<lambda>p. memWrite (memUpdateView (putPod p)) p)"
  "CreateOrUpdate_NS memKube = (\<lambda>n. memApply (\<lambda>w. v_ns (m_view w) (Name n)) (\<lambda>d.
    memUpdateView (\<lambda>v. v\<lparr>v_ns := (v_ns v)(Name n \<mapsto> d)\<rparr>)) n)"
  "CreateOrUpdate_RQ memKube = (\<lambda>q. memApply (\<lambda>w. v_rq (m_view w) (keyOf q)) (\<lambda>d. memUpdateView (\<lambda>v. v\<lparr>v_rq := (v_rq v)(keyOf q \<mapsto> d)\<rparr>)) q)"
  "CreateOrUpdate_NP memKube = (\<lambda>q. memApply (\<lambda>w. v_np (m_view w) (keyOf q)) (\<lambda>d. memUpdateView (\<lambda>v. v\<lparr>v_np := (v_np v)(keyOf q \<mapsto> d)\<rparr>)) q)"
  "CreateOrUpdate_SVC memKube = (\<lambda>q. memApply (\<lambda>w. v_svc (m_view w) (keyOf q)) (\<lambda>d. memUpdateView (\<lambda>v. v\<lparr>v_svc := (v_svc v)(keyOf q \<mapsto> d)\<rparr>)) q)"
  "CreateOrUpdate_STS memKube = (\<lambda>q. memApply (\<lambda>w. v_sts (m_view w) (keyOf q)) (\<lambda>d.
    memUpdateView (\<lambda>v. v\<lparr>v_sts := (v_sts v)(keyOf q \<mapsto> d)\<rparr>)) q)"
  "CreateOrUpdate_CM memKube = (\<lambda>q. memApply (\<lambda>w. v_cm (m_view w) (keyOf q)) (\<lambda>d.
    memUpdateView (\<lambda>v. v\<lparr>v_cm := (v_cm v)(keyOf q \<mapsto> d)\<rparr>)) q)"
  "SetStatusCondition memKube = memSetCondition"
  "Eventf memKube = (\<lambda>c ev w. w\<lparr>m_events := m_events w @ [ev]\<rparr>)"
  "Now memKube = (\<lambda>w. (m_clock w, w))"
  by (simp_all add: memKube_def)

lemmas mem_run = memKube_sel memRead_def memWrite_def memApply_def memUpdateView_def takeFault_def baseObj_def

section \<open>The in-memory server keeps the contract\<close>

lemma takeFault_view: "takeFault w = (f, w') \<Longrightarrow> \<exists>fs. w' = w\<lparr>m_faults := fs\<rparr>"
  by (cases "m_faults w") (auto simp: takeFault_def intro: exI [of _ "m_faults w"])

lemma memRead_ok:
  "memRead get w = (Inr x, w') \<Longrightarrow> \<exists>fs. w' = w\<lparr>m_faults := fs\<rparr> \<and> get w' = Some x"
  by (auto simp: memRead_def dest: takeFault_view split: prod.splits if_splits option.splits)

lemma memRead_err:
  "memRead get w = (Inl e, w') \<Longrightarrow> \<exists>fs. w' = w\<lparr>m_faults := fs\<rparr> \<and> (IsNotFound e \<longrightarrow> get w' = None)"
  by (auto simp: memRead_def timeoutErr_def dest!: takeFault_view split: prod.splits if_splits option.splits)

lemma memWrite_cases:
  "memWrite put x w = (r, w') \<Longrightarrow>
   (\<exists>fs e. r = Inl e \<and> w' = w\<lparr>m_faults := fs\<rparr>) \<or> (\<exists>fs. (r = Inr x \<or> (\<exists>e. r = Inl e)) \<and> w' = put (w\<lparr>m_faults := fs\<rparr>))"
  by (fastforce simp: memWrite_def dest!: takeFault_view split: prod.splits fault.splits)

lemma memWrite_ok: "memWrite put x w = (Inr y, w') \<Longrightarrow> \<exists>fs. y = x \<and> w' = put (w\<lparr>m_faults := fs\<rparr>)"
  using memWrite_cases by fastforce

lemma memApply_cases:
  assumes "memApply get put obj f w = (r, w')"
  shows "(\<exists>fs e. r = Inl e \<and> w' = w\<lparr>m_faults := fs\<rparr>) \<or>
    (\<exists>fs d t. f (baseObj (get w) obj) = Inr d \<and> w' = put (d\<lparr>CreationTimestamp := t\<rparr>) (w\<lparr>m_faults := fs\<rparr>))"
proof (cases "f (baseObj (get w) obj)")
  case (Inl e)
  then have "r = Inl e \<and> w' = w\<lparr>m_faults := m_faults w\<rparr>"
    using assms by (simp add: memApply_def)
  then show ?thesis by blast
next
  case (Inr d)
  show ?thesis
  proof (cases "get w")
    case None
    with assms Inr show ?thesis
      by (auto simp: memApply_def Let_def dest!: memWrite_cases)
  next
    case (Some b)
    with assms Inr consider fs e where "r = Inl e" "w' = w\<lparr>m_faults := fs\<rparr>"
      | fs where "w' = put d (w\<lparr>m_faults := fs\<rparr>)"
      by (auto simp: memApply_def dest!: memWrite_cases)
    then show ?thesis
    proof cases
      case 1
      then show ?thesis by blast
    next
      case (2 fs)
      then have "w' = put (d\<lparr>CreationTimestamp := CreationTimestamp d\<rparr>) (w\<lparr>m_faults := fs\<rparr>)"
        by simp
      with Inr show ?thesis by blast
    qed
  qed
qed

lemmas memKube_defs = memKube_def memUpdateView_def

interpretation mem: cluster_api memKube m_view
proof (unfold_locales, goal_cases)
  case (1 k w c w')
  then show ?case by (auto simp: memKube_defs dest!: memRead_ok)
next
  case (2 k w e w')
  then show ?case by (auto simp: memKube_defs dest!: memRead_err)
next
  case (3 k w s w')
  then show ?case by (auto simp: memKube_defs dest!: memRead_ok)
next
  case (4 k w e w')
  then show ?case by (auto simp: memKube_defs dest!: memRead_err)
next
  case (5 k w c w')
  then show ?case by (auto simp: memKube_defs dest!: memRead_ok)
next
  case (6 k w e w')
  then show ?case by (auto simp: memKube_defs dest!: memRead_err)
next
  case (7 n w s w')
  then show ?case by (auto simp: memKube_defs dest!: memRead_ok)
next
  case (8 n w e w')
  then show ?case by (auto simp: memKube_defs dest!: memRead_err)
next
  case (9 ns ls w ps w')
  then show ?case by (auto simp: memKube_defs dest!: memRead_ok)
next
  case (10 ns ls w e w')
  then show ?case by (auto simp: memKube_defs dest!: memRead_err)
next
  case (11 w t w')
  then show ?case by (simp add: memKube_defs)
next
  case (12 c ev w)
  then show ?case by (simp add: memKube_defs)
next
  case (13 cs cond w cs' w')
  then show ?case by (simp add: memKube_defs memSetCondition_def)
next
  case (14 c w r w')
  then show ?case by (auto simp: memKube_defs dest!: memWrite_cases intro: exI [of _ "v_dc (m_view w)"])
next
  case (15 c w r w')
  then show ?case by (auto simp: memKube_defs dest!: memWrite_cases intro: exI [of _ "v_dc (m_view w)"])
next
  case (16 n w r w')
  then show ?case by (auto simp: memKube_defs dest!: memWrite_cases intro: exI [of _ "v_ns (m_view w)"])
next
  case (17 n fn w rn w')
  then have "memApply (\<lambda>w. v_ns (m_view w) (Name n)) (\<lambda>d. memUpdateView (\<lambda>v. v\<lparr>v_ns := (v_ns v)((Name n) \<mapsto> d)\<rparr>)) n fn w = (rn, w')"
    by (simp add: memKube_def)
  from memApply_cases [OF this] show ?case
  proof (elim disjE exE conjE)
    fix fs' t and d :: NamespaceObj
    let ?c = "d\<lparr>CreationTimestamp := t\<rparr>"
    assume "fn (baseObj (v_ns (m_view w) (Name n)) n) = Inr d"
      "w' = memUpdateView (\<lambda>v. v\<lparr>v_ns := (v_ns v)((Name n) \<mapsto> ?c)\<rparr>) (w\<lparr>m_faults := fs'\<rparr>)"
    then show ?thesis
      by (intro disjI2 exI [of _ d] exI [of _ ?c]) (simp add: memUpdateView_def)
  qed simp
next
  case (18 q fq w rq w')
  then have "memApply (\<lambda>w. v_rq (m_view w) (keyOf q)) (\<lambda>d. memUpdateView (\<lambda>v. v\<lparr>v_rq := (v_rq v)((keyOf q) \<mapsto> d)\<rparr>)) q fq w = (rq, w')"
    by (simp add: memKube_def)
  from memApply_cases [OF this] show ?case
  proof (elim disjE exE conjE)
    fix fs' t and d :: ResourceQuota
    let ?c = "d\<lparr>CreationTimestamp := t\<rparr>"
    assume "fq (baseObj (v_rq (m_view w) (keyOf q)) q) = Inr d"
      "w' = memUpdateView (\<lambda>v. v\<lparr>v_rq := (v_rq v)((keyOf q) \<mapsto> ?c)\<rparr>) (w\<lparr>m_faults := fs'\<rparr>)"
    then show ?thesis
      by (intro disjI2 exI [of _ d] exI [of _ ?c]) (simp add: memUpdateView_def)
  qed simp
next
  case (19 np fp w rp w')
  then have "memApply (\<lambda>w. v_np (m_view w) (keyOf np)) (\<lambda>d. memUpdateView (\<lambda>v. v\<lparr>v_np := (v_np v)((keyOf np) \<mapsto> d)\<rparr>)) np fp w = (rp, w')"
    by (simp add: memKube_def)
  from memApply_cases [OF this] show ?case
  proof (elim disjE exE conjE)
    fix fs' t and d :: NetworkPolicy
    let ?c = "d\<lparr>CreationTimestamp := t\<rparr>"
    assume "fp (baseObj (v_np (m_view w) (keyOf np)) np) = Inr d"
      "w' = memUpdateView (\<lambda>v. v\<lparr>v_np := (v_np v)((keyOf np) \<mapsto> ?c)\<rparr>) (w\<lparr>m_faults := fs'\<rparr>)"
    then show ?thesis
      by (intro disjI2 exI [of _ d] exI [of _ ?c]) (simp add: memUpdateView_def)
  qed simp
next
  case (20 sv fs w rs w')
  then have "memApply (\<lambda>w. v_svc (m_view w) (keyOf sv)) (\<lambda>d. memUpdateView (\<lambda>v. v\<lparr>v_svc := (v_svc v)((keyOf sv) \<mapsto> d)\<rparr>)) sv fs w = (rs, w')"
    by (simp add: memKube_def)
  from memApply_cases [OF this] show ?case
  proof (elim disjE exE conjE)
    fix fs' t and d :: Service
    let ?c = "d\<lparr>CreationTimestamp := t\<rparr>"
    assume "fs (baseObj (v_svc (m_view w) (keyOf sv)) sv) = Inr d"
      "w' = memUpdateView (\<lambda>v. v\<lparr>v_svc := (v_svc v)((keyOf sv) \<mapsto> ?c)\<rparr>) (w\<lparr>m_faults := fs'\<rparr>)"
    then show ?thesis
      by (intro disjI2 exI [of _ d] exI [of _ ?c]) (simp add: memUpdateView_def)
  qed simp
next
  case (21 p w p' w')
  then show ?case by (auto simp: memKube_defs dest!: memWrite_ok)
next
  case (22 p w e w')
  then show ?case by (auto simp: memKube_defs dest!: memWrite_cases)
next
  case (23 s ft w rt w')
  then have "memApply (\<lambda>w. v_sts (m_view w) (keyOf s)) (\<lambda>d. memUpdateView (\<lambda>v. v\<lparr>v_sts := (v_sts v)(keyOf s \<mapsto> d)\<rparr>)) s ft w = (rt, w')"
    by (simp add: memKube_def)
  from memApply_cases [OF this] show ?case
  proof (elim disjE exE conjE)
    fix fs t and d :: StatefulSet
    let ?c = "d\<lparr>CreationTimestamp := t\<rparr>"
    assume "ft (baseObj (v_sts (m_view w) (keyOf s)) s) = Inr d"
      "w' = memUpdateView (\<lambda>v. v\<lparr>v_sts := (v_sts v)(keyOf s \<mapsto> ?c)\<rparr>) (w\<lparr>m_faults := fs\<rparr>)"
    then show ?thesis
      by (intro disjI2 exI [of _ d] exI [of _ ?c]) (simp add: memUpdateView_def)
  qed simp
next
  case (24 m fm w rm w')
  then have "memApply (\<lambda>w. v_cm (m_view w) (keyOf m)) (\<lambda>d. memUpdateView (\<lambda>v. v\<lparr>v_cm := (v_cm v)(keyOf m \<mapsto> d)\<rparr>)) m fm w = (rm, w')"
    by (simp add: memKube_def)
  from memApply_cases [OF this] show ?case
  proof (elim disjE exE conjE)
    fix fs t and d :: ConfigMap
    let ?c = "d\<lparr>CreationTimestamp := t\<rparr>"
    assume "fm (baseObj (v_cm (m_view w) (keyOf m)) m) = Inr d"
      "w' = memUpdateView (\<lambda>v. v\<lparr>v_cm := (v_cm v)(keyOf m \<mapsto> ?c)\<rparr>) (w\<lparr>m_faults := fs\<rparr>)"
    then show ?thesis
      by (intro disjI2 exI [of _ d] exI [of _ ?c]) (simp add: memUpdateView_def)
  qed simp
next
  case (25 n w e w' nm)
  then show ?case
    by (auto simp: memKube_def memWrite_def timeoutErr_def split: prod.splits fault.splits)
qed

end
