(* ===== verification/Example.thy ===== *)
theory Example
  imports Cell Cluster
begin

text \<open>
  A small cluster on the in-memory API server, for the concrete instances of the properties.
\<close>

section \<open>An example cluster\<close>

text \<open>A resource \<open>c\<close> that wants \<open>m\<close> replicas, its StatefulSet with \<open>n\<close>, and some pods.\<close>

definition exampleCache :: "int32 \<Rightarrow> DistributedCache" where
  "exampleCache m = ObjectMeta.extend ((newMeta ''c'' ''default'')\<lparr>Finalizers := [drainFinalizer]\<rparr>)
     (DistributedCache.fields
       \<lparr>Replicas = Some m, Image = ''tiny-cache'', MemoryPerPod = ''1024'',
        Drain = \<lparr>GracePeriodSeconds = 30\<rparr>, Tenant = None\<rparr>
       \<lparr>Conditions = [], ObservedGeneration = 0, ReadyReplicas = 0,
        RingSummary = \<lparr>rs_Version = 0, rs_Members = [], rs_ConfigMapName = ''''\<rparr>\<rparr>)"

definition exampleKey :: NamespacedName where
  "exampleKey = \<lparr>nn_Namespace = ''default'', nn_Name = ''c''\<rparr>"

definition exampleLabels :: strmap where
  "exampleLabels = [(labelName, appName), (labelInstance, ''c'')]"

definition cachePod :: "string \<Rightarrow> strmap \<Rightarrow> Pod" where
  "cachePod name ann = (examplePod name ann)\<lparr>Labels := exampleLabels\<rparr>"

definition exampleSet :: "int32 \<Rightarrow> StatefulSet" where
  "exampleSet n = ObjectMeta.extend (newMeta ''c'' ''default'')
     (StatefulSet.fields (Some n) '''' None '''' [] None [])"

definition exampleWorld :: "int32 \<Rightarrow> int32 \<Rightarrow> Pod list \<Rightarrow> int64 \<Rightarrow> fault list \<Rightarrow> memState" where
  "exampleWorld m n pods ts faults =
     \<lparr>m_view =
        \<lparr>v_dc = (\<lambda>_. None)(exampleKey \<mapsto> exampleCache m), v_ns = (\<lambda>_. None),
         v_sts = (\<lambda>_. None)(exampleKey \<mapsto> exampleSet n), v_cm = (\<lambda>_. None), v_pods = pods,
         v_rq = (\<lambda>_. None), v_np = (\<lambda>_. None), v_svc = (\<lambda>_. None)\<rparr>,
      m_clock = time_Unix ts, m_events = [], m_faults = faults\<rparr>"

lemma exampleCache_sel [simp]:
  "Name (exampleCache m) = ''c''" "Namespace (exampleCache m) = ''default''"
  "Finalizers (exampleCache m) = [drainFinalizer]" "DeletionTimestamp (exampleCache m) = None"
  "Replicas (Spec (exampleCache m)) = Some m" "GracePeriodSeconds (Drain (Spec (exampleCache m))) = 30"
  "isolated (exampleCache m) = False"
  by (simp_all add: exampleCache_def newMeta_def ObjectMeta.extend_def DistributedCache.fields_def isolated_def)

lemma example_names [simp]:
  "targetNamespace (exampleCache m) = ''default''" "specReplicas (exampleCache m) = m"
  "podLabels (exampleCache m) = exampleLabels" "isCrossNamespaceChild (exampleCache m) = False"
  by (simp_all add: targetNamespace_def specReplicas_def podLabels_def exampleLabels_def
      isCrossNamespaceChild_def)

lemma exampleSet_sel [simp]: "sts_Replicas (exampleSet n) = Some n"
  by (simp add: exampleSet_def newMeta_def ObjectMeta.extend_def StatefulSet.fields_def)

lemma cachePod_sel [simp]:
  "Name (cachePod n a) = n" "Namespace (cachePod n a) = ''default''" "Annotations (cachePod n a) = a"
  "Labels (cachePod n a) = exampleLabels" "matchLabels exampleLabels exampleLabels"
  by (simp_all add: cachePod_def matchLabels_def exampleLabels_def labelName_def labelInstance_def)

lemma example_requests [simp]:
  "Get_STS memKube exampleKey (exampleWorld m n ps ts []) = (Inr (exampleSet n), exampleWorld m n ps ts [])"
  "Get_DC memKube exampleKey (exampleWorld m n ps ts []) = (Inr (exampleCache m), exampleWorld m n ps ts [])"
  "List_Pods memKube ns ls (exampleWorld m n ps ts [])
    = (Inr (filter (\<lambda>p. Namespace p = ns \<and> matchLabels ls (Labels p)) ps), exampleWorld m n ps ts [])"
  "Now memKube (exampleWorld m n ps ts fs) = (time_Unix ts, exampleWorld m n ps ts fs)"
  by (simp_all add: memKube_def memRead_def takeFault_def exampleWorld_def podsIn_def)

end
