(* ===== verification/Requests.thy ===== *)
theory Requests
  imports Cell Cluster
begin

text \<open>
  The operator's functions as sequences of requests. \<open>request K w w'\<close> is one call of the client,
  the recorder or the clock; every handler is a run of such calls, so that \<open>clockIn K w w' t\<close>,
  the clock showing \<open>t\<close> somewhere between the requests of a run, dates what a pass decides. The
  locale \<open>steady_clock\<close> adds that requests do not turn the clock back.
\<close>

section \<open>Requests and runs\<close>

inductive request :: "'w kube \<Rightarrow> 'w \<Rightarrow> 'w \<Rightarrow> bool" for K where
  "Get_DC K k w = (r, w') \<Longrightarrow> request K w w'"
| "Update_DC K c w = (r, w') \<Longrightarrow> request K w w'"
| "StatusUpdate_DC K c w = (r, w') \<Longrightarrow> request K w w'"
| "Get_STS K k w = (rs, w') \<Longrightarrow> request K w w'"
| "Get_CM K k w = (rc, w') \<Longrightarrow> request K w w'"
| "Get_NS K nm w = (rn, w') \<Longrightarrow> request K w w'"
| "Delete_NS K n w = (rd, w') \<Longrightarrow> request K w w'"
| "List_Pods K nm ls w = (rl, w') \<Longrightarrow> request K w w'"
| "Update_Pod K p w = (rp, w') \<Longrightarrow> request K w w'"
| "CreateOrUpdate_NS K n fn w = (an, w') \<Longrightarrow> request K w w'"
| "CreateOrUpdate_RQ K q fq w = (aq, w') \<Longrightarrow> request K w w'"
| "CreateOrUpdate_NP K np fp w = (ap, w') \<Longrightarrow> request K w w'"
| "CreateOrUpdate_SVC K sv fs w = (asv, w') \<Longrightarrow> request K w w'"
| "CreateOrUpdate_STS K s ft w = (ast, w') \<Longrightarrow> request K w w'"
| "CreateOrUpdate_CM K m fm w = (am, w') \<Longrightarrow> request K w w'"
| "SetStatusCondition K cs cond w = (cs', w') \<Longrightarrow> request K w w'"
| "Now K w = (t, w') \<Longrightarrow> request K w w'"
| "request K w (Eventf K c ev w)"

abbreviation runs :: "'w kube \<Rightarrow> 'w \<Rightarrow> 'w \<Rightarrow> bool" where
  "runs K \<equiv> (request K)\<^sup>*\<^sup>*"

text \<open>The rules that turn the equations of a handler's calls into a run.\<close>

named_theorems run_rules

lemma request_run: "request K w w' \<Longrightarrow> runs K w w'"
  by (rule r_into_rtranclp)

lemmas request_runs [run_rules] = request.intros(1-17) [THEN request_run]

lemma run_event [simp]: "runs K w w' \<Longrightarrow> runs K w (Eventf K c ev w')"
  by (blast intro: rtranclp.rtrancl_into_rtrancl request.intros)

lemma reconcileCellNamespace_runs [run_rules]: "reconcileCellNamespace K cache w = (r, w') \<Longrightarrow> runs K w w'"
  by (auto simp: reconcileCellNamespace_def Let_def dest!: run_rules split: prod.splits sum.splits if_splits)

lemma reconcileResourceQuota_runs [run_rules]: "reconcileResourceQuota K cache w = (r, w') \<Longrightarrow> runs K w w'"
  by (auto simp: reconcileResourceQuota_def Let_def dest!: run_rules split: prod.splits sum.splits if_splits)

lemma reconcileNetworkPolicy_runs [run_rules]: "reconcileNetworkPolicy K cache w = (r, w') \<Longrightarrow> runs K w w'"
  by (auto simp: reconcileNetworkPolicy_def Let_def dest!: run_rules split: prod.splits sum.splits if_splits)

lemma reconcileService_runs [run_rules]: "reconcileService K cache w = (r, w') \<Longrightarrow> runs K w w'"
  by (auto simp: reconcileService_def dest!: run_rules split: prod.splits sum.splits if_splits)

lemma reconcileCell_runs [run_rules]: "reconcileCell K cache w = (r, w') \<Longrightarrow> runs K w w'"
  by (auto simp: reconcileCell_def dest!: run_rules split: prod.splits option.splits if_splits
      intro: rtranclp_trans)

section \<open>The clock\<close>

text \<open>The clock shows \<open>t\<close> at some moment of the run from \<open>w\<close> to \<open>w'\<close>.\<close>

definition clockIn :: "'w kube \<Rightarrow> 'w \<Rightarrow> 'w \<Rightarrow> Time \<Rightarrow> bool" where
  "clockIn K w w' t \<longleftrightarrow> (\<exists>w1. runs K w w1 \<and> runs K w1 w' \<and> fst (Now K w1) = t)"

lemma clockIn_start: "runs K w w' \<Longrightarrow> clockIn K w w' (fst (Now K w))"
  by (auto simp: clockIn_def)

lemma clockIn_now:
  assumes "runs K w w1" "Now K w1 = (t, w2)" "runs K w2 w'"
  shows "clockIn K w w' t"
  unfolding clockIn_def
  using assms request_runs(17) [OF assms(2)] by (intro exI [of _ w1]) (auto intro: rtranclp_trans)

lemma clockIn_mono: "clockIn K w1 w2 t \<Longrightarrow> runs K w w1 \<Longrightarrow> runs K w2 w' \<Longrightarrow> clockIn K w w' t"
  unfolding clockIn_def by (elim exE conjE, intro exI conjI) (rule rtranclp_trans; assumption)+

text \<open>The time a world shows, in nanoseconds.\<close>

definition timeAt :: "'w kube \<Rightarrow> 'w \<Rightarrow> int" where
  "timeAt K w = instant (fst (Now K w))"

locale steady_clock =
  fixes K :: "'w kube"
  assumes request_time: "request K w w' \<Longrightarrow> timeAt K w \<le> timeAt K w'"
begin

lemma runs_time: "runs K w w' \<Longrightarrow> timeAt K w \<le> timeAt K w'"
  by (induction rule: rtranclp_induct) (use request_time in fastforce)+

lemma clockIn_bounds: "clockIn K w w' t \<Longrightarrow> timeAt K w \<le> instant t \<and> instant t \<le> timeAt K w'"
  using runs_time by (auto simp: clockIn_def timeAt_def)

end

lemma memRead_clock: "memRead get w = (r, w') \<Longrightarrow> m_clock w' = m_clock w"
  by (cases r) (auto dest!: memRead_ok memRead_err)

lemma memWrite_clock:
  "memWrite put x w = (r, w') \<Longrightarrow> (\<And>u. m_clock (put u) = m_clock u) \<Longrightarrow> m_clock w' = m_clock w"
  by (auto dest!: memWrite_cases)

lemma memApply_clock:
  "memApply get put obj f w = (r, w') \<Longrightarrow> (\<And>d u. m_clock (put d u) = m_clock u) \<Longrightarrow> m_clock w' = m_clock w"
  by (auto dest!: memApply_cases)

lemma mem_request_clock: "request memKube w w' \<Longrightarrow> m_clock w' = m_clock w"
  by (erule request.cases)
    (auto simp: memKube_sel memUpdateView_def memSetCondition_def dest!: memRead_clock memWrite_clock memApply_clock)

lemma mem_timeAt: "timeAt memKube w = instant (m_clock w)"
  by (simp add: timeAt_def memKube_sel)

interpretation mem_clock: steady_clock memKube
  by unfold_locales (simp add: mem_timeAt mem_request_clock)

lemma mem_runs_clock: "runs memKube w w' \<Longrightarrow> m_clock w' = m_clock w"
  by (induction rule: rtranclp_induct) (simp_all add: mem_request_clock)

lemma mem_clockIn: "clockIn memKube w w' t \<Longrightarrow> t = m_clock w"
  unfolding clockIn_def memKube_sel by (auto dest: mem_runs_clock)

end
