(* ===== verification/Workload.thy ===== *)
theory Workload
  imports Example Requests
begin

text \<open>
  The StatefulSet and the drain of a scale-down: \<open>reconcileStatefulSet\<close> and \<open>drainScaleDown\<close> of
  \<open>distributedcache_controller.go\<close>. A pod that a smaller replica count dooms is first annotated
  with the time its drain starts; \<open>drainScaleDown\<close> returns true once every doomed pod has been
  annotated for the grace period, and only then does \<open>reconcileStatefulSet\<close> lower the count.
\<close>

section \<open>The StatefulSet\<close>

definition httpProbe :: "string \<Rightarrow> int32 \<Rightarrow> int32 \<Rightarrow> Probe" where
  "httpProbe path period timeout =
     \<lparr>pr_Path = path, pr_Port = cachePort, pr_PeriodSeconds = period, pr_TimeoutSeconds = timeout,
      pr_FailureThreshold = 3\<rparr>"

definition cacheContainer :: "DistributedCache \<Rightarrow> Container" where
  "cacheContainer cache =
     \<lparr>ct_Name = ''cache'',
      ct_Image = Image (Spec cache),
      ct_Ports = [\<lparr>cp_Name = ''http'', cp_Port = cachePort, cp_Protocol = ''TCP''\<rparr>],
      ct_Requests = [(''memory'', MemoryPerPod (Spec cache))],
      ct_Limits = [(''memory'', MemoryPerPod (Spec cache))],
      ct_ReadinessProbe = httpProbe ''/readyz'' 2 1,
      ct_LivenessProbe = httpProbe ''/healthz'' 10 2\<rparr>"

text \<open>The replica count the closure writes, from the count it finds.\<close>

definition chooseReplicas :: "DistributedCache \<Rightarrow> bool \<Rightarrow> int32 option \<Rightarrow> int32 option" where
  "chooseReplicas cache canScaleDown current =
     (case (current, Replicas (Spec cache)) of
        (Some c, Some d) \<Rightarrow> if \<not> canScaleDown \<and> sint d < sint c then current else Some d
      | (_, desired) \<Rightarrow> desired)"

definition mutateStatefulSet :: "'w kube \<Rightarrow> DistributedCache \<Rightarrow> bool \<Rightarrow> StatefulSet mutate" where
  "mutateStatefulSet K cache canScaleDown sts =
     (let sts = sts\<lparr>Labels := setLabels cache ''cache'' (Labels sts),
                    sts_Replicas := chooseReplicas cache canScaleDown (sts_Replicas sts)\<rparr>;
          sts = (if CreationTimestamp sts = None
                 then sts\<lparr>sts_ServiceName := Name cache,
                          sts_Selector := Some (podLabels cache),
                          sts_PodManagementPolicy := ''Parallel''\<rparr>
                 else sts);
          grace = word_of_int (sint (GracePeriodSeconds (Drain (Spec cache)))) + 10
      in setControllerReferenceIfSameNamespace K cache
           (sts\<lparr>sts_TemplateLabels := podLabels cache,
                sts_TerminationGracePeriodSeconds := Some grace,
                sts_Containers := [cacheContainer cache]\<rparr>))"

definition newStatefulSet :: "DistributedCache \<Rightarrow> StatefulSet" where
  "newStatefulSet cache = ObjectMeta.extend (newMeta (Name cache) (targetNamespace cache))
     (StatefulSet.fields None '''' None '''' [] None [])"

definition reconcileStatefulSet ::
  "'w kube \<Rightarrow> DistributedCache \<Rightarrow> bool \<Rightarrow> 'w \<Rightarrow> goerr option \<times> 'w" where
  "reconcileStatefulSet K cache canScaleDown w =
     (case CreateOrUpdate_STS K (newStatefulSet cache) (mutateStatefulSet K cache canScaleDown) w of
        (Inl e, w) \<Rightarrow> (Some (Wrapped ''CreateOrUpdate StatefulSet'' e), w)
      | (Inr (op, sts), w) \<Rightarrow>
          (None,
           if op \<noteq> OperationResultNone
           then Eventf K cache (normalEvent ''StatefulSetReconciled''
                  (''StatefulSet '' @ Namespace sts @ ''/'' @ Name sts @ '' '' @ opString op)) w
           else w))"

section \<open>The drain of a scale-down\<close>

definition cacheKey :: "DistributedCache \<Rightarrow> NamespacedName" where
  "cacheKey cache = \<lparr>nn_Namespace = targetNamespace cache, nn_Name = Name cache\<rparr>"

definition podName :: "DistributedCache \<Rightarrow> int32 \<Rightarrow> string" where
  "podName cache i = Name cache @ ''-'' @ fmtInt (sint i)"

text \<open>\<open>for i := desiredReplicas; i < currentReplicas; i++\<close>: the keys of \<open>doomedNames\<close>.\<close>

function doomedNames :: "DistributedCache \<Rightarrow> int32 \<Rightarrow> int32 \<Rightarrow> string list" where
  "doomedNames cache i currentReplicas =
     (if sint i < sint currentReplicas
      then podName cache i # doomedNames cache (i + 1) currentReplicas
      else [])"
  by pat_completeness auto

lemma sint32_Suc: "sint i < sint n \<Longrightarrow> sint (i + 1) = sint i + 1" for i n :: int32
proof -
  assume "sint i < sint n"
  then have "- (2 ^ 31) \<le> sint i + 1" "sint i + 1 < 2 ^ 31"
    using sint32_bounds(1) [of i] sint32_bounds(2) [of n] by linarith+
  then have "sint (word_of_int (sint i + 1) :: int32) = sint i + 1"
    by (rule sint32_of_int)
  then show ?thesis
    by simp
qed

termination doomedNames
  by (relation "measure (\<lambda>(cache, i, n). nat (sint n - sint i))") (auto simp: sint32_Suc)

declare doomedNames.simps [simp del]

text \<open>\<open>time.Duration(cache.Spec.Drain.GracePeriodSeconds) * time.Second\<close>.\<close>

definition graceDuration :: "DistributedCache \<Rightarrow> Duration" where
  "graceDuration cache = word_of_int (sint (GracePeriodSeconds (Drain (Spec cache)))) * word_of_int Second"

text \<open>\<open>p.Annotations[drainAnnotation] = strconv.FormatInt(now.Unix(), 10)\<close>.\<close>

definition stamp :: "Time \<Rightarrow> Pod \<Rightarrow> Pod" where
  "stamp now p = p\<lparr>Annotations := mapPut drainAnnotation (FormatInt (Unix now)) (Annotations p)\<rparr>"

text \<open>\<open>now.Sub(time.Unix(ts, 0)) < grace\<close>.\<close>

definition withinGrace :: "Time \<Rightarrow> Duration \<Rightarrow> int64 \<Rightarrow> bool" where
  "withinGrace now grace ts = (sint (Sub now (time_Unix ts)) < sint grace)"

definition drainStartedEvent :: "DistributedCache \<Rightarrow> Pod \<Rightarrow> Event" where
  "drainStartedEvent cache p = normalEvent ''DrainStarted''
     (''Pod '' @ Name p @ '' marked for drain (grace=''
      @ fmtSeconds (sint (GracePeriodSeconds (Drain (Spec cache)))) @ '')'')"

fun drainLoop ::
  "'w kube \<Rightarrow> DistributedCache \<Rightarrow> string list \<Rightarrow> Duration \<Rightarrow> Time \<Rightarrow> Pod list \<Rightarrow> bool \<Rightarrow> 'w
    \<Rightarrow> (goerr + bool) \<times> 'w" where
  "drainLoop K cache doomed grace now [] allReady w = (Inr allReady, w)"
| "drainLoop K cache doomed grace now (p # ps) allReady w =
     (if Name p \<notin> set doomed then drainLoop K cache doomed grace now ps allReady w
      else case mapGet (Annotations p) drainAnnotation of
        None \<Rightarrow>
          (case Update_Pod K (stamp now p) w of
             (Inl e, w) \<Rightarrow> (Inl (Wrapped (''annotate pod '' @ Name p) e), w)
           | (Inr p, w) \<Rightarrow>
               drainLoop K cache doomed grace now ps False (Eventf K cache (drainStartedEvent cache p) w))
      | Some v \<Rightarrow>
          (case ParseInt v of
             None \<Rightarrow>
               (case Update_Pod K (stamp now p) w of
                  (Inl e, w) \<Rightarrow> (Inl (Wrapped (''rewrite drain annotation on '' @ Name p) e), w)
                | (Inr _, w) \<Rightarrow> drainLoop K cache doomed grace now ps False w)
           | Some ts \<Rightarrow>
               drainLoop K cache doomed grace now ps
                 (if withinGrace now grace ts then False else allReady) w))"

definition drainScaleDown :: "'w kube \<Rightarrow> DistributedCache \<Rightarrow> 'w \<Rightarrow> (goerr + bool) \<times> 'w" where
  "drainScaleDown K cache w =
     (case Get_STS K (cacheKey cache) w of
        (Inl e, w) \<Rightarrow> if IsNotFound e then (Inr True, w) else (Inl (Wrapped ''get StatefulSet'' e), w)
      | (Inr sts, w) \<Rightarrow>
          (let currentReplicas = (case sts_Replicas sts of None \<Rightarrow> 0 | Some r \<Rightarrow> r);
               desiredReplicas = specReplicas cache
           in if sint desiredReplicas \<ge> sint currentReplicas then (Inr True, w)
              else
                (case List_Pods K (targetNamespace cache) (podLabels cache) w of
                   (Inl e, w) \<Rightarrow> (Inl (Wrapped ''list pods'' e), w)
                 | (Inr pods, w) \<Rightarrow>
                     (case Now K w of
                        (now, w) \<Rightarrow>
                          drainLoop K cache (doomedNames cache desiredReplicas currentReplicas)
                            (graceDuration cache) now pods True w))))"

section \<open>Doomed pods\<close>

lemma set_doomedNames: "set (doomedNames cache i n) = podName cache ` {j. sint i \<le> sint j \<and> sint j < sint n}"
proof (induction cache i n rule: doomedNames.induct)
  case (1 cache i n)
  show ?case
  proof (cases "sint i < sint n")
    case True
    have "{j. sint i \<le> sint j \<and> sint j < sint n}
      = insert i {j. sint (i + 1) \<le> sint j \<and> sint j < sint n}"
      using True by (auto simp: sint32_Suc [OF True] order_le_less dest: signed_word_eqI)
    then show ?thesis
      using 1 [OF True] True by (simp add: doomedNames.simps [of cache i n])
  next
    case False
    then show ?thesis
      by (auto simp: doomedNames.simps [of cache i n])
  qed
qed

lemma fmtInt_inject: "fmtInt (sint i) = fmtInt (sint j) \<longleftrightarrow> i = j" for i j :: int32
proof
  assume eq: "fmtInt (sint i) = fmtInt (sint j)"
  have "ParseInt (fmtInt (sint k)) = Some (word_of_int (sint k))" for k :: int32
    using sint32_bounds [of k] by (intro ParseInt_fmtInt) auto
  with eq have eq': "(word_of_int (sint i) :: int64) = word_of_int (sint j)"
    by (metis option.inject)
  have "sint (word_of_int (sint k) :: int64) = sint k" for k :: int32
    using sint32_bounds [of k] by (intro sint64_of_int) auto
  with eq' have "sint i = sint j"
    by metis
  then show "i = j"
    by (rule signed_word_eqI)
qed simp

lemma podName_doomed:
  "podName cache j \<in> set (doomedNames cache i n) \<longleftrightarrow> sint i \<le> sint j \<and> sint j < sint n"
  by (auto simp: set_doomedNames podName_def fmtInt_inject)

section \<open>The drain loop\<close>

text \<open>A pod whose annotation is a number, and old enough.\<close>

definition drained :: "Time \<Rightarrow> Duration \<Rightarrow> Pod \<Rightarrow> bool" where
  "drained now grace p =
     (case mapGet (Annotations p) drainAnnotation of
        None \<Rightarrow> False
      | Some v \<Rightarrow> (case ParseInt v of None \<Rightarrow> False | Some ts \<Rightarrow> \<not> withinGrace now grace ts))"

definition needsStamp :: "Pod \<Rightarrow> bool" where
  "needsStamp p =
     (case mapGet (Annotations p) drainAnnotation of None \<Rightarrow> True | Some v \<Rightarrow> ParseInt v = None)"

lemma needsStamp_cases:
  "mapGet (Annotations p) drainAnnotation = None \<Longrightarrow> needsStamp p"
  "mapGet (Annotations p) drainAnnotation = Some v \<Longrightarrow> needsStamp p \<longleftrightarrow> ParseInt v = None"
  by (simp_all add: needsStamp_def)

lemma drained_stamped: "drained now grace p \<Longrightarrow> \<not> needsStamp p"
  by (auto simp: drained_def needsStamp_def split: option.splits)

lemma stamp_sel [simp]:
  "Name (stamp t p) = Name p" "Namespace (stamp t p) = Namespace p" "Labels (stamp t p) = Labels p"
  "keyOf (stamp t p) = keyOf p"
  by (simp_all add: stamp_def keyOf_def)

lemma stamp_annotations:
  "mapGet (Annotations (stamp t p)) k
    = (if k = drainAnnotation then Some (FormatInt (Unix t)) else mapGet (Annotations p) k)"
  by (simp add: stamp_def)

lemma stamp_not_eligible [simp]: "\<not> eligible (stamp t p)"
  by (simp add: eligible_def stamp_annotations)

lemma sint_graceDuration:
  "sint (graceDuration cache) = sint (GracePeriodSeconds (Drain (Spec cache))) * Second"
proof -
  let ?g = "sint (GracePeriodSeconds (Drain (Spec cache)))"
  have b: "- (2 ^ 31) \<le> ?g" "?g < 2 ^ 31"
    by (rule sint32_bounds)+
  have "graceDuration cache = word_of_int (?g * Second)"
    by (simp add: graceDuration_def)
  moreover have "sint (word_of_int (?g * Second) :: int64) = ?g * Second"
    using b by (intro sint64_of_int) (simp_all add: Second_def)
  ultimately show ?thesis by simp
qed

lemma withinGrace_iff:
  "withinGrace now (graceDuration cache) ts \<longleftrightarrow>
    instant now - instant (time_Unix ts) < sint (GracePeriodSeconds (Drain (Spec cache))) * Second"
proof -
  let ?g = "sint (GracePeriodSeconds (Drain (Spec cache)))"
  have b: "- (2 ^ 31) \<le> ?g" "?g < 2 ^ 31"
    by (rule sint32_bounds)+
  then have "- (2 ^ 63) < ?g * Second" "?g * Second < 2 ^ 63"
    by (simp_all add: Second_def)
  then show ?thesis
    unfolding withinGrace_def Sub_def sint_graceDuration by (rule saturate_less_iff)
qed

lemma drained_iff:
  "drained now (graceDuration cache) p \<longleftrightarrow>
    (\<exists>v ts. mapGet (Annotations p) drainAnnotation = Some v \<and> ParseInt v = Some ts
      \<and> sint (GracePeriodSeconds (Drain (Spec cache))) * Second \<le> instant now - instant (time_Unix ts))"
  by (auto simp: drained_def withinGrace_iff split: option.splits)

text \<open>Only the doomed pods of the list matter.\<close>

lemma drainLoop_doomed:
  "drainLoop K cache doomed grace now pods a w
    = drainLoop K cache doomed grace now (filter (\<lambda>p. Name p \<in> set doomed) pods) a w"
  by (induction K cache doomed grace now pods a w rule: drainLoop.induct)
     (auto split: option.splits sum.splits prod.splits)

lemma drainLoop_result:
  "drainLoop K cache doomed grace now pods a w = (Inr b, w') \<Longrightarrow>
   b \<longleftrightarrow> a \<and> (\<forall>p \<in> set pods. Name p \<in> set doomed \<longrightarrow> drained now grace p)"
proof (induction pods arbitrary: a w)
  case Nil
  then show ?case by auto
next
  case (Cons p ps)
  show ?case
    using Cons.prems
    by (auto simp: drained_def dest!: Cons.IH split: if_splits option.splits sum.splits prod.splits)
qed

lemma drainLoop_quiet:
  "\<forall>p \<in> set pods. Name p \<in> set doomed \<longrightarrow> \<not> needsStamp p \<Longrightarrow>
   drainLoop K cache doomed grace now pods a w
    = (Inr (a \<and> (\<forall>p \<in> set pods. Name p \<in> set doomed \<longrightarrow> drained now grace p)), w)"
  by (induction pods arbitrary: a) (auto simp: needsStamp_def drained_def split: option.splits)

section \<open>What the loop changes\<close>

text \<open>The cluster with the pods of \<open>S\<close> stamped.\<close>

definition stampAll :: "Time \<Rightarrow> Pod set \<Rightarrow> cluster \<Rightarrow> cluster" where
  "stampAll now S v = v\<lparr>v_pods := map (\<lambda>q. if q \<in> S then stamp now q else q) (v_pods v)\<rparr>"

lemma stampAll_empty [simp]: "stampAll now {} v = v"
  by (simp add: stampAll_def)

lemma stampAll_sel [simp]:
  "v_sts (stampAll now S v) = v_sts v" "v_cm (stampAll now S v) = v_cm v"
  "v_ns (stampAll now S v) = v_ns v" "v_dc (stampAll now S v) = v_dc v"
  "v_pods (stampAll now S v) = map (\<lambda>q. if q \<in> S then stamp now q else q) (v_pods v)"
  by (simp_all add: stampAll_def)

lemma stampAll_keys: "map keyOf (v_pods (stampAll now S v)) = map keyOf (v_pods v)"
  by (simp add: comp_def if_distrib cong: if_cong)

lemma stampAll_insert:
  "stamp now p \<notin> S \<Longrightarrow> stampAll now S (stampAll now {p} v) = stampAll now (insert p S) v"
  by (auto simp: stampAll_def)

lemma putPod_stamp:
  assumes "distinct (map keyOf (v_pods v))" "p \<in> set (v_pods v)"
  shows "putPod (stamp now p) v = stampAll now {p} v"
proof -
  have "keyOf q = keyOf p \<longleftrightarrow> q = p" if "q \<in> set (v_pods v)" for q
    using assms that by (auto simp: distinct_map inj_on_def)
  then show ?thesis
    by (simp add: putPod_def stampAll_def cong: map_cong)
qed

text \<open>One step of either loop: the rest of the list is untouched by the stamp of its head.\<close>

lemma stampAll_step:
  assumes keys: "distinct (map keyOf (v_pods v))" and ps: "set (p # ps) \<subseteq> set (v_pods v)"
    and dist: "distinct (map keyOf (p # ps))"
  shows "distinct (map keyOf (v_pods (stampAll now {p} v)))"
    and "set ps \<subseteq> set (v_pods (stampAll now {p} v))"
    and "S \<subseteq> set ps \<Longrightarrow> stamp now p \<notin> S"
proof -
  show "distinct (map keyOf (v_pods (stampAll now {p} v)))"
    using keys by (simp only: stampAll_keys)
  have "q \<noteq> p" if "q \<in> set ps" for q
    using that dist by auto
  then show "set ps \<subseteq> set (v_pods (stampAll now {p} v))"
    using ps by (auto simp: image_iff)
  show "S \<subseteq> set ps \<Longrightarrow> stamp now p \<notin> S"
    using dist by (metis distinct.simps(2) image_eqI list.set_map list.simps(9) stamp_sel(4) subsetD)
qed

text \<open>
  The requests of a drain loop: the pods of a list are stamped one after the other, up to the
  first error, with steps in between that leave the cluster as it is. The scale-down and the
  deletion of the resource both drain this way.
\<close>

inductive stamping ::
  "'w kube \<Rightarrow> ('w \<Rightarrow> cluster) \<Rightarrow> Time \<Rightarrow> Pod list \<Rightarrow> 'w \<Rightarrow> bool \<Rightarrow> 'w \<Rightarrow> bool" for K view now where
  stamped_all: "view w' = view w \<Longrightarrow> stamping K view now [] w True w'"
| stamped_one: "Update_Pod K (stamp now p) w = (Inr p', w1) \<Longrightarrow> view w2 = view w1 \<Longrightarrow>
    stamping K view now ps w2 ok w' \<Longrightarrow> stamping K view now (p # ps) w ok w'"
| stamped_err: "Update_Pod K (stamp now p) w = (Inl e, w') \<Longrightarrow> stamping K view now (p # ps) w False w'"

context cluster_api
begin

lemma update_stamp:
  assumes "Update_Pod K (stamp now p) w = (r, w')"
    and "distinct (map keyOf (v_pods (view w)))" "p \<in> set (v_pods (view w))"
  shows "view w' = stampAll now {p} (view w) \<or> (\<exists>e. r = Inl e \<and> view w' = view w)"
  using assms update_pod [of "stamp now p" w _ w'] update_pod_err [of "stamp now p" w _ w']
  by (cases r) (auto simp: putPod_stamp)

lemma stamping_view:
  assumes "stamping K view now ps w ok w'"
    and "distinct (map keyOf (v_pods (view w)))" "set ps \<subseteq> set (v_pods (view w))" "distinct (map keyOf ps)"
  shows "\<exists>S. view w' = stampAll now S (view w) \<and> S \<subseteq> set ps \<and> (ok \<longrightarrow> S = set ps)"
  using assms
proof (induction rule: stamping.induct)
  case (stamped_all w' w)
  then show ?case by (intro exI [of _ "{}"]) simp
next
  case (stamped_err p w e w' ps)
  then have "view w' = stampAll now {p} (view w) \<or> view w' = view w"
    using update_stamp [OF stamped_err(1)] by auto
  then show ?case
    by (auto intro: exI [of _ "{p}"] exI [of _ "{}"])
next
  case (stamped_one p w p' w1 w2 ps ok w')
  then have v: "view w2 = stampAll now {p} (view w)"
    using update_stamp [OF stamped_one(1)] by auto
  note step = stampAll_step [OF stamped_one.prems]
  obtain S where S: "view w' = stampAll now S (view w2)" "S \<subseteq> set ps" "ok \<longrightarrow> S = set ps"
    using stamped_one.IH step(1,2) stamped_one.prems(3) unfolding v by auto
  then have "view w' = stampAll now (insert p S) (view w)"
    using step(3) [OF S(2)] by (simp add: v stampAll_insert)
  with S show ?case
    by (intro exI [of _ "insert p S"]) auto
qed

lemma drainLoop_stamping:
  "drainLoop K cache doomed grace now ps a w = (r, w') \<Longrightarrow>
   stamping K view now (filter (\<lambda>q. Name q \<in> set doomed \<and> needsStamp q) ps) w (\<exists>b. r = Inr b) w'"
  by (induction ps arbitrary: a w)
     (auto simp: needsStamp_cases split: if_splits option.splits sum.splits prod.splits
       intro: stamping.intros event_view)

lemma drainLoop_view:
  assumes "drainLoop K cache doomed grace now ps a w = (r, w')"
    and "distinct (map keyOf (v_pods (view w)))" "set ps \<subseteq> set (v_pods (view w))"
    and "distinct (map keyOf ps)"
  shows "\<exists>S. view w' = stampAll now S (view w)
    \<and> S \<subseteq> {q \<in> set ps. Name q \<in> set doomed \<and> needsStamp q}
    \<and> (\<forall>b. r = Inr b \<longrightarrow> S = {q \<in> set ps. Name q \<in> set doomed \<and> needsStamp q})"
  using stamping_view [OF drainLoop_stamping [OF assms(1)] assms(2)] assms(3,4)
  by (auto simp: distinct_map_filter)

end

section \<open>The exits of a pass\<close>

lemma reconcileStatefulSet_runs [run_rules]: "reconcileStatefulSet K cache can w = (r, w') \<Longrightarrow> runs K w w'"
  by (auto simp: reconcileStatefulSet_def dest!: run_rules split: prod.splits sum.splits if_splits)

lemma drainLoop_runs [run_rules]:
  "drainLoop K cache doomed grace now ps a w = (r, w') \<Longrightarrow> runs K w w'"
proof (induction ps arbitrary: a w)
  case (Cons p ps)
  have step: "runs K w w'" if "Update_Pod K (stamp now p) w = (u, w1)" "runs K w1 w'" for u w1
    using request_runs(9) [OF that(1)] that(2) by (rule rtranclp_trans)
  have event: "runs K w1 w'" if "runs K (Eventf K cache ev w1) w'" for ev w1
    using run_event [OF rtranclp.rtrancl_refl] that by (rule rtranclp_trans)
  show ?case
    using Cons.prems
    by (auto dest!: Cons.IH dest: step event run_rules split: if_splits option.splits sum.splits prod.splits)
qed simp

definition currentReplicas :: "StatefulSet \<Rightarrow> int32" where
  "currentReplicas s = (case sts_Replicas s of None \<Rightarrow> 0 | Some r \<Rightarrow> r)"

lemma drainScaleDown_elim:
  assumes "drainScaleDown K cache w = (r, w')"
  obtains (no_set) e where "Get_STS K (cacheKey cache) w = (Inl e, w')"
      "r = (if IsNotFound e then Inr True else Inl (Wrapped ''get StatefulSet'' e))"
    | (enough) s where "Get_STS K (cacheKey cache) w = (Inr s, w')"
      "sint (specReplicas cache) \<ge> sint (currentReplicas s)" "r = Inr True"
    | (no_list) s w1 e where "Get_STS K (cacheKey cache) w = (Inr s, w1)"
      "List_Pods K (targetNamespace cache) (podLabels cache) w1 = (Inl e, w')"
      "r = Inl (Wrapped ''list pods'' e)"
    | (loop) s w1 ps w2 now w3 where "Get_STS K (cacheKey cache) w = (Inr s, w1)"
      "sint (specReplicas cache) < sint (currentReplicas s)"
      "List_Pods K (targetNamespace cache) (podLabels cache) w1 = (Inr ps, w2)" "Now K w2 = (now, w3)"
      "drainLoop K cache (doomedNames cache (specReplicas cache) (currentReplicas s))
        (graceDuration cache) now ps True w3 = (r, w')"
  using assms
  by (auto simp: drainScaleDown_def Let_def simp flip: currentReplicas_def
      split: sum.splits prod.splits if_splits)

lemma drainScaleDown_runs [run_rules]: "drainScaleDown K cache w = (r, w') \<Longrightarrow> runs K w w'"
  by (elim drainScaleDown_elim) (auto dest!: run_rules intro: rtranclp_trans)

section \<open>The operations on a cluster\<close>

definition cellPods :: "DistributedCache \<Rightarrow> cluster \<Rightarrow> Pod list" where
  "cellPods cache v = podsIn v (targetNamespace cache) (podLabels cache)"

text \<open>The pods a scale-down to the specified count would delete: ordinals from it upwards.\<close>

definition doomedIn :: "DistributedCache \<Rightarrow> cluster \<Rightarrow> Pod set" where
  "doomedIn cache v =
     (case v_sts v (cacheKey cache) of
        None \<Rightarrow> {}
      | Some s \<Rightarrow> {p \<in> set (cellPods cache v).
          \<exists>j. Name p = podName cache j \<and> sint (specReplicas cache) \<le> sint j \<and> sint j < sint (currentReplicas s)})"

definition doomedDrained :: "DistributedCache \<Rightarrow> Time \<Rightarrow> cluster \<Rightarrow> bool" where
  "doomedDrained cache now v \<longleftrightarrow> (\<forall>p \<in> doomedIn cache v. drained now (graceDuration cache) p)"

lemma keyOf_newStatefulSet [simp]: "keyOf (newStatefulSet cache) = cacheKey cache"
  by (simp add: keyOf_def newStatefulSet_def cacheKey_def ObjectMeta.extend_def newMeta_def)

lemma cellPods_subset: "set (cellPods cache v) \<subseteq> set (v_pods v)"
  by (auto simp: cellPods_def podsIn_def)

lemma cellPods_distinct: "distinct (map keyOf (v_pods v)) \<Longrightarrow> distinct (map keyOf (cellPods cache v))"
  by (simp add: cellPods_def podsIn_def distinct_map_filter)

lemma chooseReplicas_both:
  "Replicas (Spec cache) = Some d \<Longrightarrow>
   chooseReplicas cache can (Some c) = (if \<not> can \<and> sint d < sint c then Some c else Some d)"
  by (simp add: chooseReplicas_def)

lemma mutateStatefulSet_replicas:
  "mutateStatefulSet K cache can s = Inr d \<Longrightarrow> sts_Replicas d = chooseReplicas cache can (sts_Replicas s)"
  by (auto simp: mutateStatefulSet_def setControllerReferenceIfSameNamespace_def Let_def
      split: if_splits sum.splits)

context cluster_api
begin

text \<open>
  A pass of \<open>drainScaleDown\<close> stamps doomed pods that have no readable stamp and nothing else,
  all of them if it succeeds, and answers true exactly when all doomed pods are drained at the
  time it read from the clock.
\<close>

lemma drainScaleDown_loop_view:
  assumes s: "v_sts (view w) (cacheKey cache) = Some s" and keys: "distinct (map keyOf (v_pods (view w)))"
    and loop: "drainLoop K cache (doomedNames cache (specReplicas cache) (currentReplicas s))
      (graceDuration cache) now (cellPods cache (view w)) True w1 = (r, w')"
    and w1: "view w1 = view w"
  shows "\<exists>S. view w' = stampAll now S (view w) \<and> S \<subseteq> {q \<in> doomedIn cache (view w). needsStamp q}
    \<and> (\<forall>b. r = Inr b \<longrightarrow> S = {q \<in> doomedIn cache (view w). needsStamp q} \<and> (b \<longleftrightarrow> doomedDrained cache now (view w)))"
proof -
  let ?ps = "cellPods cache (view w)"
  let ?doomed = "doomedNames cache (specReplicas cache) (currentReplicas s)"
  have doomed: "{q \<in> set ?ps. Name q \<in> set ?doomed} = doomedIn cache (view w)"
    by (auto simp: doomedIn_def s set_doomedNames)
  then have "(\<forall>q \<in> set ?ps. Name q \<in> set ?doomed \<longrightarrow> drained now (graceDuration cache) q)
    \<longleftrightarrow> doomedDrained cache now (view w)"
    by (auto simp: doomedDrained_def)
  then have b: "\<forall>b. r = Inr b \<longrightarrow> b = doomedDrained cache now (view w)"
    using drainLoop_result [of K cache ?doomed "graceDuration cache" now ?ps True w1 _ w'] loop by simp
  have eq: "{q \<in> set ?ps. Name q \<in> set ?doomed \<and> needsStamp q} = {q \<in> doomedIn cache (view w). needsStamp q}"
    using doomed by blast
  have "\<exists>S. view w' = stampAll now S (view w1)
    \<and> S \<subseteq> {q \<in> set ?ps. Name q \<in> set ?doomed \<and> needsStamp q}
    \<and> (\<forall>b. r = Inr b \<longrightarrow> S = {q \<in> set ?ps. Name q \<in> set ?doomed \<and> needsStamp q})"
    by (rule drainLoop_view [OF loop]) (simp_all add: w1 keys cellPods_subset cellPods_distinct)
  then obtain S where S: "view w' = stampAll now S (view w)"
    "S \<subseteq> {q \<in> doomedIn cache (view w). needsStamp q}"
    "\<forall>b. r = Inr b \<longrightarrow> S = {q \<in> doomedIn cache (view w). needsStamp q}"
    unfolding eq w1 by (elim exE conjE)
  have "\<forall>b. r = Inr b \<longrightarrow> S = {q \<in> doomedIn cache (view w). needsStamp q} \<and> (b \<longleftrightarrow> doomedDrained cache now (view w))"
    using S(3) b by simp
  with S(1,2) show ?thesis
    by (intro exI conjI)
qed

lemma drainScaleDown_view:
  assumes run: "drainScaleDown K cache w = (r, w')" and keys: "distinct (map keyOf (v_pods (view w)))"
  shows "\<exists>now S. clockIn K w w' now \<and> view w' = stampAll now S (view w) \<and> S \<subseteq> {q \<in> doomedIn cache (view w). needsStamp q}
    \<and> (\<forall>b. r = Inr b \<longrightarrow> S = {q \<in> doomedIn cache (view w). needsStamp q} \<and> (b \<longleftrightarrow> doomedDrained cache now (view w)))"
  using run
proof (cases rule: drainScaleDown_elim)
  case (no_set e)
  with get_sts_err have "view w' = view w" "IsNotFound e \<longrightarrow> v_sts (view w) (cacheKey cache) = None"
    by blast+
  with no_set show ?thesis
    by (intro exI [of _ "fst (Now K w)"] exI [of _ "{}"]) (auto simp: clockIn_start [OF drainScaleDown_runs [OF run]] doomedIn_def doomedDrained_def split: if_splits)
next
  case (enough s)
  with get_sts have "view w' = view w" "v_sts (view w) (cacheKey cache) = Some s"
    by blast+
  with enough show ?thesis
    by (intro exI [of _ "fst (Now K w)"] exI [of _ "{}"]) (auto simp: clockIn_start [OF drainScaleDown_runs [OF run]] doomedIn_def doomedDrained_def)
next
  case (no_list s w1 e)
  with get_sts list_pods_err have "view w' = view w"
    by metis
  with no_list show ?thesis
    by (intro exI [of _ "fst (Now K w)"] exI [of _ "{}"]) (simp add: clockIn_start [OF drainScaleDown_runs [OF run]])
next
  case (loop s w1 ps w2 now w3)
  have v: "view w1 = view w" "v_sts (view w) (cacheKey cache) = Some s"
    using get_sts [OF loop(1)] by blast+
  have ps: "view w2 = view w" "ps = cellPods cache (view w)"
    using list_pods [OF loop(3)] v(1) by (simp_all add: cellPods_def)
  have now: "clockIn K w w' now"
    using request_runs(4) [OF loop(1)] request_runs(8) [OF loop(3)] drainLoop_runs [OF loop(5)] loop(4)
    by (blast intro: clockIn_now rtranclp_trans)
  have "view w3 = view w"
    using now_view [OF loop(4)] ps(1) by simp
  from drainScaleDown_loop_view [OF v(2) keys loop(5) [unfolded ps(2)] this]
  show ?thesis
    by (intro exI [of _ now]) (simp only: now simp_thms)
qed

lemma reconcileStatefulSet_view:
  assumes "reconcileStatefulSet K cache can w = (r, w')"
  shows "(\<exists>e. r = Some e \<and> view w' = view w) \<or>
    (\<exists>d s. mutateStatefulSet K cache can (baseObj (v_sts (view w) (cacheKey cache)) (newStatefulSet cache)) = Inr d
       \<and> (sts_Replicas d \<noteq> None \<longrightarrow> sts_Replicas s = sts_Replicas d)
       \<and> view w' = (view w)\<lparr>v_sts := (v_sts (view w))(cacheKey cache \<mapsto> s)\<rparr>)"
proof -
  obtain u w1 where u: "CreateOrUpdate_STS K (newStatefulSet cache) (mutateStatefulSet K cache can) w = (u, w1)"
    by (cases "CreateOrUpdate_STS K (newStatefulSet cache) (mutateStatefulSet K cache can) w")
  have "view w' = view w1" "(\<exists>e. u = Inl e) \<longleftrightarrow> (\<exists>e. r = Some e)"
    using assms u by (auto simp: reconcileStatefulSet_def event_view split: sum.splits prod.splits if_splits)
  then show ?thesis
    using apply_sts [OF u] by auto
qed

end

section \<open>Properties\<close>

text \<open>
  C12: for every API server, a pass of \<open>drainScaleDown\<close> that finds a StatefulSet larger than the
  spec answers true exactly when every listed pod whose ordinal is at least the specified count
  has a drain annotation that parses and that lies at least the grace period (in nanoseconds)
  before the time the pass reads. Pods with smaller ordinals, and the annotations of other pods,
  do not matter.
\<close>

theorem drainScaleDown_waits_for_grace:
  assumes "Get_STS K (cacheKey cache) w = (Inr s, w1)"
    and "sint (specReplicas cache) < sint (currentReplicas s)"
    and "List_Pods K (targetNamespace cache) (podLabels cache) w1 = (Inr pods, w2)"
    and "Now K w2 = (now, w3)"
  shows "fst (drainScaleDown K cache w) = Inr True \<longleftrightarrow>
    (\<forall>p \<in> set pods. \<forall>j. Name p = podName cache j \<longrightarrow>
      sint (specReplicas cache) \<le> sint j \<longrightarrow> sint j < sint (currentReplicas s) \<longrightarrow>
      (\<exists>v ts. mapGet (Annotations p) drainAnnotation = Some v \<and> ParseInt v = Some ts
        \<and> sint (GracePeriodSeconds (Drain (Spec cache))) * Second \<le> instant now - instant (time_Unix ts)))"
    (is "_ \<longleftrightarrow> ?all")
proof -
  let ?doomed = "doomedNames cache (specReplicas cache) (currentReplicas s)"
  let ?loop = "drainLoop K cache ?doomed (graceDuration cache) now pods True w3"
  have run: "drainScaleDown K cache w = ?loop"
    using assms by (simp add: drainScaleDown_def currentReplicas_def Let_def)
  have all: "?all \<longleftrightarrow> (\<forall>p \<in> set pods. Name p \<in> set ?doomed \<longrightarrow> drained now (graceDuration cache) p)"
    by (auto simp: set_doomedNames drained_iff)
  show ?thesis
  proof
    assume "fst (drainScaleDown K cache w) = Inr True"
    then obtain w' where "?loop = (Inr True, w')"
      using run by (cases ?loop) auto
    from drainLoop_result [OF this] show ?all
      unfolding all by simp
  next
    assume ?all
    then have ok: "\<forall>p \<in> set pods. Name p \<in> set ?doomed \<longrightarrow> drained now (graceDuration cache) p"
      by (simp only: all)
    then have "\<forall>p \<in> set pods. Name p \<in> set ?doomed \<longrightarrow> \<not> needsStamp p"
      using drained_stamped by blast
    then have "?loop = (Inr True, w3)"
      using ok by (subst drainLoop_quiet) auto
    then show "fst (drainScaleDown K cache w) = Inr True"
      by (simp add: run)
  qed
qed

lemma example_workload [simp]:
  "cacheKey (exampleCache m) = exampleKey" "podName (exampleCache m) j = ''c-'' @ fmtInt (sint j)"
  "currentReplicas (exampleSet n) = n"
  by (simp_all add: cacheKey_def exampleKey_def podName_def currentReplicas_def)

theorem drainScaleDown_waits_for_grace_witness:
  "fst (drainScaleDown memKube (exampleCache 1) (exampleWorld 1 2
     [cachePod ''c-0'' [], cachePod ''c-1'' [(drainAnnotation, ''100'')]] 130 [])) = Inr True"
proof -
  let ?pods = "[cachePod ''c-0'' [], cachePod ''c-1'' [(drainAnnotation, ''100'')]]"
  let ?w = "exampleWorld 1 2 ?pods 130 []"
  have num: "fmtInt 1 = ''1''" "ParseInt ''100'' = Some 100"
    by code_simp+
  have grace: "30 * Second \<le> instant (time_Unix 130) - instant (time_Unix 100)"
    by code_simp
  show ?thesis
  proof (subst drainScaleDown_waits_for_grace [of memKube _ ?w "exampleSet 2" ?w ?pods ?w "time_Unix 130" ?w],
      goal_cases)
    case 5
    show ?case
    proof (intro ballI allI impI)
      fix p j
      assume p: "p \<in> set ?pods" "Name p = podName (exampleCache 1) j"
        and j: "sint (specReplicas (exampleCache 1)) \<le> sint j" "sint j < sint (currentReplicas (exampleSet 2))"
      from j have "sint j = 1"
        by simp
      with p num have "p = cachePod ''c-1'' [(drainAnnotation, ''100'')]"
        by auto
      then show "\<exists>v ts. mapGet (Annotations p) drainAnnotation = Some v \<and> ParseInt v = Some ts \<and>
        sint (GracePeriodSeconds (Drain (Spec (exampleCache 1)))) * Second
          \<le> instant (time_Unix 130) - instant (time_Unix ts)"
        using num grace by simp
    qed
  qed simp_all
qed

text \<open>
  C34: the grace period is measured from the second the stamp was written in. A pod stamped at
  time \<open>t\<close> counts as drained in every pass from \<open>t\<close> plus the grace period on, and in no pass a
  second or more before that: stamps hold whole seconds, so a drain may end less than one second
  early and never late.
\<close>

theorem drain_stamp_timing:
  assumes "0 \<le> t_nsec t" "t_nsec t < Second"
  shows "let g = sint (GracePeriodSeconds (Drain (Spec cache))) * Second
    in (g \<le> instant now - instant t \<longrightarrow> drained now (graceDuration cache) (stamp t p))
    \<and> (drained now (graceDuration cache) (stamp t p) \<longrightarrow> g - Second < instant now - instant t)"
  using assms by (auto simp: drained_iff stamp_annotations instant_stamp Let_def)

theorem drain_stamp_timing_witness:
  "(let t = \<lparr>t_sec = 62135596900, t_nsec = 900000000\<rparr>; now = \<lparr>t_sec = 62135596930, t_nsec = 100000000\<rparr>;
        c = exampleCache 1; g = sint (GracePeriodSeconds (Drain (Spec c))) * Second
    in \<not> g \<le> instant now - instant t \<and> g - Second < instant now - instant t
      \<and> drained now (graceDuration c) (stamp t (cachePod ''c-1'' [])))"
proof -
  let ?t = "\<lparr>t_sec = 62135596900, t_nsec = 900000000\<rparr>"
  let ?now = "\<lparr>t_sec = 62135596930, t_nsec = 100000000\<rparr>"
  have "drained ?now (graceDuration (exampleCache 1)) (stamp ?t (cachePod ''c-1'' []))"
    by (simp add: drained_iff stamp_annotations instant_stamp) (simp add: instant_def Second_def)
  moreover have "\<not> 30 * Second \<le> instant ?now - instant ?t"
    by (simp add: instant_def Second_def)
  moreover have "0 \<le> t_nsec ?t" "t_nsec ?t < Second"
    by (simp_all add: Second_def)
  note drain_stamp_timing [OF this, of "exampleCache 1" ?now "cachePod ''c-1'' []"]
  ultimately show ?thesis
    by (simp add: Let_def)
qed

end
