(* ===== verification/Go_Json.thy ===== *)
theory Go_Json
  imports Ring
begin

text \<open>
  What the source uses of \<open>encoding/json\<close>: \<open>json.Marshal\<close> of a \<open>Ring\<close> and \<open>json.Unmarshal\<close> into
  one. Strings are byte strings, so the encoder's and decoder's treatment of UTF-8 is written
  out. \<open>Unmarshal\<close> is a lexer followed by a pushdown automaton over the tokens (the shape of
  Go's own scanner, with its parse-state stack and depth limit), then the assignment of the
  object's fields to the struct. The error text is not modelled: no caller reads it.

  The main lemma is the round trip: what the operator marshals, the operator and the client
  unmarshal to the same ring.
\<close>

section \<open>UTF-8\<close>

abbreviation byteOf :: "char \<Rightarrow> nat" where
  "byteOf c \<equiv> of_char c"

definition contByte :: "nat \<Rightarrow> nat \<Rightarrow> char \<Rightarrow> bool" where
  "contByte lo hi c \<longleftrightarrow> lo \<le> byteOf c \<and> byteOf c \<le> hi"

text \<open>The number of bytes of the well-formed multi-byte rune at the head; 0 if there is none.\<close>

fun runeLen :: "string \<Rightarrow> nat" where
  "runeLen (a # b # c # d # _) =
     (let x = byteOf a; t = contByte 0x80 0xBF
      in if 0xC2 \<le> x \<and> x \<le> 0xDF \<and> t b then 2
         else if x = 0xE0 \<and> contByte 0xA0 0xBF b \<and> t c then 3
         else if x = 0xED \<and> contByte 0x80 0x9F b \<and> t c then 3
         else if 0xE1 \<le> x \<and> x \<le> 0xEF \<and> x \<noteq> 0xED \<and> t b \<and> t c then 3
         else if x = 0xF0 \<and> contByte 0x90 0xBF b \<and> t c \<and> t d then 4
         else if x = 0xF4 \<and> contByte 0x80 0x8F b \<and> t c \<and> t d then 4
         else if 0xF1 \<le> x \<and> x \<le> 0xF3 \<and> t b \<and> t c \<and> t d then 4
         else 0)"
| "runeLen [a, b, c] =
     (let x = byteOf a; t = contByte 0x80 0xBF
      in if 0xC2 \<le> x \<and> x \<le> 0xDF \<and> t b then 2
         else if x = 0xE0 \<and> contByte 0xA0 0xBF b \<and> t c then 3
         else if x = 0xED \<and> contByte 0x80 0x9F b \<and> t c then 3
         else if 0xE1 \<le> x \<and> x \<le> 0xEF \<and> x \<noteq> 0xED \<and> t b \<and> t c then 3
         else 0)"
| "runeLen [a, b] =
     (let x = byteOf a in if 0xC2 \<le> x \<and> x \<le> 0xDF \<and> contByte 0x80 0xBF b then 2 else 0)"
| "runeLen _ = 0"

text \<open>\<open>utf8.EncodeRune\<close>.\<close>

definition encodeRune :: "nat \<Rightarrow> string" where
  "encodeRune r =
     (if r < 0x80 then [char_of r]
      else if r < 0x800 then [char_of (0xC0 + r div 64), char_of (0x80 + r mod 64)]
      else if r < 0x10000 then
        [char_of (0xE0 + r div 4096), char_of (0x80 + r div 64 mod 64), char_of (0x80 + r mod 64)]
      else [char_of (0xF0 + r div 262144), char_of (0x80 + r div 4096 mod 64),
            char_of (0x80 + r div 64 mod 64), char_of (0x80 + r mod 64)])"

definition replacementRune :: string where
  "replacementRune = encodeRune 0xFFFD"

section \<open>Marshal\<close>

definition hexDigit :: "nat \<Rightarrow> char" where
  "hexDigit n = (if n < 10 then digitChar n else char_of (87 + n))"

text \<open>The escape of one ASCII byte (HTML escaping is on, as in \<open>json.Marshal\<close>).\<close>

definition escByte :: "char \<Rightarrow> string" where
  "escByte c =
     (let b = byteOf c
      in if c = CHR 0x22 \<or> c = CHR 0x5C then [CHR 0x5C, c]
         else if b = 8 then [CHR 0x5C, CHR ''b'']
         else if b = 12 then [CHR 0x5C, CHR ''f'']
         else if b = 10 then [CHR 0x5C, CHR ''n'']
         else if b = 13 then [CHR 0x5C, CHR ''r'']
         else if b = 9 then [CHR 0x5C, CHR ''t'']
         else if b < 32 \<or> c = CHR ''<'' \<or> c = CHR ''>'' \<or> c = CHR ''&''
           then [CHR 0x5C, CHR ''u'', CHR ''0'', CHR ''0'', hexDigit (b div 16), hexDigit (b mod 16)]
         else [c])"

fun appendString :: "string \<Rightarrow> string" where
  "appendString [] = []"
| "appendString (c # cs) =
     (if byteOf c < 128 then escByte c @ appendString cs
      else (let k = runeLen (c # cs)
            in if k = 0 then CHR 0x5C # ''ufffd'' @ appendString cs
               else if take 3 (c # cs) = encodeRune 0x2028 then CHR 0x5C # ''u2028'' @ appendString (drop (k - 1) cs)
               else if take 3 (c # cs) = encodeRune 0x2029 then CHR 0x5C # ''u2029'' @ appendString (drop (k - 1) cs)
               else take k (c # cs) @ appendString (drop (k - 1) cs)))"

definition quoteJson :: "string \<Rightarrow> string" where
  "quoteJson s = CHR 0x22 # appendString s @ [CHR 0x22]"

fun joinJson :: "string list \<Rightarrow> string" where
  "joinJson [] = []"
| "joinJson [x] = quoteJson x"
| "joinJson (x # y # xs) = quoteJson x @ '','' @ joinJson (y # xs)"

definition marshalRing :: "Ring \<Rightarrow> string" where
  "marshalRing r = ''{'' @ quoteJson ''version'' @ '':'' @ FormatInt (Version r) @ '','' @
     quoteJson ''members'' @ '':['' @ joinJson (Members r) @ '']}''"

section \<open>Unmarshal: the lexer\<close>

datatype tok = TLBrace | TRBrace | TLBrack | TRBrack | TColon | TComma | TTrue | TFalse | TNull
  | TNum string | TStr string

definition hexVal :: "char \<Rightarrow> nat option" where
  "hexVal c =
     (let b = byteOf c
      in if 48 \<le> b \<and> b \<le> 57 then Some (b - 48)
         else if 97 \<le> b \<and> b \<le> 102 then Some (b - 87)
         else if 65 \<le> b \<and> b \<le> 70 then Some (b - 55)
         else None)"

fun getHex4 :: "string \<Rightarrow> nat option" where
  "getHex4 (a # b # c # d # _) =
     (case (hexVal a, hexVal b, hexVal c, hexVal d) of
        (Some i, Some j, Some k, Some l) \<Rightarrow> Some (((i * 16 + j) * 16 + k) * 16 + l)
      | _ \<Rightarrow> None)"
| "getHex4 _ = None"

definition isSurrogate :: "nat \<Rightarrow> bool" where
  "isSurrogate u \<longleftrightarrow> 0xD800 \<le> u \<and> u \<le> 0xDFFF"

text \<open>The rune of a high surrogate \<open>u\<close> followed in the input by an escaped low surrogate.\<close>

definition surrogatePair :: "nat \<Rightarrow> string \<Rightarrow> nat option" where
  "surrogatePair u s =
     (if take 2 s = [CHR 0x5C, CHR ''u''] then
        (case getHex4 (drop 2 s) of
           None \<Rightarrow> None
         | Some v \<Rightarrow>
             if 0xD800 \<le> u \<and> u \<le> 0xDBFF \<and> 0xDC00 \<le> v \<and> v \<le> 0xDFFF
             then Some ((u - 0xD800) * 1024 + (v - 0xDC00) + 0x10000) else None)
      else None)"

definition simpleEscape :: "char \<Rightarrow> char option" where
  "simpleEscape e =
     (if e = CHR 0x22 \<or> e = CHR 0x5C \<or> e = CHR ''/'' then Some e
      else if e = CHR ''b'' then Some (char_of (8::nat))
      else if e = CHR ''f'' then Some (char_of (12::nat))
      else if e = CHR ''n'' then Some (char_of (10::nat))
      else if e = CHR ''r'' then Some (char_of (13::nat))
      else if e = CHR ''t'' then Some (char_of (9::nat))
      else None)"

definition addOut :: "string \<Rightarrow> (string \<times> string) option \<Rightarrow> (string \<times> string) option" where
  "addOut p r = (case r of None \<Rightarrow> None | Some (s, rest) \<Rightarrow> Some (p @ s, rest))"

text \<open>The rest of a string literal after its opening quote: its value and what follows.\<close>

fun lexStr :: "string \<Rightarrow> (string \<times> string) option" where
  "lexStr [] = None"
| "lexStr (c # cs) =
     (if c = CHR 0x22 then Some ([], cs)
      else if c = CHR 0x5C then
        (case cs of
           [] \<Rightarrow> None
         | e # r \<Rightarrow>
             if e = CHR ''u'' then
               (case getHex4 r of
                  None \<Rightarrow> None
                | Some u \<Rightarrow>
                    if isSurrogate u then
                      (case surrogatePair u (drop 4 r) of
                         Some cp \<Rightarrow> addOut (encodeRune cp) (lexStr (drop 10 r))
                       | None \<Rightarrow> addOut replacementRune (lexStr (drop 4 r)))
                    else addOut (encodeRune u) (lexStr (drop 4 r)))
             else
               (case simpleEscape e of
                  None \<Rightarrow> None
                | Some ch \<Rightarrow> addOut [ch] (lexStr r)))
      else if byteOf c < 32 then None
      else if byteOf c < 128 then addOut [c] (lexStr cs)
      else (let k = runeLen (c # cs)
            in if k = 0 then addOut replacementRune (lexStr cs)
               else addOut (take k (c # cs)) (lexStr (drop (k - 1) cs))))"

declare lexStr.simps(2) [simp del]

text \<open>A number literal: sign, integer part without leading zeros, fraction, exponent.\<close>

definition lexFrac :: "string \<Rightarrow> (string \<times> string) option" where
  "lexFrac s =
     (if s \<noteq> [] \<and> hd s = CHR ''.'' then
        (let ds = takeWhile isDigit (tl s)
         in if ds = [] then None else Some (CHR ''.'' # ds, drop (length ds) (tl s)))
      else Some ([], s))"

definition lexExp :: "string \<Rightarrow> (string \<times> string) option" where
  "lexExp s =
     (if s \<noteq> [] \<and> (hd s = CHR ''e'' \<or> hd s = CHR ''E'') then
        (let sg = (if tl s \<noteq> [] \<and> (hd (tl s) = CHR ''+'' \<or> hd (tl s) = CHR ''-'') then [hd (tl s)] else []);
             body = drop (length sg) (tl s);
             ds = takeWhile isDigit body
         in if ds = [] then None else Some (hd s # sg @ ds, drop (length ds) body))
      else Some ([], s))"

definition lexNum :: "string \<Rightarrow> (string \<times> string) option" where
  "lexNum s =
     (let sg = (if s \<noteq> [] \<and> hd s = CHR ''-'' then ''-'' else []);
          body = drop (length sg) s;
          ds = takeWhile isDigit body
      in if ds = [] then None
         else (let ip = (if hd ds = CHR ''0'' then [CHR ''0''] else ds)
               in case lexFrac (drop (length ip) body) of
                    None \<Rightarrow> None
                  | Some (fr, r1) \<Rightarrow>
                      (case lexExp r1 of
                         None \<Rightarrow> None
                       | Some (ex, r2) \<Rightarrow> Some (sg @ ip @ fr @ ex, r2))))"

lemma addOut_rest: "addOut p r = Some (s, rest) \<Longrightarrow> \<exists>s'. r = Some (s', rest)"
  by (auto simp: addOut_def split: option.splits)

lemma lexStr_length: "lexStr s = Some (v, r) \<Longrightarrow> length r < length s"
proof (induction s arbitrary: v rule: length_induct)
  case (1 s)
  have IH: "length r < length s" if "lexStr t = Some (v', r)" "length t < length s" for t v'
    using "1.IH" that by fastforce
  show ?case
  proof (cases s)
    case Nil
    with "1.prems" show ?thesis by simp
  next
    case (Cons c cs)
    with "1.prems" show ?thesis
      by (auto simp: lexStr.simps(2) Let_def split: if_splits list.splits option.splits
          dest!: addOut_rest dest!: IH)
  qed
qed

lemma lexFrac_length: "lexFrac s = Some (f, r) \<Longrightarrow> length r \<le> length s"
  by (auto simp: lexFrac_def Let_def split: if_splits)

lemma lexExp_length: "lexExp s = Some (f, r) \<Longrightarrow> length r \<le> length s"
  by (auto simp: lexExp_def Let_def split: if_splits)

lemma lexNum_length: "lexNum s = Some (f, r) \<Longrightarrow> length r < length s"
proof -
  assume num: "lexNum s = Some (f, r)"
  then have "0 < length s"
    by (cases s) (auto simp: lexNum_def)
  with num show ?thesis
    by (auto simp: lexNum_def Let_def split: if_splits option.splits
        dest!: lexFrac_length lexExp_length simp flip: length_greater_0_conv)
qed

definition addTok :: "tok \<Rightarrow> tok list option \<Rightarrow> tok list option" where
  "addTok t r = (case r of None \<Rightarrow> None | Some ts \<Rightarrow> Some (t # ts))"

function lexJson :: "string \<Rightarrow> tok list option" where
  "lexJson [] = Some []"
| "lexJson (c # cs) =
     (if c = CHR 0x20 \<or> c = CHR 0x09 \<or> c = CHR 0x0D \<or> c = CHR 0x0A then lexJson cs
      else if c = CHR 0x7B then addTok TLBrace (lexJson cs)
      else if c = CHR 0x7D then addTok TRBrace (lexJson cs)
      else if c = CHR 0x5B then addTok TLBrack (lexJson cs)
      else if c = CHR 0x5D then addTok TRBrack (lexJson cs)
      else if c = CHR 0x3A then addTok TColon (lexJson cs)
      else if c = CHR 0x2C then addTok TComma (lexJson cs)
      else if HasPrefix (c # cs) ''true'' then addTok TTrue (lexJson (drop 3 cs))
      else if HasPrefix (c # cs) ''false'' then addTok TFalse (lexJson (drop 4 cs))
      else if HasPrefix (c # cs) ''null'' then addTok TNull (lexJson (drop 3 cs))
      else if c = CHR 0x22 then
        (case lexStr cs of None \<Rightarrow> None | Some (v, r) \<Rightarrow> addTok (TStr v) (lexJson r))
      else
        (case lexNum (c # cs) of None \<Rightarrow> None | Some (v, r) \<Rightarrow> addTok (TNum v) (lexJson r)))"
  by pat_completeness auto
termination
  by (relation "measure length") (auto dest: lexStr_length lexNum_length)

declare lexJson.simps(2) [simp del]

section \<open>Unmarshal: the parser\<close>

datatype json = JNull | JBool bool | JNum string | JStr string | JArr "json list"
  | JObj "(string \<times> json) list"

text \<open>
  An open array with its elements so far, or an open object with its members so far and the
  key whose value is being read (both in reverse).
\<close>

datatype frame = FArr "json list" | FObj "(string \<times> json) list" string

datatype pstate = SVal | SArr0 | SObj0 | SKey | SColon | SAfter json

definition maxNestingDepth :: nat where
  "maxNestingDepth = 10000"

fun beginValue :: "frame list \<Rightarrow> tok \<Rightarrow> (pstate \<times> frame list) option" where
  "beginValue stk TNull = Some (SAfter JNull, stk)"
| "beginValue stk TTrue = Some (SAfter (JBool True), stk)"
| "beginValue stk TFalse = Some (SAfter (JBool False), stk)"
| "beginValue stk (TNum n) = Some (SAfter (JNum n), stk)"
| "beginValue stk (TStr v) = Some (SAfter (JStr v), stk)"
| "beginValue stk TLBrack = (if length stk < maxNestingDepth then Some (SArr0, FArr [] # stk) else None)"
| "beginValue stk TLBrace = (if length stk < maxNestingDepth then Some (SObj0, FObj [] [] # stk) else None)"
| "beginValue stk _ = None"

fun beginKey :: "frame list \<Rightarrow> tok \<Rightarrow> (pstate \<times> frame list) option" where
  "beginKey (FObj fs _ # stk) (TStr k) = Some (SColon, FObj fs k # stk)"
| "beginKey stk _ = None"

fun endValue :: "json \<Rightarrow> frame list \<Rightarrow> tok \<Rightarrow> (pstate \<times> frame list) option" where
  "endValue v (FArr xs # stk) TComma = Some (SVal, FArr (v # xs) # stk)"
| "endValue v (FArr xs # stk) TRBrack = Some (SAfter (JArr (rev (v # xs))), stk)"
| "endValue v (FObj fs k # stk) TComma = Some (SKey, FObj ((k, v) # fs) [] # stk)"
| "endValue v (FObj fs k # stk) TRBrace = Some (SAfter (JObj (rev ((k, v) # fs))), stk)"
| "endValue v stk _ = None"

fun pstep :: "pstate \<Rightarrow> frame list \<Rightarrow> tok \<Rightarrow> (pstate \<times> frame list) option" where
  "pstep SVal stk t = beginValue stk t"
| "pstep SArr0 stk t = (if t = TRBrack then Some (SAfter (JArr []), tl stk) else beginValue stk t)"
| "pstep SObj0 stk t = (if t = TRBrace then Some (SAfter (JObj []), tl stk) else beginKey stk t)"
| "pstep SKey stk t = beginKey stk t"
| "pstep SColon stk t = (if t = TColon then Some (SVal, stk) else None)"
| "pstep (SAfter v) stk t = endValue v stk t"

fun prun :: "pstate \<Rightarrow> frame list \<Rightarrow> tok list \<Rightarrow> json option" where
  "prun st stk [] = (case st of SAfter v \<Rightarrow> if stk = [] then Some v else None | _ \<Rightarrow> None)"
| "prun st stk (t # ts) =
     (case pstep st stk t of None \<Rightarrow> None | Some (st', stk') \<Rightarrow> prun st' stk' ts)"

definition parseJson :: "string \<Rightarrow> json option" where
  "parseJson s = (case lexJson s of None \<Rightarrow> None | Some ts \<Rightarrow> prun SVal [] ts)"

section \<open>Unmarshal: the fields of a Ring\<close>

text \<open>
  Keys match a field exactly or up to case; \<open>foldName\<close> is Go's folding, which also maps the long
  s (bytes C5 BF) to S. A JSON null leaves a field as it is (nil for the slice); a value of the
  wrong type is an error, and so is a number that is not an \<open>int64\<close>. Null array elements are the
  empty string.
\<close>

fun foldName :: "string \<Rightarrow> string" where
  "foldName [] = []"
| "foldName [c] = [if 97 \<le> byteOf c \<and> byteOf c \<le> 122 then char_of (byteOf c - 32) else c]"
| "foldName (c # d # cs) =
     (if c = CHR 0xC5 \<and> d = CHR 0xBF then CHR ''S'' # foldName cs
      else (if 97 \<le> byteOf c \<and> byteOf c \<le> 122 then char_of (byteOf c - 32) else c) # foldName (d # cs))"

fun decodeStrings :: "json list \<Rightarrow> string list option" where
  "decodeStrings [] = Some []"
| "decodeStrings (j # js) =
     (case j of
        JStr v \<Rightarrow> map_option ((#) v) (decodeStrings js)
      | JNull \<Rightarrow> map_option ((#) []) (decodeStrings js)
      | _ \<Rightarrow> None)"

definition decodeVersion :: "json \<Rightarrow> Ring \<Rightarrow> Ring option" where
  "decodeVersion j r =
     (case j of
        JNull \<Rightarrow> Some r
      | JNum n \<Rightarrow> map_option (\<lambda>v. r\<lparr>Version := v\<rparr>) (ParseInt n)
      | _ \<Rightarrow> None)"

definition decodeMembers :: "json \<Rightarrow> Ring \<Rightarrow> Ring option" where
  "decodeMembers j r =
     (case j of
        JNull \<Rightarrow> Some (r\<lparr>Members := []\<rparr>)
      | JArr js \<Rightarrow> map_option (\<lambda>ms. r\<lparr>Members := ms\<rparr>) (decodeStrings js)
      | _ \<Rightarrow> None)"

definition decodeField :: "string \<Rightarrow> json \<Rightarrow> Ring \<Rightarrow> Ring option" where
  "decodeField k j r =
     (if foldName k = ''VERSION'' then decodeVersion j r
      else if foldName k = ''MEMBERS'' then decodeMembers j r
      else Some r)"

fun decodeFields :: "(string \<times> json) list \<Rightarrow> Ring \<Rightarrow> Ring option" where
  "decodeFields [] r = Some r"
| "decodeFields ((k, j) # fs) r =
     (case decodeField k j r of None \<Rightarrow> None | Some r' \<Rightarrow> decodeFields fs r')"

definition zeroRing :: Ring where
  "zeroRing = \<lparr>Version = 0, Members = []\<rparr>"

definition decodeRing :: "json \<Rightarrow> Ring option" where
  "decodeRing j =
     (case j of
        JNull \<Rightarrow> Some zeroRing
      | JObj fs \<Rightarrow> decodeFields fs zeroRing
      | _ \<Rightarrow> None)"

definition unmarshalRing :: "string \<Rightarrow> goerr + Ring" where
  "unmarshalRing s =
     (case parseJson s of
        None \<Rightarrow> Inl (OtherErr ''json: invalid syntax'')
      | Some j \<Rightarrow>
          (case decodeRing j of
             None \<Rightarrow> Inl (OtherErr ''json: cannot unmarshal'')
           | Some r \<Rightarrow> Inr r))"

section \<open>The round trip\<close>

definition ascii :: "string \<Rightarrow> bool" where
  "ascii s \<longleftrightarrow> (\<forall>c \<in> set s. byteOf c < 128)"

lemma ascii_simps [simp]: "ascii []" "ascii (c # cs) \<longleftrightarrow> byteOf c < 128 \<and> ascii cs"
  by (simp_all add: ascii_def)

lemma addOut_simps [simp]: "addOut p (Some (s, r)) = Some (p @ s, r)" "addOut p None = None"
  by (simp_all add: addOut_def)

lemma hexVal_hexDigit [simp]: "n < 16 \<Longrightarrow> hexVal (hexDigit n) = Some n"
  by (auto simp: hexVal_def hexDigit_def digitChar_def Let_def)

lemma getHex4_low:
  "n < 256 \<Longrightarrow> getHex4 (CHR ''0'' # CHR ''0'' # hexDigit (n div 16) # hexDigit (n mod 16) # r) = Some n"
  by (simp add: hexVal_def [of "CHR ''0''"] div_mult_mod_eq [of n 16])

lemma lexStr_escaped_byte:
  "n < 128 \<Longrightarrow> lexStr (CHR 0x5C # CHR ''u'' # CHR ''0'' # CHR ''0'' # hexDigit (n div 16)
     # hexDigit (n mod 16) # r) = addOut [char_of n] (lexStr r)"
  by (simp add: lexStr.simps(2) getHex4_low isSurrogate_def encodeRune_def del: getHex4.simps)

lemma lexStr_simple_escape:
  "e \<noteq> CHR ''u'' \<Longrightarrow> simpleEscape e = Some ch \<Longrightarrow> lexStr (CHR 0x5C # e # r) = addOut [ch] (lexStr r)"
  by (simp add: lexStr.simps(2))

lemma char_eq_of: "byteOf c = n \<Longrightarrow> char_of n = c"
  by auto

lemma lexStr_escByte: "byteOf c < 128 \<Longrightarrow> lexStr (escByte c @ r) = addOut [c] (lexStr r)"
proof -
  assume c: "byteOf c < 128"
  let ?special = "byteOf c < 32 \<or> c = CHR ''<'' \<or> c = CHR ''>'' \<or> c = CHR ''&''"
  consider (quote) "c = CHR 0x22 \<or> c = CHR 0x5C"
    | (short) "byteOf c \<in> {8, 9, 10, 12, 13}"
    | (long) "c \<noteq> CHR 0x22" "c \<noteq> CHR 0x5C" "byteOf c \<notin> {8, 9, 10, 12, 13}" ?special
    | (plain) "c \<noteq> CHR 0x22" "c \<noteq> CHR 0x5C" "byteOf c \<notin> {8, 9, 10, 12, 13}" "\<not> ?special"
    by blast
  then show ?thesis
  proof cases
    case quote
    then have "simpleEscape c = Some c" "c \<noteq> CHR ''u''" "escByte c = [CHR 0x5C, c]"
      by (auto simp: simpleEscape_def escByte_def)
    then show ?thesis
      using lexStr_simple_escape [of c c r] by simp
  next
    case short
    then have "c = char_of (byteOf c)" "c \<noteq> CHR 0x22" "c \<noteq> CHR 0x5C"
      by auto
    with short show ?thesis
      by (auto simp: escByte_def Let_def lexStr_simple_escape simpleEscape_def dest: char_eq_of)
  next
    case long
    then have "escByte c = [CHR 0x5C, CHR ''u'', CHR ''0'', CHR ''0'',
        hexDigit (byteOf c div 16), hexDigit (byteOf c mod 16)]"
      by (simp add: escByte_def Let_def)
    then show ?thesis
      using lexStr_escaped_byte [OF c, of r] by simp
  next
    case plain
    then have "escByte c = [c]"
      by (simp add: escByte_def Let_def)
    then show ?thesis
      using c plain by (simp add: lexStr.simps(2))
  qed
qed

lemma lexStr_appendString:
  "ascii s \<Longrightarrow> lexStr (appendString s @ CHR 0x22 # r) = Some (s, r)"
  by (induction s) (simp_all add: lexStr_escByte lexStr.simps(2) [of "CHR 0x22" r])

lemma lex_quoteJson: "ascii s \<Longrightarrow> lexJson (quoteJson s @ r) = addTok (TStr s) (lexJson r)"
  by (simp add: quoteJson_def lexJson.simps(2) HasPrefix_def lexStr_appendString)

lemma lex_punct:
  "lexJson (CHR 0x7B # r) = addTok TLBrace (lexJson r)" "lexJson (CHR 0x7D # r) = addTok TRBrace (lexJson r)"
  "lexJson (CHR 0x5B # r) = addTok TLBrack (lexJson r)" "lexJson (CHR 0x5D # r) = addTok TRBrack (lexJson r)"
  "lexJson (CHR 0x3A # r) = addTok TColon (lexJson r)" "lexJson (CHR 0x2C # r) = addTok TComma (lexJson r)"
  by (simp_all add: lexJson.simps(2))

lemma digitChar_zero: "n < 10 \<Longrightarrow> digitChar n = CHR ''0'' \<longleftrightarrow> n = 0"
proof -
  have "digitVal (CHR ''0'') = Some 0"
    by (simp add: digitVal_def)
  then show "n < 10 \<Longrightarrow> ?thesis"
    by (metis digitChar_digitVal digitVal_digitChar option.inject)
qed

lemma hd_fmtNat_zero: "hd (fmtNat n) = CHR ''0'' \<longleftrightarrow> n = 0"
proof (induction n rule: fmtNat.induct)
  case (1 n)
  show ?case
  proof (cases "n < 10")
    case True
    then show ?thesis
      by (simp add: fmtNat.simps [of n] digitChar_zero)
  next
    case False
    with "1.IH" show ?thesis
      by (auto simp: fmtNat.simps [of n])
  qed
qed

lemma takeWhile_fmtNat: "\<not> isDigit c \<Longrightarrow> takeWhile isDigit (fmtNat n @ c # r) = fmtNat n"
  by (subst takeWhile_append2) (auto dest: fmtNat_digits)

lemma fmtNat_zero: "fmtNat 0 = ''0''"
  by (simp add: fmtNat.simps digitChar_zero)

lemma lexNum_fmtInt: "lexNum (fmtInt i @ CHR '','' # r) = Some (fmtInt i, CHR '','' # r)"
proof -
  have d: "\<not> isDigit (CHR '','')"
    by (simp add: isDigit_def digitVal_def)
  have fr: "lexFrac (CHR '','' # r) = Some ([], CHR '','' # r)"
    and ex: "lexExp (CHR '','' # r) = Some ([], CHR '','' # r)"
    by (simp_all add: lexFrac_def lexExp_def)
  show ?thesis
    by (cases "i < 0")
      (simp_all add: lexNum_def fmtInt_def Let_def takeWhile_fmtNat d hd_fmtNat_zero fmtNat_zero fr ex)
qed

lemma lex_number:
  assumes "s \<noteq> []" "isDigit (hd s) \<or> hd s = CHR ''-''"
  shows "lexJson s = (case lexNum s of None \<Rightarrow> None | Some (v, r) \<Rightarrow> addTok (TNum v) (lexJson r))"
proof -
  obtain c cs where s: "s = c # cs"
    using assms(1) by (cases s) auto
  have "c \<notin> {CHR 0x20, CHR 0x09, CHR 0x0D, CHR 0x0A, CHR 0x7B, CHR 0x7D, CHR 0x5B, CHR 0x5D,
      CHR 0x3A, CHR 0x2C, CHR 0x22, CHR ''t'', CHR ''f'', CHR ''n''}"
    using assms(2) s by (auto simp: isDigit_def digitVal_def Let_def split: if_splits)
  then show ?thesis
    by (simp add: s lexJson.simps(2) HasPrefix_def)
qed

lemma lex_fmtInt:
  "lexJson (fmtInt i @ CHR '','' # r) = addTok (TNum (fmtInt i)) (addTok TComma (lexJson r))"
proof -
  have "isDigit (hd (fmtNat (nat i)))"
    by (rule fmtNat_digits, rule hd_in_set, simp)
  then have "isDigit (hd (fmtInt i @ CHR '','' # r)) \<or> hd (fmtInt i @ CHR '','' # r) = CHR ''-''"
    by (simp add: fmtInt_def)
  then show ?thesis
    using lexNum_fmtInt [of i r] by (simp add: lex_number lex_punct)
qed

fun memberToks :: "string list \<Rightarrow> tok list" where
  "memberToks [] = []"
| "memberToks [x] = [TStr x]"
| "memberToks (x # y # xs) = TStr x # TComma # memberToks (y # xs)"

lemma addTok_map: "addTok t r = map_option ((#) t) r"
  by (cases r) (simp_all add: addTok_def)

lemma lex_joinJson:
  "\<forall>m \<in> set ms. ascii m \<Longrightarrow>
   lexJson (joinJson ms @ r) = (case lexJson r of None \<Rightarrow> None | Some ts \<Rightarrow> Some (memberToks ms @ ts))"
  by (induction ms rule: joinJson.induct)
    (simp_all add: lex_quoteJson lex_punct addTok_map split: option.splits)

lemma prun_members:
  "ms \<noteq> [] \<Longrightarrow> prun SVal (FArr xs # stk) (memberToks ms @ TRBrack # ts)
    = prun (SAfter (JArr (rev xs @ map JStr ms))) stk ts"
  by (induction ms arbitrary: xs rule: memberToks.induct) simp_all

lemma prun_array:
  "prun SArr0 (FArr [] # stk) (memberToks ms @ TRBrack # ts) = prun (SAfter (JArr (map JStr ms))) stk ts"
proof (cases "ms = []")
  case True
  then show ?thesis by simp
next
  case False
  then obtain m us where us: "memberToks ms @ TRBrack # ts = TStr m # us"
    by (cases ms rule: memberToks.cases) auto
  have "prun SArr0 (FArr [] # stk) (TStr m # us) = prun SVal (FArr [] # stk) (TStr m # us)"
    by simp
  then show ?thesis
    using prun_members [OF False, of "[]" stk ts] by (simp only: us) simp
qed

lemma decodeStrings_JStr: "decodeStrings (map JStr ms) = Some ms"
  by (induction ms) simp_all

definition ringJson :: "Ring \<Rightarrow> json" where
  "ringJson r = JObj [(''version'', JNum (FormatInt (Version r))), (''members'', JArr (map JStr (Members r)))]"

lemma parse_marshalRing:
  assumes "\<forall>m \<in> set (Members r). ascii m"
  shows "parseJson (marshalRing r) = Some (ringJson r)"
proof -
  have "lexJson (marshalRing r) = Some ([TLBrace, TStr ''version'', TColon, TNum (FormatInt (Version r)),
      TComma, TStr ''members'', TColon, TLBrack] @ memberToks (Members r) @ [TRBrack, TRBrace])"
    using assms by (simp add: marshalRing_def FormatInt_def lex_punct lex_quoteJson lex_fmtInt
        lex_joinJson addTok_map)
  then show ?thesis
    by (simp add: parseJson_def maxNestingDepth_def prun_array ringJson_def)
qed

lemma foldName_fields: "foldName ''version'' = ''VERSION''" "foldName ''members'' = ''MEMBERS''"
  by code_simp+

lemma decode_ringJson: "decodeRing (ringJson r) = Some r"
  by (simp add: decodeRing_def ringJson_def decodeField_def foldName_fields decodeVersion_def
      decodeMembers_def decodeStrings_JStr zeroRing_def del: foldName.simps)

lemma unmarshal_marshal:
  "\<forall>m \<in> set (Members r). ascii m \<Longrightarrow> unmarshalRing (marshalRing r) = Inr r"
  by (simp add: unmarshalRing_def parse_marshalRing decode_ringJson)

section \<open>Property\<close>

text \<open>
  C17: decoding what the operator encodes gives the ring back, version (any \<open>int64\<close>) and members,
  for every list of ASCII member names; quotes, control characters and the HTML-escaped bytes
  included.
\<close>

theorem ring_json_roundtrip:
  "\<forall>m \<in> set (Members r). ascii m \<Longrightarrow> unmarshalRing (marshalRing r) = Inr r"
  by (rule unmarshal_marshal)

theorem ring_json_roundtrip_witness:
  "unmarshalRing (marshalRing \<lparr>Version = -3, Members = [''orders-cache-0'', ''a<b'', [CHR 0x22]]\<rparr>)
    = Inr \<lparr>Version = -3, Members = [''orders-cache-0'', ''a<b'', [CHR 0x22]]\<rparr>"
  by (rule ring_json_roundtrip) simp

end
