(* ===== verification/Publish.thy ===== *)
theory Publish
  imports Workload Go_Json
begin

text \<open>
  \<open>reconcileRing\<close> of \<open>distributedcache_controller.go\<close>: the members are computed from the listed
  pods, compared with the ring the ConfigMap holds, and published under the next version when
  they differ.
\<close>

section \<open>The operation\<close>

definition ringConfigMapName :: "DistributedCache \<Rightarrow> string" where
  "ringConfigMapName cache = Name cache @ ''-ring''"

definition ringConfigMapKey :: string where
  "ringConfigMapKey = ''ring.json''"

definition ringKey :: "DistributedCache \<Rightarrow> NamespacedName" where
  "ringKey cache = \<lparr>nn_Namespace = targetNamespace cache, nn_Name = ringConfigMapName cache\<rparr>"

text \<open>The ring a ConfigMap holds: the zero ring without a payload or with one that does not parse.\<close>

definition currentRing :: "strmap \<Rightarrow> Ring" where
  "currentRing data =
     (case mapGet data ringConfigMapKey of
        None \<Rightarrow> zeroRing
      | Some s \<Rightarrow> (case unmarshalRing s of Inl _ \<Rightarrow> zeroRing | Inr parsed \<Rightarrow> parsed))"

definition desiredRing :: "string list \<Rightarrow> Ring \<Rightarrow> Ring" where
  "desiredRing members current =
     (let desired = \<lparr>Version = 0, Members = members\<rparr>
      in if MembersEqual desired current then desired\<lparr>Version := Version current\<rparr>
         else desired\<lparr>Version := Version current + 1\<rparr>)"

definition mutateRing :: "'w kube \<Rightarrow> DistributedCache \<Rightarrow> string \<Rightarrow> ConfigMap mutate" where
  "mutateRing K cache payload cm =
     setControllerReferenceIfSameNamespace K cache
       (cm\<lparr>Labels := setLabels cache ''ring'' (Labels cm),
           Data := mapPut ringConfigMapKey payload (Data cm)\<rparr>)"

definition newRingConfigMap :: "DistributedCache \<Rightarrow> ConfigMap" where
  "newRingConfigMap cache = ObjectMeta.extend (newMeta (ringConfigMapName cache) (targetNamespace cache))
     (ConfigMap.fields [])"

definition ringPublishedEvent :: "OperationResult \<Rightarrow> ConfigMap \<Rightarrow> Ring \<Rightarrow> Event" where
  "ringPublishedEvent op cm desired = normalEvent ''RingPublished''
     (''Ring '' @ Namespace cm @ ''/'' @ Name cm @ '' '' @ opString op @ '' (version=''
      @ FormatInt (Version desired) @ '', members='' @ fmtSlice (Members desired) @ '')'')"

text \<open>The write at the end; \<open>json.Marshal\<close> does not fail on a \<open>Ring\<close>.\<close>

definition publishRing :: "'w kube \<Rightarrow> DistributedCache \<Rightarrow> Ring \<Rightarrow> ('w, Ring) request" where
  "publishRing K cache desired w =
     (case CreateOrUpdate_CM K (newRingConfigMap cache) (mutateRing K cache (marshalRing desired)) w of
        (Inl e, w) \<Rightarrow> (Inl (Wrapped ''CreateOrUpdate ring ConfigMap'' e), w)
      | (Inr (op, cm), w) \<Rightarrow>
          (Inr desired,
           if op \<noteq> OperationResultNone then Eventf K cache (ringPublishedEvent op cm desired) w else w))"

definition reconcileRing :: "'w kube \<Rightarrow> DistributedCache \<Rightarrow> ('w, Ring) request" where
  "reconcileRing K cache w =
     (case List_Pods K (targetNamespace cache) (podLabels cache) w of
        (Inl e, w) \<Rightarrow> (Inl (Wrapped ''list pods'' e), w)
      | (Inr pods, w) \<Rightarrow>
          (let desiredMembers = computeMembers (SortSlice K) pods
           in case Get_CM K (ringKey cache) w of
                (res, w) \<Rightarrow>
                  (case res of
                     Inl e \<Rightarrow>
                       if \<not> IsNotFound e then (Inl (Wrapped ''get ring ConfigMap'' e), w)
                       else publishRing K cache (desiredRing desiredMembers zeroRing) w
                   | Inr cm \<Rightarrow>
                       (let current = currentRing (Data cm);
                            desired = desiredRing desiredMembers current
                        in if ringEqual desired current \<and> 0 < length (Data cm) then (Inr desired, w)
                           else publishRing K cache desired w))))"

lemma publishRing_runs [run_rules]: "publishRing K cache desired w = (r, w') \<Longrightarrow> runs K w w'"
  by (auto simp: publishRing_def dest!: run_rules split: prod.splits sum.splits if_splits)

lemma reconcileRing_runs [run_rules]: "reconcileRing K cache w = (r, w') \<Longrightarrow> runs K w w'"
  by (auto simp: reconcileRing_def Let_def dest!: run_rules split: prod.splits sum.splits if_splits
      intro: rtranclp_trans)

section \<open>The specification of publishing\<close>

text \<open>A ring is replaced only when its members change, and then under the next version.\<close>

definition nextRing :: "string list \<Rightarrow> Ring \<Rightarrow> Ring" where
  "nextRing ms r = (if ms = Members r then r else \<lparr>Version = Version r + 1, Members = ms\<rparr>)"

lemma desiredRing_next: "desiredRing ms r = nextRing ms r"
  by (cases r) (auto simp: desiredRing_def nextRing_def Let_def)

lemma nextRing_members [simp]: "Members (nextRing ms r) = ms"
  by (simp add: nextRing_def)

lemma nextRing_same [simp]: "nextRing (Members r) r = r"
  by (simp add: nextRing_def)

lemma nextRing_eq_iff: "nextRing ms r = r \<longleftrightarrow> ms = Members r"
  by (metis nextRing_members nextRing_same)

text \<open>The ring stored under a key.\<close>

definition ringAt :: "NamespacedName \<Rightarrow> cluster \<Rightarrow> Ring" where
  "ringAt k v = (case v_cm v k of None \<Rightarrow> zeroRing | Some cm \<Rightarrow> currentRing (Data cm))"

definition asciiPods :: "cluster \<Rightarrow> bool" where
  "asciiPods v \<longleftrightarrow> (\<forall>p \<in> set (v_pods v). ascii (Name p))"

lemma currentRing_put:
  "\<forall>m \<in> set (Members r). ascii m \<Longrightarrow> currentRing (mapPut ringConfigMapKey (marshalRing r) data) = r"
  by (simp add: currentRing_def unmarshal_marshal)

lemma mutateRing_data:
  "mutateRing K cache payload cm = Inr d \<Longrightarrow> Data d = mapPut ringConfigMapKey payload (Data cm)"
  by (auto simp: mutateRing_def setControllerReferenceIfSameNamespace_def split: if_splits sum.splits)

lemma keyOf_newRingConfigMap [simp]: "keyOf (newRingConfigMap cache) = ringKey cache"
  by (simp add: keyOf_def newRingConfigMap_def ringKey_def ObjectMeta.extend_def newMeta_def)

lemma publishRing_ok: "fst (publishRing K cache q w) = Inr r \<Longrightarrow> r = q"
  by (auto simp: publishRing_def split: sum.splits prod.splits if_splits)

text \<open>The four ways a pass ends.\<close>

lemma reconcileRing_elim:
  assumes "reconcileRing K cache w = (r, w')"
  obtains (no_list) e where "List_Pods K (targetNamespace cache) (podLabels cache) w = (Inl e, w')"
      "r = Inl (Wrapped ''list pods'' e)"
    | (no_get) pods w1 e where "List_Pods K (targetNamespace cache) (podLabels cache) w = (Inr pods, w1)"
      "Get_CM K (ringKey cache) w1 = (Inl e, w')" "\<not> IsNotFound e" "r = Inl (Wrapped ''get ring ConfigMap'' e)"
    | (same) pods w1 cm where "List_Pods K (targetNamespace cache) (podLabels cache) w = (Inr pods, w1)"
      "Get_CM K (ringKey cache) w1 = (Inr cm, w')"
      "computeMembers (SortSlice K) pods = Members (currentRing (Data cm))" "r = Inr (currentRing (Data cm))"
    | (publish) pods w1 res w2 current where
      "List_Pods K (targetNamespace cache) (podLabels cache) w = (Inr pods, w1)"
      "Get_CM K (ringKey cache) w1 = (res, w2)"
      "(\<exists>cm. res = Inr cm \<and> current = currentRing (Data cm)) \<or> (\<exists>e. res = Inl e \<and> IsNotFound e \<and> current = zeroRing)"
      "publishRing K cache (nextRing (computeMembers (SortSlice K) pods) current) w2 = (r, w')"
  using assms
  by (auto simp: reconcileRing_def Let_def desiredRing_next nextRing_eq_iff
      split: sum.splits prod.splits if_splits)

context cluster_api
begin

lemma publishRing_view:
  assumes "publishRing K cache q w = (r, w')" and "\<forall>m \<in> set (Members q). ascii m"
  shows "(\<exists>e. r = Inl e \<and> view w' = view w) \<or>
    ((r = Inr q \<or> (\<exists>e. r = Inl e)) \<and> (\<exists>c. currentRing (Data c) = q
       \<and> view w' = (view w)\<lparr>v_cm := (v_cm (view w))(ringKey cache \<mapsto> c)\<rparr>))"
proof -
  let ?f = "mutateRing K cache (marshalRing q)"
  obtain u w1 where u: "CreateOrUpdate_CM K (newRingConfigMap cache) ?f w = (u, w1)"
    by (cases "CreateOrUpdate_CM K (newRingConfigMap cache) ?f w")
  have "view w' = view w1" "(\<exists>e. u = Inl e) \<longleftrightarrow> (\<exists>e. r = Inl e)" "r = Inr q \<or> (\<exists>e. r = Inl e)"
    using assms(1) u by (auto simp: publishRing_def event_view split: sum.splits prod.splits if_splits)
  moreover from apply_cm [OF u] have "(\<exists>e. u = Inl e \<and> view w1 = view w) \<or>
    (\<exists>c. currentRing (Data c) = q \<and> view w1 = (view w)\<lparr>v_cm := (v_cm (view w))(ringKey cache \<mapsto> c)\<rparr>)"
  proof (elim disjE exE conjE)
    fix d c
    assume "?f (baseObj (v_cm (view w) (keyOf (newRingConfigMap cache))) (newRingConfigMap cache)) = Inr d"
      and c: "Data c = Data d"
        "view w1 = (view w)\<lparr>v_cm := (v_cm (view w))(keyOf (newRingConfigMap cache) \<mapsto> c)\<rparr>"
    then have "currentRing (Data c) = q"
      using assms(2) by (simp add: mutateRing_data currentRing_put)
    with c(2) show ?thesis by auto
  qed simp
  ultimately show ?thesis by auto
qed

lemma reconcileRing_view:
  assumes run: "reconcileRing K cache w = (r, w')" and srt: "member_sort (SortSlice K)"
    and ascii: "asciiPods (view w)"
  defines "q \<equiv> nextRing (computeMembers (SortSlice K) (cellPods cache (view w))) (ringAt (ringKey cache) (view w))"
  shows "(\<exists>e. r = Inl e \<and> view w' = view w) \<or> (r = Inr q \<and> view w' = view w \<and> ringAt (ringKey cache) (view w) = q) \<or>
    ((r = Inr q \<or> (\<exists>e. r = Inl e)) \<and> (\<exists>c. currentRing (Data c) = q
       \<and> view w' = (view w)\<lparr>v_cm := (v_cm (view w))(ringKey cache \<mapsto> c)\<rparr>))"
  using run
proof (cases rule: reconcileRing_elim)
  case (no_list e)
  then show ?thesis
    using list_pods_err by blast
next
  case (no_get pods w1 e)
  then show ?thesis
    using list_pods [OF no_get(1)] get_cm_err [OF no_get(2)] by simp
next
  case (same pods w1 cm)
  then show ?thesis
    using list_pods [OF same(1)] get_cm [OF same(2)]
    by (auto simp: q_def cellPods_def ringAt_def)
next
  case (publish pods w1 res w2 current)
  have pods: "view w1 = view w" "pods = cellPods cache (view w)"
    using list_pods [OF publish(1)] by (simp_all add: cellPods_def)
  have w2: "view w2 = view w" and cur: "current = ringAt (ringKey cache) (view w)"
    using publish(2,3) pods(1) get_cm [of "ringKey cache" w1] get_cm_err [of "ringKey cache" w1]
    by (auto simp: ringAt_def)
  have "set (computeMembers (SortSlice K) pods) \<subseteq> Name ` set pods"
    using member_sort.set_computeMembers [OF srt] by blast
  then have "\<forall>m \<in> set (Members q). ascii m"
    using ascii cellPods_subset [of cache "view w"] pods(2) by (force simp: q_def asciiPods_def)
  from publishRing_view [OF publish(4) [unfolded pods(2) cur, folded q_def] this] show ?thesis
    by (simp add: w2) blast
qed

end

section \<open>The ring after a pass\<close>

lemma ringAt_put [simp]:
  "ringAt k (v\<lparr>v_cm := (v_cm v)(k' \<mapsto> c)\<rparr>) = (if k = k' then currentRing (Data c) else ringAt k v)"
  by (simp add: ringAt_def)

lemma ringAt_cong: "v_cm v k = v_cm v' k \<Longrightarrow> ringAt k v = ringAt k v'"
  by (simp add: ringAt_def)

context cluster_api
begin

text \<open>A pass changes nothing but its own ConfigMap.\<close>

lemma reconcileRing_frame:
  assumes "reconcileRing K cache w = (r, w')" "member_sort (SortSlice K)" "asciiPods (view w)"
  shows "v_pods (view w') = v_pods (view w)" "v_sts (view w') = v_sts (view w)"
    "v_dc (view w') = v_dc (view w)" "v_ns (view w') = v_ns (view w)"
    "k \<noteq> ringKey cache \<Longrightarrow> v_cm (view w') k = v_cm (view w) k"
  using reconcileRing_view [OF assms] by auto

lemma reconcileRing_ringAt:
  assumes "reconcileRing K cache w = (r, w')" "member_sort (SortSlice K)" "asciiPods (view w)"
  shows "ringAt k (view w') = ringAt k (view w) \<or>
    k = ringKey cache \<and> ringAt k (view w')
      = nextRing (computeMembers (SortSlice K) (cellPods cache (view w))) (ringAt k (view w))"
  using reconcileRing_view [OF assms] by (auto split: if_splits)

lemma reconcileRing_ok:
  assumes "reconcileRing K cache w = (Inr q, w')" "member_sort (SortSlice K)" "asciiPods (view w)"
  shows "q = nextRing (computeMembers (SortSlice K) (cellPods cache (view w))) (ringAt (ringKey cache) (view w))"
    "ringAt (ringKey cache) (view w') = q"
  using reconcileRing_view [OF assms] by auto

end

section \<open>Histories\<close>

text \<open>
  The rings stored under a key over time, each left as it was or replaced as the specification
  says. Below the overflow of the version, later rings have larger versions, and a version is
  never used for two rings.
\<close>

definition linked :: "Ring list \<Rightarrow> bool" where
  "linked rs \<longleftrightarrow> (\<forall>i. Suc i < length rs \<longrightarrow> rs ! Suc i = rs ! i \<or> (\<exists>ms. rs ! Suc i = nextRing ms (rs ! i)))"

lemma linked_snoc:
  assumes "linked rs" "rs \<noteq> []" "r = last rs \<or> (\<exists>ms. r = nextRing ms (last rs))"
  shows "linked (rs @ [r])"
  unfolding linked_def
proof (intro allI impI)
  fix i assume i: "Suc i < length (rs @ [r])"
  show "(rs @ [r]) ! Suc i = (rs @ [r]) ! i \<or> (\<exists>ms. (rs @ [r]) ! Suc i = nextRing ms ((rs @ [r]) ! i))"
  proof (cases "Suc i < length rs")
    case True
    then show ?thesis
      using assms(1) by (simp add: linked_def nth_append)
  next
    case False
    with i have n: "Suc i = length rs" by simp
    then have "last rs = rs ! i"
      using assms(2) by (simp add: last_conv_nth flip: n)
    then show ?thesis
      using assms(3) n by (auto simp: nth_append)
  qed
qed

lemma sint64_Suc: "sint v + 1 < 2 ^ 63 \<Longrightarrow> sint (v + 1) = sint v + 1" for v :: int64
  using sint64_of_int [of "sint v + 1"] sint64_bounds(1) [of v] by simp

lemma linked_step:
  assumes "r' = r \<or> (\<exists>ms. r' = nextRing ms r)" "sint (Version r) + 1 < 2 ^ 63"
  shows "r' = r \<or> sint (Version r') = sint (Version r) + 1"
  using assms by (auto simp: nextRing_def sint64_Suc)

lemma linked_bound:
  assumes "linked rs" "sint (Version (rs ! 0)) + int (length rs) < 2 ^ 63"
  shows "j < length rs \<Longrightarrow> sint (Version (rs ! j)) \<le> sint (Version (rs ! 0)) + int j"
proof (induction j)
  case 0
  then show ?case by simp
next
  case (Suc j)
  then have le: "sint (Version (rs ! j)) \<le> sint (Version (rs ! 0)) + int j" by simp
  then have "sint (Version (rs ! j)) + 1 < 2 ^ 63"
    using Suc.prems assms(2) by simp
  with assms(1) Suc.prems have "rs ! Suc j = rs ! j \<or> sint (Version (rs ! Suc j)) = sint (Version (rs ! j)) + 1"
    by (intro linked_step) (auto simp: linked_def)
  with le show ?case by auto
qed

lemma linked_versions:
  assumes "linked rs" "sint (Version (rs ! 0)) + int (length rs) < 2 ^ 63"
  shows "i \<le> j \<Longrightarrow> j < length rs \<Longrightarrow>
    sint (Version (rs ! i)) \<le> sint (Version (rs ! j)) \<and> (Version (rs ! i) = Version (rs ! j) \<longrightarrow> rs ! i = rs ! j)"
proof (induction j)
  case 0
  then show ?case by simp
next
  case (Suc j)
  show ?case
  proof (cases "i = Suc j")
    case True
    then show ?thesis by simp
  next
    case False
    with Suc have IH: "sint (Version (rs ! i)) \<le> sint (Version (rs ! j))"
      "Version (rs ! i) = Version (rs ! j) \<longrightarrow> rs ! i = rs ! j" by simp_all
    have "sint (Version (rs ! j)) + 1 < 2 ^ 63"
      using linked_bound [OF assms, of j] assms(2) Suc.prems(2) by simp
    with assms(1) Suc.prems(2) have "rs ! Suc j = rs ! j \<or> sint (Version (rs ! Suc j)) = sint (Version (rs ! j)) + 1"
      by (intro linked_step) (auto simp: linked_def)
    then show ?thesis
    proof
      assume "sint (Version (rs ! Suc j)) = sint (Version (rs ! j)) + 1"
      with IH(1) show ?thesis by force
    qed (use IH in simp)
  qed
qed

section \<open>Properties\<close>

text \<open>
  C8: \<open>reconcileRing\<close> implements the specification \<open>nextRing\<close> of publishing on every cluster that
  keeps the API server's contract. A pass that succeeds returns the ring whose members are the
  eligible pods of the cell, under the version of the stored ring if the members are the same
  and the next version otherwise, and leaves exactly this ring stored. A pass that fails leaves
  the old ring or this one. Other ConfigMaps, pods and StatefulSets are untouched.
\<close>

theorem reconcileRing_refines_publishing:
  assumes "cluster_api K view" "member_sort (SortSlice K)" "asciiPods (view w)"
    and "reconcileRing K cache w = (r, w')"
  shows "let k = ringKey cache; ms = computeMembers (SortSlice K) (cellPods cache (view w));
             q = nextRing ms (ringAt k (view w))
    in (case r of Inr q' \<Rightarrow> q' = q \<and> ringAt k (view w') = q
        | Inl e \<Rightarrow> ringAt k (view w') \<in> {ringAt k (view w), q})
     \<and> (\<forall>k'. k' \<noteq> k \<longrightarrow> v_cm (view w') k' = v_cm (view w) k')
     \<and> v_pods (view w') = v_pods (view w) \<and> v_sts (view w') = v_sts (view w)"
proof -
  note run = assms(4,2,3)
  have "case r of Inr q' \<Rightarrow> q' = nextRing (computeMembers (SortSlice K) (cellPods cache (view w))) (ringAt (ringKey cache) (view w))
      \<and> ringAt (ringKey cache) (view w') = q'
    | Inl e \<Rightarrow> ringAt (ringKey cache) (view w') \<in> {ringAt (ringKey cache) (view w),
        nextRing (computeMembers (SortSlice K) (cellPods cache (view w))) (ringAt (ringKey cache) (view w))}"
  proof (cases r)
    case (Inl e)
    then show ?thesis
      using cluster_api.reconcileRing_ringAt [OF assms(1) run, of "ringKey cache"] by auto
  next
    case (Inr q')
    then show ?thesis
      using cluster_api.reconcileRing_ok [OF assms(1) run(1) [unfolded Inr] run(2,3)] by simp
  qed
  then show ?thesis
    using cluster_api.reconcileRing_frame [OF assms(1) run] by (auto simp: Let_def split: sum.splits)
qed

lemma example_pods:
  "cellPods (exampleCache m) (m_view (exampleWorld m' n ps ts fs))
    = filter (\<lambda>p. Namespace p = ''default'' \<and> matchLabels exampleLabels (Labels p)) ps"
  by (simp add: cellPods_def podsIn_def exampleWorld_def)

theorem reconcileRing_refines_publishing_witness:
  "let w = exampleWorld 2 2 [cachePod ''c-1'' [], cachePod ''c-0'' []] 130 [NoFault, NoFault, LostReply];
       (r, w') = reconcileRing memKube (exampleCache 2) w
   in (\<forall>q. r \<noteq> Inr q) \<and> ringAt (ringKey (exampleCache 2)) (m_view w')
     \<in> {zeroRing, nextRing (computeMembers insertionSort [cachePod ''c-1'' [], cachePod ''c-0'' []]) zeroRing}"
proof -
  let ?ps = "[cachePod ''c-1'' [], cachePod ''c-0'' []]"
  let ?w = "exampleWorld 2 2 ?ps 130 [NoFault, NoFault, LostReply]"
  obtain r w' where run: "reconcileRing memKube (exampleCache 2) ?w = (r, w')"
    by (cases "reconcileRing memKube (exampleCache 2) ?w")
  have "member_sort (SortSlice memKube)"
    using ms.member_sort_axioms by (simp add: memKube_def)
  moreover have "asciiPods (m_view ?w)"
    by (simp add: asciiPods_def exampleWorld_def ascii_simps)
  moreover have "cellPods (exampleCache 2) (m_view ?w) = ?ps"
    by (simp add: example_pods)
  moreover have "ringAt (ringKey (exampleCache 2)) (m_view ?w) = zeroRing"
    by (simp add: ringAt_def exampleWorld_def)
  moreover have "SortSlice memKube = insertionSort"
    by (simp add: memKube_def)
  moreover have "\<exists>e. r = Inl e"
    using run by (auto simp: reconcileRing_def publishRing_def memKube_def memRead_def memApply_def memWrite_def
      takeFault_def exampleWorld_def mutateRing_def setControllerReferenceIfSameNamespace_def Let_def
      podsIn_def newRingConfigMap_def newMeta_def ObjectMeta.extend_def ConfigMap.fields_def baseObj_def
      ObjectMeta.truncate_def)
  ultimately show ?thesis
    using reconcileRing_refines_publishing [OF mem.cluster_api_axioms _ _ run] run by (auto simp: Let_def)
qed

text \<open>
  C32: for every API server, once the pods are listed and the ConfigMap is read, a successful
  \<open>reconcileRing\<close> returns the computed members under the version read if they are the members
  read, and under the next one otherwise. When nothing changed and the ConfigMap has data the
  pass ends there, with no further request: it is idempotent.
\<close>

theorem reconcileRing_version_rule:
  assumes "List_Pods K (targetNamespace cache) (podLabels cache) w = (Inr pods, w1)"
    and "Get_CM K (ringKey cache) w1 = (Inr cm, w2)"
  shows "let ms = computeMembers (SortSlice K) pods; current = currentRing (Data cm)
    in (ms = Members current \<and> Data cm \<noteq> [] \<longrightarrow> reconcileRing K cache w = (Inr current, w2))
     \<and> (\<forall>r. fst (reconcileRing K cache w) = Inr r \<longrightarrow>
          Members r = ms \<and> Version r = (if ms = Members current then Version current else Version current + 1))"
proof -
  let ?ms = "computeMembers (SortSlice K) pods"
  let ?cur = "currentRing (Data cm)"
  have run: "reconcileRing K cache w =
    (if nextRing ?ms ?cur = ?cur \<and> Data cm \<noteq> [] then (Inr (nextRing ?ms ?cur), w2)
     else publishRing K cache (nextRing ?ms ?cur) w2)"
    using assms by (simp add: reconcileRing_def Let_def desiredRing_next)
  then have "r = nextRing ?ms ?cur" if "fst (reconcileRing K cache w) = Inr r" for r
    using that publishRing_ok by (auto split: if_splits)
  then have "Members r = ?ms \<and> Version r = (if ?ms = Members ?cur then Version ?cur else Version ?cur + 1)"
    if "fst (reconcileRing K cache w) = Inr r" for r
    using that by (simp add: nextRing_def)
  moreover have "reconcileRing K cache w = (Inr ?cur, w2)" if "?ms = Members ?cur" "Data cm \<noteq> []"
    using run that by (simp add: nextRing_eq_iff)
  ultimately show ?thesis
    unfolding Let_def by blast
qed

definition exampleRing :: Ring where
  "exampleRing = \<lparr>Version = 7, Members = [''c-0'']\<rparr>"

definition exampleRingMap :: ConfigMap where
  "exampleRingMap = (newRingConfigMap (exampleCache 1))\<lparr>Data := [(ringConfigMapKey, marshalRing exampleRing)]\<rparr>"

definition withRing :: "memState \<Rightarrow> memState" where
  "withRing w = w\<lparr>m_view := (m_view w)\<lparr>v_cm := (\<lambda>_. None)(ringKey (exampleCache 1) \<mapsto> exampleRingMap)\<rparr>\<rparr>"

lemma ringKey_example [simp]: "ringKey (exampleCache m) = \<lparr>nn_Namespace = ''default'', nn_Name = ''c-ring''\<rparr>"
  by (simp add: ringKey_def ringConfigMapName_def)

lemma exampleRingMap_ring [simp]: "currentRing (Data exampleRingMap) = exampleRing"
  by (simp add: exampleRingMap_def currentRing_def unmarshal_marshal exampleRing_def)

lemma example_ring_requests [simp]:
  "List_Pods memKube ns ls (withRing (exampleWorld m n ps ts []))
    = (Inr (filter (\<lambda>p. Namespace p = ns \<and> matchLabels ls (Labels p)) ps), withRing (exampleWorld m n ps ts []))"
  "Get_CM memKube \<lparr>nn_Namespace = ''default'', nn_Name = ''c-ring''\<rparr> (withRing (exampleWorld m n ps ts []))
    = (Inr exampleRingMap, withRing (exampleWorld m n ps ts []))"
  by (simp_all add: memKube_def memRead_def takeFault_def exampleWorld_def podsIn_def withRing_def)

theorem reconcileRing_version_rule_witness:
  "let w = withRing (exampleWorld 1 1 [cachePod ''c-0'' []] 130 [])
   in reconcileRing memKube (exampleCache 1) w = (Inr exampleRing, w)"
proof -
  let ?w = "withRing (exampleWorld 1 1 [cachePod ''c-0'' []] 130 [])"
  have "computeMembers (SortSlice memKube) [cachePod ''c-0'' []] = [''c-0'']"
    by code_simp
  moreover have "Data exampleRingMap \<noteq> []" "Members exampleRing = [''c-0'']"
    by (simp_all add: exampleRingMap_def exampleRing_def)
  ultimately show ?thesis
    using reconcileRing_version_rule [of memKube "exampleCache 1" ?w "[cachePod ''c-0'' []]" ?w exampleRingMap ?w]
    by (simp add: Let_def)
qed

end
