(* ===== verification/Deletion.thy ===== *)
theory Deletion
  imports Workload Publish
begin

text \<open>
  Deletion of the custom resource: \<open>reconcileDeletion\<close> and \<open>deleteCellNamespace\<close> of
  \<open>distributedcache_controller.go\<close>. All pods are drained, the ring is published without them, an
  isolated cell's namespace is deleted, and only then is the finalizer removed.
\<close>

section \<open>The operations\<close>

text \<open>\<open>ctrl.Result\<close>: \<open>RequeueAfter\<close> in seconds.\<close>

record Result =
  Requeue :: bool
  RequeueAfter :: nat

definition noRequeue :: Result where
  "noRequeue = \<lparr>Requeue = False, RequeueAfter = 0\<rparr>"

definition requeueAfter :: "nat \<Rightarrow> Result" where
  "requeueAfter s = \<lparr>Requeue = False, RequeueAfter = s\<rparr>"

fun deletionLoop ::
  "'w kube \<Rightarrow> Duration \<Rightarrow> Time \<Rightarrow> Pod list \<Rightarrow> bool \<Rightarrow> 'w \<Rightarrow> (goerr + bool) \<times> 'w" where
  "deletionLoop K grace now [] allDrained w = (Inr allDrained, w)"
| "deletionLoop K grace now (p # ps) allDrained w =
     (case mapGet (Annotations p) drainAnnotation of
        None \<Rightarrow>
          (case Update_Pod K (stamp now p) w of
             (Inl e, w) \<Rightarrow> (Inl (Wrapped (''annotate '' @ Name p) e), w)
           | (Inr _, w) \<Rightarrow> deletionLoop K grace now ps False w)
      | Some v \<Rightarrow>
          (case ParseInt v of
             None \<Rightarrow> deletionLoop K grace now ps False w
           | Some ts \<Rightarrow>
               deletionLoop K grace now ps (if withinGrace now grace ts then False else allDrained) w))"

definition deleteCellNamespace :: "'w kube \<Rightarrow> DistributedCache \<Rightarrow> 'w \<Rightarrow> (goerr + bool) \<times> 'w" where
  "deleteCellNamespace K cache w =
     (let nsName = targetNamespace cache
      in case Get_NS K nsName w of
        (Inl e, w) \<Rightarrow> if IsNotFound e then (Inr True, w) else (Inl (Wrapped ''get cell namespace'' e), w)
      | (Inr ns, w) \<Rightarrow>
          if DeletionTimestamp ns = None then
            (case Delete_NS K ns w of
               (Inl e, w) \<Rightarrow>
                 if IsNotFound e then (Inr True, w) else (Inl (Wrapped ''delete cell namespace'' e), w)
             | (Inr _, w) \<Rightarrow>
                 (Inr False,
                  Eventf K cache (normalEvent ''CellTearingDown''
                    (''Cell namespace '' @ nsName @ '' deletion issued; cascading to children.'')) w))
          else (Inr False, w))"

text \<open>The third phase of \<open>reconcileDeletion\<close>: release the custom resource.\<close>

definition releaseFinalizer :: "'w kube \<Rightarrow> DistributedCache \<Rightarrow> ('w, Result) request" where
  "releaseFinalizer K cache w =
     (case Update_DC K (cache\<lparr>Finalizers := RemoveFinalizer K (Finalizers cache) drainFinalizer\<rparr>) w of
        (Inl e, w) \<Rightarrow> (Inl (Wrapped ''remove finalizer'' e), w)
      | (Inr cache, w) \<Rightarrow>
          (Inr noRequeue,
           Eventf K cache (normalEvent ''DrainComplete''
             ''All pods drained; cell torn down; finalizer removed.'') w))"

definition reconcileDeletion :: "'w kube \<Rightarrow> DistributedCache \<Rightarrow> ('w, Result) request" where
  "reconcileDeletion K cache w =
     (if \<not> ContainsFinalizer K (Finalizers cache) drainFinalizer then (Inr noRequeue, w)
      else case List_Pods K (targetNamespace cache) (podLabels cache) w of
        (Inl e, w) \<Rightarrow> (Inl (Wrapped ''list pods for deletion drain'' e), w)
      | (Inr pods, w) \<Rightarrow>
          (case Now K w of
             (now, w) \<Rightarrow>
               (case deletionLoop K (graceDuration cache) now pods True w of
                  (Inl e, w) \<Rightarrow> (Inl e, w)
                | (Inr allDrained, w) \<Rightarrow>
                    (case reconcileRing K cache w of
                       (_, w) \<Rightarrow>
                         if \<not> allDrained then (Inr (requeueAfter 2), w)
                         else if isCrossNamespaceChild cache then
                           (case deleteCellNamespace K cache w of
                              (Inl e, w) \<Rightarrow> (Inl (Wrapped ''delete cell namespace'' e), w)
                            | (Inr gone, w) \<Rightarrow>
                                if \<not> gone then (Inr (requeueAfter 2), w)
                                else releaseFinalizer K cache w)
                         else releaseFinalizer K cache w))))"

section \<open>The deletion drain\<close>

lemma deletionLoop_result:
  "deletionLoop K grace now pods a w = (Inr b, w') \<Longrightarrow> b \<longleftrightarrow> a \<and> (\<forall>p \<in> set pods. drained now grace p)"
proof (induction pods arbitrary: a w)
  case Nil
  then show ?case by auto
next
  case (Cons p ps)
  show ?case
    using Cons.prems
    by (auto simp: drained_def dest!: Cons.IH split: if_splits option.splits sum.splits prod.splits)
qed

text \<open>The ways a pass over a resource with the finalizer ends.\<close>

lemma reconcileDeletion_elim:
  assumes "reconcileDeletion K cache w = (r, w')" and "ContainsFinalizer K (Finalizers cache) drainFinalizer"
  obtains (no_list) e where "List_Pods K (targetNamespace cache) (podLabels cache) w = (Inl e, w')"
      "r = Inl (Wrapped ''list pods for deletion drain'' e)"
    | (no_stamp) pods w1 now w2 e where "List_Pods K (targetNamespace cache) (podLabels cache) w = (Inr pods, w1)"
      "Now K w1 = (now, w2)" "deletionLoop K (graceDuration cache) now pods True w2 = (Inl e, w')" "r = Inl e"
    | (waiting) pods w1 now w2 w3 q where "List_Pods K (targetNamespace cache) (podLabels cache) w = (Inr pods, w1)"
      "Now K w1 = (now, w2)" "deletionLoop K (graceDuration cache) now pods True w2 = (Inr False, w3)"
      "reconcileRing K cache w3 = (q, w')" "r = Inr (requeueAfter 2)"
    | (drained) pods w1 now w2 w3 q w4 where "List_Pods K (targetNamespace cache) (podLabels cache) w = (Inr pods, w1)"
      "Now K w1 = (now, w2)" "deletionLoop K (graceDuration cache) now pods True w2 = (Inr True, w3)"
      "reconcileRing K cache w3 = (q, w4)"
      "(if isCrossNamespaceChild cache
        then case deleteCellNamespace K cache w4 of
               (Inl e, w) \<Rightarrow> (Inl (Wrapped ''delete cell namespace'' e), w)
             | (Inr gone, w) \<Rightarrow> if \<not> gone then (Inr (requeueAfter 2), w) else releaseFinalizer K cache w
        else releaseFinalizer K cache w4) = (r, w')"
  using assms
  unfolding reconcileDeletion_def
  by (auto split: sum.splits prod.splits if_splits)

lemma deletionLoop_runs [run_rules]: "deletionLoop K grace now ps a w = (r, w') \<Longrightarrow> runs K w w'"
proof (induction ps arbitrary: a w)
  case (Cons p ps)
  have step: "runs K w w'" if "Update_Pod K (stamp now p) w = (u, w1)" "runs K w1 w'" for u w1
    using request_runs(9) [OF that(1)] that(2) by (rule rtranclp_trans)
  show ?case
    using Cons.prems
    by (auto dest!: Cons.IH dest: step run_rules split: if_splits option.splits sum.splits prod.splits)
qed simp

lemma deleteCellNamespace_runs [run_rules]: "deleteCellNamespace K cache w = (r, w') \<Longrightarrow> runs K w w'"
  by (auto simp: deleteCellNamespace_def Let_def dest!: run_rules split: prod.splits sum.splits if_splits
      intro: rtranclp_trans)

lemma releaseFinalizer_runs [run_rules]: "releaseFinalizer K cache w = (r, w') \<Longrightarrow> runs K w w'"
  by (auto simp: releaseFinalizer_def dest!: run_rules split: prod.splits sum.splits)

lemma reconcileDeletion_runs [run_rules]: "reconcileDeletion K cache w = (r, w') \<Longrightarrow> runs K w w'"
  by (auto simp: reconcileDeletion_def dest!: run_rules split: prod.splits sum.splits if_splits
      intro: rtranclp_trans)

text \<open>The time a deletion pass reads lies within it.\<close>

lemma deletion_clockIn:
  assumes "List_Pods K ns ls w = (Inr pods, w1)" "Now K w1 = (now, w2)"
    and "deletionLoop K grace now pods True w2 = (r, w3)" "runs K w3 w'"
  shows "clockIn K w w' now"
  using request_runs(8) [OF assms(1)] assms(2)
    rtranclp_trans [OF deletionLoop_runs [OF assms(3)] assms(4)] by (rule clockIn_now)

lemma cellPods_stampAll:
  "set (cellPods cache (stampAll now S v)) = (\<lambda>q. if q \<in> S then stamp now q else q) ` set (cellPods cache v)"
  by (auto simp: cellPods_def podsIn_def image_iff split: if_splits)

context cluster_api
begin

lemma deletionLoop_stamping:
  "deletionLoop K grace now ps a w = (r, w') \<Longrightarrow>
   stamping K view now (filter (\<lambda>q. mapGet (Annotations q) drainAnnotation = None) ps) w (\<exists>b. r = Inr b) w'"
  by (induction ps arbitrary: a w)
     (auto split: if_splits option.splits sum.splits prod.splits intro: stamping.intros)

lemma deletionLoop_view:
  assumes "deletionLoop K grace now (cellPods cache (view w)) a w = (r, w')"
    and "distinct (map keyOf (v_pods (view w)))"
  shows "\<exists>S. view w' = stampAll now S (view w)
    \<and> S \<subseteq> {q \<in> set (cellPods cache (view w)). mapGet (Annotations q) drainAnnotation = None}
    \<and> (\<forall>b. r = Inr b \<longrightarrow> S = {q \<in> set (cellPods cache (view w)). mapGet (Annotations q) drainAnnotation = None})"
  using stamping_view [OF deletionLoop_stamping [OF assms(1)] assms(2)] cellPods_subset [of cache "view w"]
    cellPods_distinct [OF assms(2)]
  by (auto simp: distinct_map_filter)

lemma deleteCellNamespace_view:
  assumes "deleteCellNamespace K cache w = (r, w')"
  shows "(\<exists>f. view w' = (view w)\<lparr>v_ns := f\<rparr>) \<and> (r = Inr True \<longrightarrow> v_ns (view w) (targetNamespace cache) = None)"
proof -
  obtain g w1 where g: "Get_NS K (targetNamespace cache) w = (g, w1)"
    by (cases "Get_NS K (targetNamespace cache) w")
  have same: "\<exists>f. view w1 = (view w)\<lparr>v_ns := f\<rparr>" if "view w1 = view w"
    using that by (intro exI [of _ "v_ns (view w)"]) simp
  show ?thesis
  proof (cases g)
    case (Inl e)
    then show ?thesis
      using assms g get_ns_err [of "targetNamespace cache" w e w1] same
      by (auto simp: deleteCellNamespace_def split: if_splits)
  next
    case (Inr ns)
    have ns: "view w1 = view w" "v_ns (view w) (targetNamespace cache) = Some ns"
      using get_ns g Inr by blast+
    obtain d w2 where d: "Delete_NS K ns w1 = (d, w2)"
      by (cases "Delete_NS K ns w1")
    have "\<exists>f. view w2 = (view w)\<lparr>v_ns := f\<rparr>"
      using delete_ns [OF d] ns(1) by simp
    moreover have "\<not> IsNotFound e" if "d = Inl e" for e
      using delete_ns_gone [of ns w1 e w2 "targetNamespace cache"] d ns that by auto
    ultimately show ?thesis
      using assms g Inr d same ns(1) event_view
      by (auto simp: deleteCellNamespace_def Let_def split: if_splits sum.splits)
  qed
qed

lemma releaseFinalizer_view:
  "releaseFinalizer K cache w = (r, w') \<Longrightarrow> \<exists>f. view w' = (view w)\<lparr>v_dc := f\<rparr>"
  using update_dc event_view
  by (auto simp: releaseFinalizer_def split: sum.splits prod.splits)

end

lemma asciiPods_stampAll [simp]: "asciiPods (stampAll now S v) = asciiPods v"
proof -
  have "map Name (v_pods (stampAll now S v)) = map Name (v_pods v)"
    by (simp add: comp_def if_distrib cong: if_cong)
  then have "Name ` set (v_pods (stampAll now S v)) = Name ` set (v_pods v)"
    by (metis list.set_map)
  moreover have "asciiPods u \<longleftrightarrow> (\<forall>n \<in> Name ` set (v_pods u). ascii n)" for u
    by (simp add: asciiPods_def)
  ultimately show ?thesis
    by (simp only:)
qed

text \<open>
  What a pass over a resource that is being deleted may do to the cluster, at one of the times \<open>T\<close>.
\<close>

definition deletionEffect ::
  "'w kube \<Rightarrow> (Time \<Rightarrow> bool) \<Rightarrow> DistributedCache \<Rightarrow> cluster \<Rightarrow> cluster \<Rightarrow> bool" where
  "deletionEffect K T cache v v' \<longleftrightarrow> (\<exists>now S. T now
     \<and> S \<subseteq> {q \<in> set (cellPods cache v). mapGet (Annotations q) drainAnnotation = None}
     \<and> v_pods v' = v_pods (stampAll now S v) \<and> v_sts v' = v_sts v
     \<and> (\<forall>k. ringAt k v' = ringAt k v \<or> (\<exists>ms. ringAt k v' = nextRing ms (ringAt k v)))
     \<and> (v_dc v' = v_dc v \<or> ContainsFinalizer K (Finalizers cache) drainFinalizer
          \<and> (\<forall>p \<in> set (cellPods cache v). drained now (graceDuration cache) p)
          \<and> (isCrossNamespaceChild cache \<longrightarrow> v_ns v (targetNamespace cache) = None)))"

lemma deletionEffect_refl: "runs K w w' \<Longrightarrow> deletionEffect K (clockIn K w w') cache v v"
  unfolding deletionEffect_def by (intro exI [of _ "fst (Now K w)"] exI [of _ "{}"]) (simp add: clockIn_start)

lemma deletionEffect_mono:
  "deletionEffect K T cache v v' \<Longrightarrow> (\<And>t. T t \<Longrightarrow> T' t) \<Longrightarrow> deletionEffect K T' cache v v'"
  unfolding deletionEffect_def by blast

context cluster_api
begin

lemma reconcileDeletion_tail:
  assumes "(if isCrossNamespaceChild cache
        then case deleteCellNamespace K cache w of
               (Inl e, w) \<Rightarrow> (Inl (Wrapped ''delete cell namespace'' e), w)
             | (Inr gone, w) \<Rightarrow> if \<not> gone then (Inr (requeueAfter 2), w) else releaseFinalizer K cache w
        else releaseFinalizer K cache w) = (r, w')"
  shows "sameWork (view w) (view w') \<and> (v_dc (view w') = v_dc (view w) \<or>
    (isCrossNamespaceChild cache \<longrightarrow> v_ns (view w) (targetNamespace cache) = None))"
proof (cases "isCrossNamespaceChild cache")
  case False
  then show ?thesis
    using assms releaseFinalizer_view by fastforce
next
  case True
  obtain d w1 where d: "deleteCellNamespace K cache w = (d, w1)"
    by (cases "deleteCellNamespace K cache w")
  from deleteCellNamespace_view [OF d] obtain f where f: "view w1 = (view w)\<lparr>v_ns := f\<rparr>"
    and gone: "d = Inr True \<longrightarrow> v_ns (view w) (targetNamespace cache) = None" by blast
  have same: "sameWork (view w) (view w1)"
    by (simp add: f)
  show ?thesis
  proof (cases "d = Inr True")
    case True
    then have "releaseFinalizer K cache w1 = (r, w')"
      using assms d \<open>isCrossNamespaceChild cache\<close> by simp
    then have "sameWork (view w1) (view w')"
      using releaseFinalizer_view by fastforce
    with same gone True show ?thesis
      using sameWork_trans by blast
  next
    case False
    then have "w' = w1"
      using assms d True by (auto split: sum.splits if_splits)
    with f same show ?thesis by simp
  qed
qed

lemma deletion_drain_view:
  assumes list: "List_Pods K (targetNamespace cache) (podLabels cache) w = (Inr pods, w1)"
    and now: "Now K w1 = (now, w2)"
    and loop: "deletionLoop K (graceDuration cache) now pods True w2 = (r, w3)"
    and keys: "distinct (map keyOf (v_pods (view w)))"
  shows "\<exists>S. S \<subseteq> {q \<in> set (cellPods cache (view w)). mapGet (Annotations q) drainAnnotation = None}
      \<and> view w3 = stampAll now S (view w)
      \<and> (r = Inr True \<longrightarrow> (\<forall>p \<in> set (cellPods cache (view w)). drained now (graceDuration cache) p))"
proof -
  have v: "view w2 = view w" "pods = cellPods cache (view w2)"
    using list_pods [OF list] now_view [OF now] by (simp_all add: cellPods_def)
  have "r = Inr True \<longrightarrow> (\<forall>p \<in> set pods. drained now (graceDuration cache) p)"
    using deletionLoop_result [of K "graceDuration cache" now pods True w2 True w3] loop by auto
  then show ?thesis
    using deletionLoop_view [OF loop [unfolded v(2)]] keys v by auto
qed

lemma deletion_ring_view:
  assumes "reconcileRing K cache w3 = (q, w4)" "member_sort (SortSlice K)"
    and "view w3 = stampAll now S (view w)" "asciiPods (view w)"
  shows "v_pods (view w4) = v_pods (stampAll now S (view w)) \<and> v_sts (view w4) = v_sts (view w)
    \<and> v_dc (view w4) = v_dc (view w) \<and> v_ns (view w4) = v_ns (view w)
    \<and> (\<forall>k. ringAt k (view w4) = ringAt k (view w) \<or> (\<exists>ms. ringAt k (view w4) = nextRing ms (ringAt k (view w))))"
proof -
  have "asciiPods (view w3)"
    using assms(3,4) by simp
  note run = assms(1,2) this
  have "ringAt k (view w3) = ringAt k (view w)" for k
    by (rule ringAt_cong) (simp add: assms(3))
  then have "ringAt k (view w4) = ringAt k (view w) \<or> (\<exists>ms. ringAt k (view w4) = nextRing ms (ringAt k (view w)))" for k
    using reconcileRing_ringAt [OF run, of k] by auto
  then show ?thesis
    using reconcileRing_frame(1-4) [OF run] assms(3) by simp
qed

lemma reconcileDeletion_view:
  assumes run: "reconcileDeletion K cache w = (r, w')" and srt: "member_sort (SortSlice K)"
    and ascii: "asciiPods (view w)" and keys: "distinct (map keyOf (v_pods (view w)))"
  shows "deletionEffect K (clockIn K w w') cache (view w) (view w')"
proof (cases "ContainsFinalizer K (Finalizers cache) drainFinalizer")
  case False
  then show ?thesis
    using run by (simp add: reconcileDeletion_def deletionEffect_refl)
next
  case fin: True
  show ?thesis
    using run fin
  proof (cases rule: reconcileDeletion_elim)
    case (no_list e)
    then show ?thesis
      using list_pods_err [OF no_list(1)] deletionEffect_refl [OF request_runs(8) [OF no_list(1)]] by simp
  next
    case (no_stamp pods w1 now w2 e)
    obtain S where "S \<subseteq> {q \<in> set (cellPods cache (view w)). mapGet (Annotations q) drainAnnotation = None}"
      "view w' = stampAll now S (view w)"
      using deletion_drain_view [OF no_stamp(1,2,3) keys] by blast
    then show ?thesis
      using deletion_clockIn [OF no_stamp(1-3) rtranclp.rtrancl_refl] unfolding deletionEffect_def
      by (intro exI [of _ now] exI [of _ S]) (simp add: ringAt_def)
  next
    case (waiting pods w1 now w2 w3 q)
    obtain S where S: "S \<subseteq> {q \<in> set (cellPods cache (view w)). mapGet (Annotations q) drainAnnotation = None}"
      "view w3 = stampAll now S (view w)"
      using deletion_drain_view [OF waiting(1,2,3) keys] by blast
    show ?thesis
      using deletion_ring_view [OF waiting(4) srt S(2) ascii] S(1) deletion_clockIn [OF waiting(1-3) reconcileRing_runs [OF waiting(4)]]
      unfolding deletionEffect_def by (intro exI [of _ now] exI [of _ S]) simp
  next
    case (drained pods w1 now w2 w3 q w4)
    obtain S where S: "S \<subseteq> {q \<in> set (cellPods cache (view w)). mapGet (Annotations q) drainAnnotation = None}"
      "view w3 = stampAll now S (view w)"
      and all: "\<forall>p \<in> set (cellPods cache (view w)). drained now (graceDuration cache) p"
      using deletion_drain_view [OF drained(1,2,3) keys] by blast
    have tail: "sameWork (view w4) (view w')"
      "v_dc (view w') = v_dc (view w4) \<or> (isCrossNamespaceChild cache \<longrightarrow> v_ns (view w4) (targetNamespace cache) = None)"
      using reconcileDeletion_tail [OF drained(5)] by blast+
    have "runs K w4 w'"
      using drained(5) by (auto dest!: run_rules split: if_splits prod.splits sum.splits intro: rtranclp_trans)
    then have now: "clockIn K w w' now"
      using deletion_clockIn [OF drained(1-3)] reconcileRing_runs [OF drained(4)] by (blast intro: rtranclp_trans)
    have "ringAt k (view w') = ringAt k (view w4)" for k
      using tail(1) by (intro ringAt_cong) (simp add: sameWork_def)
    then show ?thesis
      using deletion_ring_view [OF drained(4) srt S(2) ascii] S(1) now tail all fin
      unfolding deletionEffect_def sameWork_def by (intro exI [of _ now] exI [of _ S]) auto
  qed
qed

end

section \<open>Properties\<close>

text \<open>
  C9: the custom resource is released only after its pods are drained. On a cluster that keeps
  the API server's contract, a pass of \<open>reconcileDeletion\<close> that changes the stored resource has
  found the drain finalizer; at a time the clock showed during the pass every pod of the cell had
  carried a readable drain annotation for at least the grace period; and, when the children live
  in another namespace, the pass found that namespace gone.
\<close>

theorem finalizer_released_after_drain:
  assumes "cluster_api K view" "member_sort (SortSlice K)" "asciiPods (view w)"
    and "distinct (map keyOf (v_pods (view w)))"
    and "reconcileDeletion K cache w = (r, w')" "v_dc (view w') \<noteq> v_dc (view w)"
  shows "ContainsFinalizer K (Finalizers cache) drainFinalizer
    \<and> (\<exists>now. clockIn K w w' now \<and> (\<forall>p \<in> set (cellPods cache (view w)).
         \<exists>v ts. mapGet (Annotations p) drainAnnotation = Some v \<and> ParseInt v = Some ts
           \<and> sint (GracePeriodSeconds (Drain (Spec cache))) * Second \<le> instant now - instant (time_Unix ts)))
    \<and> (isCrossNamespaceChild cache \<longrightarrow> v_ns (view w) (targetNamespace cache) = None)"
proof -
  have "deletionEffect K (clockIn K w w') cache (view w) (view w')"
    by (rule cluster_api.reconcileDeletion_view [OF assms(1,5,2,3,4)])
  with assms(6) show ?thesis
    unfolding deletionEffect_def drained_iff by (elim exE conjE disjE) (auto simp: drained_iff)
qed

lemma example_publish:
  "\<exists>w'. reconcileRing memKube (exampleCache m) (exampleWorld m n ps ts []) = (Inr q, w') \<and> m_faults w' = []
    \<and> v_dc (m_view w') = v_dc (m_view (exampleWorld m n ps ts []))"
  if "q = nextRing (computeMembers insertionSort (filter (\<lambda>p. Namespace p = ''default'' \<and> matchLabels exampleLabels (Labels p)) ps)) zeroRing"
  using that
  by (simp add: reconcileRing_def publishRing_def desiredRing_next mem_run exampleWorld_def mutateRing_def
      setControllerReferenceIfSameNamespace_def podsIn_def newRingConfigMap_def newMeta_def
      ObjectMeta.extend_def ConfigMap.fields_def ObjectMeta.truncate_def Let_def)

definition drainedPod :: Pod where
  "drainedPod = cachePod ''c-0'' [(drainAnnotation, ''100'')]"

lemma drainedPod_loop:
  "deletionLoop memKube (graceDuration (exampleCache m)) (time_Unix 130) [drainedPod] True w = (Inr True, w)"
proof -
  have "ParseInt ''100'' = Some 100"
    by code_simp
  moreover have "\<not> withinGrace (time_Unix 130) (graceDuration (exampleCache m)) 100"
    unfolding withinGrace_iff by (simp add: instant_def time_Unix_def unixToInternal_def Second_def)
  ultimately show ?thesis
    by (simp add: drainedPod_def)
qed

lemma example_release:
  "\<exists>w'. reconcileDeletion memKube (exampleCache 1) (exampleWorld 1 1 [drainedPod] 130 []) = (Inr noRequeue, w')
    \<and> v_dc (m_view w') exampleKey = Some ((exampleCache 1)\<lparr>Finalizers := []\<rparr>)"
proof -
  let ?w = "exampleWorld 1 1 [drainedPod] 130 []"
  obtain q w1 where ring: "reconcileRing memKube (exampleCache 1) ?w = (Inr q, w1)" "m_faults w1 = []"
    using example_publish [OF refl] by blast
  have "filter (\<lambda>p. Namespace p = ''default'' \<and> matchLabels exampleLabels (Labels p)) [drainedPod] = [drainedPod]"
    by (simp add: drainedPod_def)
  then have "reconcileDeletion memKube (exampleCache 1) ?w = releaseFinalizer memKube (exampleCache 1) w1"
    using ring by (simp add: reconcileDeletion_def drainedPod_loop memKube_sel(4) del: deletionLoop.simps)
  then show ?thesis
    using ring(2) by (simp add: releaseFinalizer_def mem_run keyOf_def exampleKey_def)
qed

theorem finalizer_released_after_drain_witness:
  "let w = exampleWorld 1 1 [drainedPod] 130 []; w' = snd (reconcileDeletion memKube (exampleCache 1) w)
   in v_dc (m_view w') \<noteq> v_dc (m_view w) \<and> (\<exists>now. clockIn memKube w w' now
     \<and> (\<exists>v ts. mapGet (Annotations drainedPod) drainAnnotation = Some v \<and> ParseInt v = Some ts
          \<and> 30 * Second \<le> instant now - instant (time_Unix ts)))"
proof -
  let ?w = "exampleWorld 1 1 [drainedPod] 130 []"
  obtain w' where run: "reconcileDeletion memKube (exampleCache 1) ?w = (Inr noRequeue, w')"
    and "v_dc (m_view w') exampleKey = Some ((exampleCache 1)\<lparr>Finalizers := []\<rparr>)"
    using example_release by blast
  moreover have "v_dc (m_view ?w) exampleKey = Some (exampleCache 1)"
    by (simp add: exampleWorld_def)
  moreover have "(exampleCache 1)\<lparr>Finalizers := []\<rparr> \<noteq> exampleCache 1"
    using exampleCache_sel(3) [of 1] by (metis DistributedCache.select_convs ObjectMeta.select_convs ObjectMeta.surjective ObjectMeta.update_convs(7) list.distinct(1))
  ultimately have dc: "v_dc (m_view w') \<noteq> v_dc (m_view ?w)"
    by auto
  have pods: "set (cellPods (exampleCache 1) (m_view ?w)) = {drainedPod}"
    by (simp add: example_pods drainedPod_def)
  have "asciiPods (m_view ?w)" "distinct (map keyOf (v_pods (m_view ?w)))"
    by (simp_all add: asciiPods_def exampleWorld_def drainedPod_def)
  from finalizer_released_after_drain [OF mem.cluster_api_axioms _ this run dc]
  show ?thesis
    using dc run ms.member_sort_axioms by (simp add: memKube_sel pods)
qed

text \<open>
  C31: a pod whose drain annotation is not a number blocks deletion for ever. \<open>reconcileDeletion\<close>
  neither rewrites such an annotation, as the scale-down drain does, nor counts the pod as
  drained: whatever the API server answers, a pass leaves the pod and the custom resource as
  they were and does not end without an error or a requeue.
\<close>

theorem unreadable_stamp_blocks_deletion:
  assumes "cluster_api K view" "member_sort (SortSlice K)" "asciiPods (view w)"
    and "distinct (map keyOf (v_pods (view w)))" "ContainsFinalizer K (Finalizers cache) drainFinalizer"
    and "p \<in> set (cellPods cache (view w))" "mapGet (Annotations p) drainAnnotation = Some v" "ParseInt v = None"
    and "reconcileDeletion K cache w = (r, w')"
  shows "p \<in> set (cellPods cache (view w')) \<and> v_dc (view w') = v_dc (view w)
    \<and> (r = Inr (requeueAfter 2) \<or> (\<exists>e. r = Inl e))"
proof -
  have stuck: "\<not> drained now grace p" for now grace
    using assms(7,8) by (simp add: drained_def)
  have "deletionEffect K (clockIn K w w') cache (view w) (view w')"
    by (rule cluster_api.reconcileDeletion_view [OF assms(1,9,2,3,4)])
  then obtain now S where S: "S \<subseteq> {q \<in> set (cellPods cache (view w)). mapGet (Annotations q) drainAnnotation = None}"
    and v: "v_pods (view w') = v_pods (stampAll now S (view w))" and dc: "v_dc (view w') = v_dc (view w)"
    unfolding deletionEffect_def using stuck assms(6) by blast
  have "p \<notin> S"
    using S assms(7) by auto
  then have "p \<in> set (cellPods cache (stampAll now S (view w)))"
    using assms(6) unfolding cellPods_stampAll by force
  then have pod: "p \<in> set (cellPods cache (view w'))"
    using v by (simp add: cellPods_def podsIn_def)
  show ?thesis
    using assms(9,5)
  proof (cases rule: reconcileDeletion_elim)
    case (drained pods w1 now w2 w3 q w4)
    have "pods = cellPods cache (view w)"
      using cluster_api.list_pods [OF assms(1) drained(1)] by (simp add: cellPods_def)
    with deletionLoop_result [OF drained(3)] assms(6) stuck show ?thesis
      by blast
  qed (use pod dc in auto)
qed

theorem unreadable_stamp_blocks_deletion_witness:
  "let p = cachePod ''c-0'' [(drainAnnotation, ''yesterday'')]; w = exampleWorld 1 1 [p] 130 [];
       (r, w') = reconcileDeletion memKube (exampleCache 1) w
   in p \<in> set (cellPods (exampleCache 1) (m_view w')) \<and> v_dc (m_view w') = v_dc (m_view w)"
proof -
  let ?p = "cachePod ''c-0'' [(drainAnnotation, ''yesterday'')]"
  let ?w = "exampleWorld 1 1 [?p] 130 []"
  obtain r w' where run: "reconcileDeletion memKube (exampleCache 1) ?w = (r, w')"
    by (cases "reconcileDeletion memKube (exampleCache 1) ?w")
  have "ParseInt ''yesterday'' = None"
    by code_simp
  moreover have "?p \<in> set (cellPods (exampleCache 1) (m_view ?w))"
    by (simp add: example_pods)
  moreover have "asciiPods (m_view ?w)" "distinct (map keyOf (v_pods (m_view ?w)))"
    by (simp_all add: asciiPods_def exampleWorld_def)
  moreover have "member_sort (SortSlice memKube)" "ContainsFinalizer memKube (Finalizers (exampleCache 1)) drainFinalizer"
    using ms.member_sort_axioms by (simp_all add: memKube_sel)
  ultimately show ?thesis
    using unreadable_stamp_blocks_deletion [OF mem.cluster_api_axioms, of ?w "exampleCache 1" ?p "''yesterday''" r w'] run
    by simp
qed

end
