(* ===== verification/Reconciler.thy ===== *)
theory Reconciler
  imports Deletion
begin

text \<open>
  The top of \<open>distributedcache_controller.go\<close>: the condition setters \<open>markDegraded\<close> and
  \<open>setObservedConditions\<close>, and \<open>Reconcile\<close>, which runs the stages in order, reports the first
  failure in the status and otherwise records the published ring.
\<close>

section \<open>Conditions\<close>

definition ConditionAvailable :: string where "ConditionAvailable = ''Available''"
definition ConditionProgressing :: string where "ConditionProgressing = ''Progressing''"
definition ConditionDegraded :: string where "ConditionDegraded = ''Degraded''"
definition ConditionTenantIsolated :: string where "ConditionTenantIsolated = ''TenantIsolated''"

definition ReasonReconciled :: string where "ReasonReconciled = ''Reconciled''"
definition ReasonNoReadyPods :: string where "ReasonNoReadyPods = ''NoReadyPods''"
definition ReasonInsufficientReplicas :: string where "ReasonInsufficientReplicas = ''InsufficientReplicas''"
definition ReasonRingNotPublished :: string where "ReasonRingNotPublished = ''RingNotPublished''"
definition ReasonReplicasConverging :: string where "ReasonReplicasConverging = ''ReplicasConverging''"
definition ReasonNotRequested :: string where "ReasonNotRequested = ''NotRequested''"
definition ReasonCellFailed :: string where "ReasonCellFailed = ''CellReconcileFailed''"
definition ReasonServiceFailed :: string where "ReasonServiceFailed = ''ServiceReconcileFailed''"
definition ReasonStatefulSetFailed :: string where "ReasonStatefulSetFailed = ''StatefulSetReconcileFailed''"
definition ReasonRingFailed :: string where "ReasonRingFailed = ''RingReconcileFailed''"

definition mkCondition :: "string \<Rightarrow> string \<Rightarrow> string \<Rightarrow> string \<Rightarrow> int64 \<Rightarrow> Condition" where
  "mkCondition ty status reason msg gen =
     \<lparr>c_Type = ty, c_Status = status, c_Reason = reason, c_Message = msg,
      c_ObservedGeneration = gen, c_LastTransitionTime = None\<rparr>"

text \<open>\<open>meta.SetStatusCondition(&cache.Status.Conditions, cond)\<close>.\<close>

definition setCondition ::
  "'w kube \<Rightarrow> Condition \<Rightarrow> DistributedCache \<Rightarrow> 'w \<Rightarrow> DistributedCache \<times> 'w" where
  "setCondition K cond cache w =
     (case SetStatusCondition K (Conditions (Status cache)) cond w of
        (conds, w) \<Rightarrow> (cache\<lparr>Status := (Status cache)\<lparr>Conditions := conds\<rparr>\<rparr>, w))"

definition degradedCond :: "DistributedCache \<Rightarrow> string \<Rightarrow> goerr \<Rightarrow> Condition" where
  "degradedCond cache reason err = mkCondition ConditionDegraded ''True'' reason (errorText err) (Generation cache)"

definition markDegraded ::
  "'w kube \<Rightarrow> DistributedCache \<Rightarrow> string \<Rightarrow> goerr \<Rightarrow> 'w \<Rightarrow> DistributedCache \<times> 'w" where
  "markDegraded K cache reason err w = setCondition K (degradedCond cache reason err) cache w"

text \<open>\<open>int32(len(ring.Members))\<close>.\<close>

definition readyCount :: "Ring \<Rightarrow> int32" where
  "readyCount ring = word_of_nat (length (Members ring))"

definition availableCond :: "DistributedCache \<Rightarrow> Ring \<Rightarrow> Condition" where
  "availableCond cache ring =
     (let desired = specReplicas cache;
          ready = readyCount ring;
          counts = fmtInt (sint ready) @ ''/'' @ fmtInt (sint desired);
          mk = (\<lambda>status reason msg. mkCondition ConditionAvailable status reason msg (Generation cache))
      in if ready = 0 then mk ''False'' ReasonNoReadyPods ''No cache pods are Ready.''
         else if sint ready < sint desired then
           mk ''False'' ReasonInsufficientReplicas (counts @ '' replicas Ready.'')
         else if Version ring = 0 then
           mk ''False'' ReasonRingNotPublished ''Ring ConfigMap has not been published yet.''
         else mk ''True'' ReasonReconciled
                (counts @ '' replicas Ready; ring version '' @ FormatInt (Version ring) @ ''.''))"

definition progressingCond :: "DistributedCache \<Rightarrow> Ring \<Rightarrow> Condition" where
  "progressingCond cache ring =
     (let desired = specReplicas cache;
          ready = readyCount ring
      in if ready \<noteq> desired then
           mkCondition ConditionProgressing ''True'' ReasonReplicasConverging
             (''Working toward '' @ fmtInt (sint desired) @ '' replicas (currently ''
              @ fmtInt (sint ready) @ '' Ready).'') (Generation cache)
         else mkCondition ConditionProgressing ''False'' ReasonReconciled ''Steady state.'' (Generation cache))"

definition notDegradedCond :: "DistributedCache \<Rightarrow> Condition" where
  "notDegradedCond cache =
     mkCondition ConditionDegraded ''False'' ReasonReconciled ''No degraded conditions observed.'' (Generation cache)"

definition tenantCond :: "DistributedCache \<Rightarrow> Condition" where
  "tenantCond cache =
     (if isolated cache then
        mkCondition ConditionTenantIsolated ''True'' ReasonReconciled
          (''Cell namespace '' @ targetNamespace cache @ '' with quota and NetworkPolicy active.'') (Generation cache)
      else mkCondition ConditionTenantIsolated ''False'' ReasonNotRequested
             ''spec.tenant.isolate is unset or false.'' (Generation cache))"

definition setObservedConditions ::
  "'w kube \<Rightarrow> DistributedCache \<Rightarrow> Ring \<Rightarrow> 'w \<Rightarrow> DistributedCache \<times> 'w" where
  "setObservedConditions K cache ring w =
     (case setCondition K (availableCond cache ring) cache w of
        (cache, w) \<Rightarrow>
          (case setCondition K (progressingCond cache ring) cache w of
             (cache, w) \<Rightarrow>
               (case setCondition K (notDegradedCond cache) cache w of
                  (cache, w) \<Rightarrow> setCondition K (tenantCond cache) cache w)))"

section \<open>Reconcile\<close>

text \<open>
  The four error exits: mark the resource degraded with the stage's reason, try to write the
  status (its error is dropped) and return the stage's error.
\<close>

definition failStage ::
  "'w kube \<Rightarrow> DistributedCache \<Rightarrow> string \<Rightarrow> string \<Rightarrow> goerr \<Rightarrow> ('w, Result) request" where
  "failStage K cache reason what err w =
     (case markDegraded K cache reason err w of
        (cache, w) \<Rightarrow>
          (case StatusUpdate_DC K cache w of
             (_, w) \<Rightarrow> (Inl (Wrapped what err), w)))"

definition recordRing :: "DistributedCache \<Rightarrow> Ring \<Rightarrow> DistributedCache" where
  "recordRing cache ring =
     cache\<lparr>Status := (Status cache)
       \<lparr>RingSummary := \<lparr>rs_Version = Version ring, rs_Members = Members ring,
                        rs_ConfigMapName = ringConfigMapName cache\<rparr>,
        ReadyReplicas := readyCount ring,
        ObservedGeneration := Generation cache\<rparr>\<rparr>"

text \<open>The end of \<open>Reconcile\<close>, from the assignment of \<open>cache.Status.Ring\<close> on.\<close>

definition finishReconcile ::
  "'w kube \<Rightarrow> DistributedCache \<Rightarrow> bool \<Rightarrow> Ring \<Rightarrow> ('w, Result) request" where
  "finishReconcile K cache doomedComplete ring w =
     (case setObservedConditions K (recordRing cache ring) ring w of
        (cache, w) \<Rightarrow>
          (case StatusUpdate_DC K cache w of
             (Inl e, w) \<Rightarrow> (Inl (Wrapped ''update status'' e), w)
           | (Inr cache, w) \<Rightarrow>
               if \<not> doomedComplete then (Inr (requeueAfter 2), w)
               else if isCrossNamespaceChild cache then (Inr (requeueAfter 10), w)
               else (Inr noRequeue, w)))"

definition reconcileStages :: "'w kube \<Rightarrow> DistributedCache \<Rightarrow> ('w, Result) request" where
  "reconcileStages K cache w =
     (case drainScaleDown K cache w of
        (Inl e, w) \<Rightarrow> failStage K cache ReasonStatefulSetFailed ''drain scale-down'' e w
      | (Inr doomedComplete, w) \<Rightarrow>
          (case reconcileStatefulSet K cache doomedComplete w of
             (Some e, w) \<Rightarrow> failStage K cache ReasonStatefulSetFailed ''reconcile statefulset'' e w
           | (None, w) \<Rightarrow>
               (case reconcileRing K cache w of
                  (Inl e, w) \<Rightarrow> failStage K cache ReasonRingFailed ''reconcile ring'' e w
                | (Inr ring, w) \<Rightarrow> finishReconcile K cache doomedComplete ring w)))"

definition Reconcile :: "'w kube \<Rightarrow> NamespacedName \<Rightarrow> ('w, Result) request" where
  "Reconcile K req w =
     (case Get_DC K req w of
        (Inl e, w) \<Rightarrow>
          if IsNotFound e then (Inr noRequeue, w) else (Inl (Wrapped ''get DistributedCache'' e), w)
      | (Inr cache, w) \<Rightarrow>
          if DeletionTimestamp cache \<noteq> None then reconcileDeletion K cache w
          else
            (case AddFinalizer K (Finalizers cache) drainFinalizer of
               (fins, added) \<Rightarrow>
                 if added then
                   (case Update_DC K (cache\<lparr>Finalizers := fins\<rparr>) w of
                      (Inl e, w) \<Rightarrow> (Inl (Wrapped ''add finalizer'' e), w)
                    | (Inr _, w) \<Rightarrow> (Inr \<lparr>Requeue = True, RequeueAfter = 0\<rparr>, w))
                 else
                   (case reconcileCell K cache w of
                      (Some e, w) \<Rightarrow> failStage K cache ReasonCellFailed ''reconcile cell'' e w
                    | (None, w) \<Rightarrow>
                        (case reconcileService K cache w of
                           (None, w) \<Rightarrow> reconcileStages K cache w
                         | (Some _, w) \<Rightarrow>
                             (case reconcileService K cache w of
                                (None, w) \<Rightarrow> reconcileStages K cache w
                              | (Some e, w) \<Rightarrow>
                                  failStage K cache ReasonServiceFailed ''reconcile service'' e w)))))"

section \<open>Reconcile as a run of requests\<close>

lemma setCondition_runs [run_rules]: "setCondition K cond cache w = (c, w') \<Longrightarrow> runs K w w'"
  by (auto simp: setCondition_def dest!: run_rules split: prod.splits)

lemma setObservedConditions_runs [run_rules]: "setObservedConditions K cache ring w = (c, w') \<Longrightarrow> runs K w w'"
  by (auto simp: setObservedConditions_def dest!: run_rules split: prod.splits intro: rtranclp_trans)

lemma failStage_runs [run_rules]: "failStage K cache reason what err w = (r, w') \<Longrightarrow> runs K w w'"
  by (auto simp: failStage_def markDegraded_def dest!: run_rules split: prod.splits intro: rtranclp_trans)

lemma finishReconcile_runs [run_rules]: "finishReconcile K cache complete ring w = (r, w') \<Longrightarrow> runs K w w'"
  by (auto simp: finishReconcile_def dest!: run_rules split: prod.splits sum.splits if_splits intro: rtranclp_trans)

lemma reconcileStages_runs [run_rules]: "reconcileStages K cache w = (r, w') \<Longrightarrow> runs K w w'"
  by (auto simp: reconcileStages_def dest!: run_rules split: prod.splits sum.splits option.splits intro: rtranclp_trans)

lemma Reconcile_runs [run_rules]: "Reconcile K req w = (r, w') \<Longrightarrow> runs K w w'"
  by (auto simp: Reconcile_def dest!: run_rules split: prod.splits sum.splits option.splits if_splits intro: rtranclp_trans)

section \<open>Conditions as clients read them\<close>

text \<open>\<open>meta.FindStatusCondition\<close>: the first condition of a type.\<close>

definition condOf :: "string \<Rightarrow> Condition list \<Rightarrow> Condition option" where
  "condOf ty cs = find (\<lambda>d. c_Type d = ty) cs"

text \<open>Equal up to the transition time, which \<open>SetStatusCondition\<close> maintains.\<close>

definition sameCond :: "Condition \<Rightarrow> Condition \<Rightarrow> bool" where
  "sameCond c d \<longleftrightarrow> c\<lparr>c_LastTransitionTime := None\<rparr> = d\<lparr>c_LastTransitionTime := None\<rparr>"

definition reports :: "DistributedCache \<Rightarrow> Condition \<Rightarrow> bool" where
  "reports cache c \<longleftrightarrow> (\<exists>d. condOf (c_Type c) (Conditions (Status cache)) = Some d \<and> sameCond d c)"

text \<open>The resources agree but for the conditions of the given types.\<close>

definition sameBut :: "string set \<Rightarrow> DistributedCache \<Rightarrow> DistributedCache \<Rightarrow> bool" where
  "sameBut tys cache cache' \<longleftrightarrow>
     (\<exists>cs. cache' = cache\<lparr>Status := (Status cache)\<lparr>Conditions := cs\<rparr>\<rparr>
       \<and> (\<forall>ty. ty \<notin> tys \<longrightarrow> condOf ty cs = condOf ty (Conditions (Status cache))))"

lemma sameBut_trans:
  "sameBut S a b \<Longrightarrow> sameBut T b c \<Longrightarrow> sameBut (S \<union> T) a c"
  by (auto simp: sameBut_def)

lemma sameBut_sel:
  assumes "sameBut S a b"
  shows "Generation b = Generation a" "Spec b = Spec a" "Name b = Name a" "Namespace b = Namespace a"
    "RingSummary (Status b) = RingSummary (Status a)" "ReadyReplicas (Status b) = ReadyReplicas (Status a)"
    "ObservedGeneration (Status b) = ObservedGeneration (Status a)"
  using assms by (auto simp: sameBut_def)

lemma reports_later: "reports a c \<Longrightarrow> sameBut S a b \<Longrightarrow> c_Type c \<notin> S \<Longrightarrow> reports b c"
  by (auto simp: reports_def sameBut_def)

lemma mkCondition_type [simp]: "c_Type (mkCondition ty st re msg gen) = ty"
  by (simp add: mkCondition_def)

lemma cond_types:
  "c_Type (availableCond cache ring) = ConditionAvailable" "c_Type (progressingCond cache ring) = ConditionProgressing"
  "c_Type (notDegradedCond cache) = ConditionDegraded" "c_Type (tenantCond cache) = ConditionTenantIsolated"
  "c_Type (degradedCond cache reason err) = ConditionDegraded"
  by (simp_all add: availableCond_def progressingCond_def notDegradedCond_def tenantCond_def degradedCond_def Let_def)

lemmas cond_names = ConditionAvailable_def ConditionProgressing_def ConditionDegraded_def ConditionTenantIsolated_def

lemma cond_cong:
  assumes "sameBut S a b"
  shows "progressingCond b ring = progressingCond a ring" "notDegradedCond b = notDegradedCond a"
    "tenantCond b = tenantCond a"
  using sameBut_sel [OF assms]
  by (simp_all add: progressingCond_def notDegradedCond_def tenantCond_def specReplicas_def isolated_def targetNamespace_def Let_def)

text \<open>The contract of \<open>meta.SetStatusCondition\<close>.\<close>

locale status_conditions =
  fixes K :: "'w kube"
  assumes set_cond: "SetStatusCondition K cs c w = (cs', w') \<Longrightarrow> \<exists>d. condOf (c_Type c) cs' = Some d \<and> sameCond d c"
    and keep_cond: "SetStatusCondition K cs c w = (cs', w') \<Longrightarrow> ty \<noteq> c_Type c \<Longrightarrow> condOf ty cs' = condOf ty cs"
begin

lemma setCondition_reports:
  assumes "setCondition K c cache w = (cache', w')"
  shows "reports cache' c" "sameBut {c_Type c} cache cache'"
proof -
  obtain cs where cs: "SetStatusCondition K (Conditions (Status cache)) c w = (cs, w')"
    and cache': "cache' = cache\<lparr>Status := (Status cache)\<lparr>Conditions := cs\<rparr>\<rparr>"
    using assms by (auto simp: setCondition_def split: prod.splits)
  show "reports cache' c"
    using set_cond [OF cs] by (simp add: reports_def cache')
  show "sameBut {c_Type c} cache cache'"
    using keep_cond [OF cs] unfolding sameBut_def by (intro exI [of _ cs]) (simp add: cache')
qed

lemma setObservedConditions_reports:
  assumes "setObservedConditions K cache ring w = (cache', w')"
  shows "reports cache' (availableCond cache ring) \<and> reports cache' (progressingCond cache ring)
    \<and> reports cache' (notDegradedCond cache) \<and> reports cache' (tenantCond cache)
    \<and> sameBut {ConditionAvailable, ConditionProgressing, ConditionDegraded, ConditionTenantIsolated} cache cache'"
proof -
  obtain c1 c2 c3 w1 w2 w3 where
    1: "setCondition K (availableCond cache ring) cache w = (c1, w1)" and
    2: "setCondition K (progressingCond c1 ring) c1 w1 = (c2, w2)" and
    3: "setCondition K (notDegradedCond c2) c2 w2 = (c3, w3)" and
    4: "setCondition K (tenantCond c3) c3 w3 = (cache', w')"
    using assms by (auto simp: setObservedConditions_def split: prod.splits)
  note s1 = setCondition_reports [OF 1, unfolded cond_types]
    and s2 = setCondition_reports [OF 2, unfolded cond_types]
    and s3 = setCondition_reports [OF 3, unfolded cond_types]
    and s4 = setCondition_reports [OF 4, unfolded cond_types]
  note t2 = sameBut_trans [OF s1(2) s2(2)]
  note t3 = sameBut_trans [OF t2 s3(2)]
  note t34 = sameBut_trans [OF s3(2) s4(2)]
  note t234 = sameBut_trans [OF s2(2) t34]
  have "reports cache' (availableCond cache ring)"
    by (rule reports_later [OF s1(1) t234]) (simp add: cond_types cond_names)
  moreover have "reports cache' (progressingCond cache ring)"
    using reports_later [OF s2(1) t34] cond_cong(1) [OF s1(2)] by (simp add: cond_types cond_names)
  moreover have "reports cache' (notDegradedCond cache)"
    using reports_later [OF s3(1) s4(2)] cond_cong(2) [OF t2] by (simp add: cond_types cond_names)
  moreover have "reports cache' (tenantCond cache)"
    using s4(1) cond_cong(3) [OF t3] by simp
  moreover have "sameBut {ConditionAvailable, ConditionProgressing, ConditionDegraded, ConditionTenantIsolated} cache cache'"
    using sameBut_trans [OF s1(2) t234] by (simp add: insert_commute)
  ultimately show ?thesis
    by blast
qed

end

lemma condOf_filter: "ty \<noteq> ty' \<Longrightarrow> condOf ty (filter (\<lambda>d. c_Type d \<noteq> ty') cs @ [c]) =
    (if c_Type c = ty \<and> condOf ty cs = None then Some c else condOf ty cs)"
  by (induction cs) (auto simp: condOf_def)

lemma condOf_removed: "c_Type c = ty \<Longrightarrow> condOf ty (filter (\<lambda>d. c_Type d \<noteq> ty) cs @ [c]) = Some c"
  by (induction cs) (auto simp: condOf_def)

interpretation mem_cond: status_conditions memKube
  by unfold_locales
     (auto simp: memKube_sel memSetCondition_def condOf_removed condOf_filter sameCond_def)

lemma sameCond_sel:
  assumes "sameCond d c"
  shows "c_Status d = c_Status c" "c_Reason d = c_Reason c" "c_Message d = c_Message c"
    "c_ObservedGeneration d = c_ObservedGeneration c"
  using assms by (cases c; cases d; simp add: sameCond_def)+

lemma reports_sel:
  assumes "reports cache c"
  shows "map_option c_Status (condOf (c_Type c) (Conditions (Status cache))) = Some (c_Status c)"
    "map_option c_ObservedGeneration (condOf (c_Type c) (Conditions (Status cache))) = Some (c_ObservedGeneration c)"
  using assms sameCond_sel by (auto simp: reports_def)

lemma sint_readyCount: "length (Members ring) < 2 ^ 31 \<Longrightarrow> sint (readyCount ring) = int (length (Members ring))"
  using sint32_of_int [of "int (length (Members ring))"] by (simp add: readyCount_def)

lemma readyCount_eq:
  "length (Members ring) < 2 ^ 31 \<Longrightarrow> readyCount ring = d \<longleftrightarrow> int (length (Members ring)) = sint d"
  by (metis sint_readyCount signed_word_eqI)

lemma cond_status:
  "length (Members ring) < 2 ^ 31 \<Longrightarrow> c_Status (availableCond cache ring) =
    (if 0 < int (length (Members ring)) \<and> sint (specReplicas cache) \<le> int (length (Members ring)) \<and> Version ring \<noteq> 0
     then ''True'' else ''False'')"
  "length (Members ring) < 2 ^ 31 \<Longrightarrow> c_Status (progressingCond cache ring) =
    (if int (length (Members ring)) \<noteq> sint (specReplicas cache) then ''True'' else ''False'')"
  "c_Status (notDegradedCond cache) = ''False''"
  "c_Status (tenantCond cache) = (if isolated cache then ''True'' else ''False'')"
  by (auto simp: availableCond_def progressingCond_def notDegradedCond_def tenantCond_def mkCondition_def Let_def
      readyCount_eq sint_readyCount)

lemma cond_generation:
  "c_ObservedGeneration (availableCond cache ring) = Generation cache"
  "c_ObservedGeneration (progressingCond cache ring) = Generation cache"
  "c_ObservedGeneration (notDegradedCond cache) = Generation cache"
  "c_ObservedGeneration (tenantCond cache) = Generation cache"
  by (simp_all add: availableCond_def progressingCond_def notDegradedCond_def tenantCond_def mkCondition_def Let_def)

text \<open>The prefix of a stage's error and the reason it is reported under.\<close>

definition stageReasons :: "(string \<times> string) list" where
  "stageReasons =
     [(''reconcile cell'', ReasonCellFailed), (''reconcile service'', ReasonServiceFailed),
      (''drain scale-down'', ReasonStatefulSetFailed), (''reconcile statefulset'', ReasonStatefulSetFailed),
      (''reconcile ring'', ReasonRingFailed)]"

lemma stageReasons_mem:
  "(''reconcile cell'', ReasonCellFailed) \<in> set stageReasons"
  "(''reconcile service'', ReasonServiceFailed) \<in> set stageReasons"
  "(''drain scale-down'', ReasonStatefulSetFailed) \<in> set stageReasons"
  "(''reconcile statefulset'', ReasonStatefulSetFailed) \<in> set stageReasons"
  "(''reconcile ring'', ReasonRingFailed) \<in> set stageReasons"
  by (simp_all add: stageReasons_def)

text \<open>The last request before the world \<open>w'\<close> was a status update that accounts for the error \<open>e\<close>.\<close>

definition failureReported :: "'w kube \<Rightarrow> DistributedCache \<Rightarrow> goerr \<Rightarrow> 'w \<Rightarrow> bool" where
  "failureReported K cache e w' \<longleftrightarrow> (\<exists>cache' w2 res. StatusUpdate_DC K cache' w2 = (res, w') \<and>
     ((\<exists>x. e = Wrapped ''update status'' x \<and> res = Inl x) \<or>
      (\<exists>what reason err. e = Wrapped what err \<and> (what, reason) \<in> set stageReasons
         \<and> sameBut {ConditionDegraded} cache cache' \<and> reports cache' (degradedCond cache reason err))))"

context status_conditions
begin

lemma failStage_reported:
  assumes "failStage K cache reason what err w = (Inl e, w')" "(what, reason) \<in> set stageReasons"
  shows "failureReported K cache e w'"
proof -
  obtain cache' w1 where c: "setCondition K (degradedCond cache reason err) cache w = (cache', w1)"
    by (cases "setCondition K (degradedCond cache reason err) cache w")
  obtain res where "StatusUpdate_DC K cache' w1 = (res, w')" "e = Wrapped what err"
    using assms(1) c by (auto simp: failStage_def markDegraded_def split: prod.splits)
  then show ?thesis
    using setCondition_reports [OF c, unfolded cond_types] assms(2) unfolding failureReported_def by blast
qed

lemma reconcileStages_reported:
  assumes "reconcileStages K cache w = (Inl e, w')"
  shows "failureReported K cache e w'"
proof -
  have "failureReported K cache e w'" if "finishReconcile K cache complete ring w1 = (Inl e, w')" for complete ring w1
    using that
    by (auto simp: finishReconcile_def failureReported_def split: prod.splits sum.splits if_splits)
  then show ?thesis
    using assms unfolding reconcileStages_def
    by (auto split: prod.splits sum.splits option.splits intro: failStage_reported stageReasons_mem)
qed

end

section \<open>Properties\<close>

text \<open>
  C25: the four conditions a successful pass writes tell the truth about the ring and the spec.
  Available is True exactly when there is a member, there are at least as many as specified and
  the ring has a version; Progressing is True exactly when the counts differ; Degraded is False;
  TenantIsolated is True exactly when isolation is requested. Each carries the generation of the
  spec it was computed from, and every other condition and field is left alone.
\<close>

theorem observed_conditions_truthful:
  assumes "status_conditions K" "length (Members ring) < 2 ^ 31"
    and "setObservedConditions K cache ring w = (cache', w')"
  shows "let n = int (length (Members ring)); d = sint (specReplicas cache);
             status = (\<lambda>ty. map_option c_Status (condOf ty (Conditions (Status cache'))));
             gen = (\<lambda>ty. map_option c_ObservedGeneration (condOf ty (Conditions (Status cache'))));
             tys = {ConditionAvailable, ConditionProgressing, ConditionDegraded, ConditionTenantIsolated}
    in status ConditionAvailable = Some (if 0 < n \<and> d \<le> n \<and> Version ring \<noteq> 0 then ''True'' else ''False'')
     \<and> status ConditionProgressing = Some (if n \<noteq> d then ''True'' else ''False'')
     \<and> status ConditionDegraded = Some ''False''
     \<and> status ConditionTenantIsolated = Some (if isolated cache then ''True'' else ''False'')
     \<and> (\<forall>ty \<in> tys. gen ty = Some (Generation cache)) \<and> sameBut tys cache cache'"
proof -
  note rep = status_conditions.setObservedConditions_reports [OF assms(1,3)]
  have available: "reports cache' (availableCond cache ring)" and progressing: "reports cache' (progressingCond cache ring)"
    and degraded: "reports cache' (notDegradedCond cache)" and tenant: "reports cache' (tenantCond cache)"
    using rep by blast+
  note sel = cond_types cond_generation cond_status(1,2) [OF assms(2)] cond_status(3,4)
  note a = reports_sel [OF available, unfolded sel] and p = reports_sel [OF progressing, unfolded sel]
    and d = reports_sel [OF degraded, unfolded sel] and t = reports_sel [OF tenant, unfolded sel]
  have "\<forall>ty \<in> {ConditionAvailable, ConditionProgressing, ConditionDegraded, ConditionTenantIsolated}.
    map_option c_ObservedGeneration (condOf ty (Conditions (Status cache'))) = Some (Generation cache)"
    using a(2) p(2) d(2) t(2) by (simp del: map_option_eq_Some)
  with a(1) p(1) d(1) t(1) rep show ?thesis
    unfolding Let_def by blast
qed

theorem observed_conditions_truthful_witness:
  "let ring = \<lparr>Version = 3, Members = [''c-0'', ''c-1'']\<rparr>;
       (cache', w') = setObservedConditions memKube (exampleCache 2) ring (exampleWorld 2 2 [] 130 [])
   in map_option c_Status (condOf ConditionAvailable (Conditions (Status cache'))) = Some ''True''
     \<and> map_option c_Status (condOf ConditionProgressing (Conditions (Status cache'))) = Some ''False''"
proof -
  let ?ring = "\<lparr>Version = 3, Members = [''c-0'', ''c-1'']\<rparr> :: Ring"
  obtain cache' w' where run: "setObservedConditions memKube (exampleCache 2) ?ring (exampleWorld 2 2 [] 130 []) = (cache', w')"
    by (cases "setObservedConditions memKube (exampleCache 2) ?ring (exampleWorld 2 2 [] 130 [])")
  from observed_conditions_truthful [OF mem_cond.status_conditions_axioms _ run] show ?thesis
    by (simp add: run Let_def)
qed

text \<open>
  C14: failures are reported. If \<open>Reconcile\<close> returns an error for a live resource that has its
  finalizer, then its last request is a status update. Either that update itself failed and its
  error is returned, or the error of the failing stage is returned and the resource submitted is
  the one read with Degraded set to True, under the reason of the stage, with the text of the
  error and the generation read; no other condition or field of it is changed.
\<close>

theorem reconcile_failure_is_reported:
  assumes "status_conditions K" "Get_DC K req w = (Inr cache, w1)" "DeletionTimestamp cache = None"
    and "AddFinalizer K (Finalizers cache) drainFinalizer = (fins, False)"
    and "Reconcile K req w = (Inl e, w')"
  shows "\<exists>cache' w2 res. StatusUpdate_DC K cache' w2 = (res, w') \<and>
    ((\<exists>x. e = Wrapped ''update status'' x \<and> res = Inl x) \<or>
     (\<exists>what reason err. e = Wrapped what err \<and> (what, reason) \<in> set stageReasons
        \<and> sameBut {ConditionDegraded} cache cache'
        \<and> reports cache' (mkCondition ConditionDegraded ''True'' reason (errorText err) (Generation cache))))"
proof -
  have "failureReported K cache e w'"
    using assms(2-5) unfolding Reconcile_def
    by (auto split: prod.splits option.splits intro: stageReasons_mem
        status_conditions.reconcileStages_reported [OF assms(1)] status_conditions.failStage_reported [OF assms(1)])
  then show ?thesis
    by (simp add: failureReported_def degradedCond_def)
qed

lemma example_refused:
  "reconcileService memKube (exampleCache m) (exampleWorld m n ps ts (Refused # fs))
    = (Some (Wrapped ''CreateOrUpdate Service'' timeoutErr), exampleWorld m n ps ts fs)"
  by (simp add: reconcileService_def mem_run exampleWorld_def mutateService_def newService_def newMeta_def
      setControllerReferenceIfSameNamespace_def ObjectMeta.extend_def Service.fields_def ObjectMeta.truncate_def Let_def)

theorem reconcile_failure_is_reported_witness:
  "let w = exampleWorld 2 2 [] 130 [NoFault, Refused, Refused]; (r, w') = Reconcile memKube exampleKey w
   in \<exists>e. r = Inl e \<and> (\<exists>cache' w2 res. StatusUpdate_DC memKube cache' w2 = (res, w'))"
proof -
  let ?w = "exampleWorld 2 2 [] 130 [NoFault, Refused, Refused]"
  let ?w1 = "exampleWorld 2 2 [] 130 [Refused, Refused]"
  have get: "Get_DC memKube exampleKey ?w = (Inr (exampleCache 2), ?w1)"
    by (simp add: memKube_sel memRead_def takeFault_def exampleWorld_def)
  have fin: "AddFinalizer memKube (Finalizers (exampleCache 2)) drainFinalizer = ([drainFinalizer], False)"
    by (simp add: memKube_sel)
  obtain r w' where run: "Reconcile memKube exampleKey ?w = (r, w')"
    by (cases "Reconcile memKube exampleKey ?w")
  have "Reconcile memKube exampleKey ?w = failStage memKube (exampleCache 2) ReasonServiceFailed ''reconcile service''
    (Wrapped ''CreateOrUpdate Service'' timeoutErr) (exampleWorld 2 2 [] 130 [])"
    using get fin by (simp add: Reconcile_def reconcileCell_def example_refused)
  then obtain e where "r = Inl e"
    using run by (auto simp: failStage_def split: prod.splits)
  with reconcile_failure_is_reported [OF mem_cond.status_conditions_axioms get _ fin, of e w'] run show ?thesis
    by (auto simp: Let_def)
qed

end
