(* ===== verification/Cells.thy ===== *)
theory Cells
  imports Example
begin

text \<open>
  What the cell and Service operations of the theory \<open>Cell\<close> do to a cluster: the objects a
  successful \<open>reconcileCell\<close> leaves, the arithmetic of the quota, and that the mutate functions
  are idempotent, so that a steady state is not written again.
\<close>

section \<open>Effects\<close>

definition cellKey :: "DistributedCache \<Rightarrow> string \<Rightarrow> NamespacedName" where
  "cellKey cache name = \<lparr>nn_Namespace = targetNamespace cache, nn_Name = name\<rparr>"

definition quotaHard :: "'w kube \<Rightarrow> DistributedCache \<Rightarrow> (string \<times> Quantity) list" where
  "quotaHard K cache = [(''pods'', resourceQuantity K (word_of_int (sint (podCap cache)))),
     (''limits.memory'', quotaMemory K cache), (''requests.memory'', quotaMemory K cache)]"

lemma newMeta_keys [simp]:
  "keyOf (ObjectMeta.extend (newMeta name ns) ext) = \<lparr>nn_Namespace = ns, nn_Name = name\<rparr>"
  by (simp add: keyOf_def ObjectMeta.extend_def newMeta_def)

lemma setOwner_frame:
  "setControllerReferenceIfSameNamespace K cache child = Inr d \<Longrightarrow> \<exists>refs. d = child\<lparr>OwnerReferences := refs\<rparr>"
  by (auto simp: setControllerReferenceIfSameNamespace_def split: if_splits sum.splits
      intro: exI [of _ "OwnerReferences child"])

lemma mutateResourceQuota_hard: "mutateResourceQuota K cache q = Inr d \<Longrightarrow> Hard d = quotaHard K cache"
  by (auto simp: mutateResourceQuota_def quotaHard_def dest!: setOwner_frame)

lemma mutateNetworkPolicy_spec: "mutateNetworkPolicy K cache p = Inr d \<Longrightarrow> np_Spec d = cellPolicy"
  by (auto simp: mutateNetworkPolicy_def dest!: setOwner_frame)

lemma mutateService_spec:
  "mutateService K cache s = Inr d \<Longrightarrow>
   svc_Selector d = podLabels cache \<and> svc_ClusterIP d = ''None'' \<and> svc_Ports d = [httpPort]"
  by (auto simp: mutateService_def dest!: setOwner_frame)

lemma mutateNamespace_labels:
  "mutateNamespace cache n = Inr d \<Longrightarrow>
   mapGet (Labels d) cellOfLabel = Some (Namespace cache @ ''.'' @ Name cache)
   \<and> mapGet (Labels d) labelManagedBy = Some managedByValue"
  by (auto simp: mutateNamespace_def setLabels_def cellOfLabel_def labelManagedBy_def labelComponent_def)

context cluster_api
begin

lemma reconcileCellNamespace_view:
  assumes "reconcileCellNamespace K cache w = (r, w')"
  shows "r \<noteq> None \<and> view w' = view w \<or>
    (\<exists>c. view w' = (view w)\<lparr>v_ns := (v_ns (view w))(targetNamespace cache \<mapsto> c)\<rparr> \<and> mapGet (Labels c) cellOfLabel = Some (Namespace cache @ ''.'' @ Name cache) \<and>
      mapGet (Labels c) labelManagedBy = Some managedByValue)"
proof -
  let ?o = "newMeta (targetNamespace cache) ''''"
  obtain u w1 where u: "CreateOrUpdate_NS K ?o (mutateNamespace cache) w = (u, w1)"
    by (cases "CreateOrUpdate_NS K ?o (mutateNamespace cache) w")
  have "view w' = view w1" "(\<exists>e. u = Inl e) \<longleftrightarrow> r \<noteq> None"
    using assms u by (auto simp: reconcileCellNamespace_def Let_def event_view split: sum.splits prod.splits if_splits)
  with apply_ns [OF u] show ?thesis
    by (auto simp: newMeta_sel dest!: mutateNamespace_labels)
qed

lemma reconcileResourceQuota_view:
  assumes "reconcileResourceQuota K cache w = (r, w')"
  shows "r \<noteq> None \<and> view w' = view w \<or>
    (\<exists>c. view w' = (view w)\<lparr>v_rq := (v_rq (view w))(cellKey cache ''cell-quota'' \<mapsto> c)\<rparr> \<and> Hard c = quotaHard K cache)"
proof -
  let ?o = "ObjectMeta.extend (newMeta ''cell-quota'' (targetNamespace cache)) (ResourceQuota.fields []) :: ResourceQuota"
  obtain u w1 where u: "CreateOrUpdate_RQ K ?o (mutateResourceQuota K cache) w = (u, w1)"
    by (cases "CreateOrUpdate_RQ K ?o (mutateResourceQuota K cache) w")
  have "view w' = view w1" "(\<exists>e. u = Inl e) \<longleftrightarrow> r \<noteq> None"
    using assms u by (auto simp: reconcileResourceQuota_def Let_def event_view split: sum.splits prod.splits if_splits)
  with apply_rq [OF u] show ?thesis
    by (auto simp: cellKey_def dest!: mutateResourceQuota_hard)
qed

lemma reconcileNetworkPolicy_view:
  assumes "reconcileNetworkPolicy K cache w = (r, w')"
  shows "r \<noteq> None \<and> view w' = view w \<or>
    (\<exists>c. view w' = (view w)\<lparr>v_np := (v_np (view w))(cellKey cache ''cell-isolation'' \<mapsto> c)\<rparr> \<and> np_Spec c = cellPolicy)"
proof -
  let ?o = "ObjectMeta.extend (newMeta ''cell-isolation'' (targetNamespace cache))
    (NetworkPolicy.fields emptyPolicy) :: NetworkPolicy"
  obtain u w1 where u: "CreateOrUpdate_NP K ?o (mutateNetworkPolicy K cache) w = (u, w1)"
    by (cases "CreateOrUpdate_NP K ?o (mutateNetworkPolicy K cache) w")
  have "view w' = view w1" "(\<exists>e. u = Inl e) \<longleftrightarrow> r \<noteq> None"
    using assms u by (auto simp: reconcileNetworkPolicy_def Let_def event_view split: sum.splits prod.splits if_splits)
  with apply_np [OF u] show ?thesis
    by (auto simp: cellKey_def dest!: mutateNetworkPolicy_spec)
qed

lemma reconcileService_view:
  assumes "reconcileService K cache w = (r, w')"
  shows "r \<noteq> None \<and> view w' = view w \<or>
    (\<exists>c. view w' = (view w)\<lparr>v_svc := (v_svc (view w))(cellKey cache (Name cache) \<mapsto> c)\<rparr> \<and> svc_Selector c = podLabels cache \<and>
      svc_ClusterIP c = ''None'' \<and> svc_Ports c = [httpPort])"
proof -
  let ?o = "newService cache"
  obtain u w1 where u: "CreateOrUpdate_SVC K ?o (mutateService K cache) w = (u, w1)"
    by (cases "CreateOrUpdate_SVC K ?o (mutateService K cache) w")
  have "view w' = view w1" "(\<exists>e. u = Inl e) \<longleftrightarrow> r \<noteq> None"
    using assms u by (auto simp: reconcileService_def Let_def event_view split: sum.splits prod.splits if_splits)
  with apply_svc [OF u] show ?thesis
    by (auto simp: cellKey_def newService_def dest!: mutateService_spec)
qed

lemma reconcileService_work: "reconcileService K cache w = (r, w') \<Longrightarrow> sameWork (view w) (view w')"
  by (auto dest!: reconcileService_view)

lemma reconcileCell_view:
  assumes "reconcileCell K cache w = (r, w')"
  shows "sameWork (view w) (view w')"
  using assms
  by (auto simp: reconcileCell_def sameWork_def split: prod.splits option.splits if_splits
      dest!: reconcileCellNamespace_view reconcileResourceQuota_view reconcileNetworkPolicy_view)

end

section \<open>The quota\<close>

text \<open>The contract of \<open>resource.Quantity\<close>: a quantity has the value it was set to.\<close>

locale quantity_api =
  fixes K :: "'w kube"
  assumes value_set: "QuantityValue K (QuantitySet K q v) = v"
    and value_new: "QuantityValue K (NewQuantity K v) = v"
begin

lemma quotaMemory_value:
  assumes "0 \<le> sint (QuantityValue K (MemoryPerPod (Spec cache)))" "0 \<le> sint (specReplicas cache)"
    and "5 * (sint (QuantityValue K (MemoryPerPod (Spec cache))) * sint (specReplicas cache)) < 2 ^ 65"
  shows "sint (QuantityValue K (quotaMemory K cache)) =
    sint (QuantityValue K (MemoryPerPod (Spec cache))) * sint (specReplicas cache)
    + sint (QuantityValue K (MemoryPerPod (Spec cache))) * sint (specReplicas cache) div 4"
proof -
  let ?m = "QuantityValue K (MemoryPerPod (Spec cache))"
  let ?t = "sint ?m * sint (specReplicas cache)"
  let ?w = "?m * word_of_int (sint (specReplicas cache))"
  have t: "0 \<le> ?t" "?t + ?t div 4 < 2 ^ 63"
    using assms by simp_all
  have "?w = word_of_int ?t"
    by simp
  moreover have "sint (word_of_int ?t :: int64) = ?t"
    using t by (intro sint64_of_int) simp_all
  ultimately have w: "sint ?w = ?t" by simp
  then have "goDiv ?w 4 = word_of_int (?t div 4)"
    using t(1) by (auto simp: goDiv_def sgn_if)
  then have "QuantityValue K (quotaMemory K cache) = word_of_int (?t + ?t div 4)"
    using w by (simp add: quotaMemory_def value_set Let_def)
  moreover have "sint (word_of_int (?t + ?t div 4) :: int64) = ?t + ?t div 4"
    using t by (intro sint64_of_int) simp_all
  ultimately show ?thesis by (simp only:)
qed

end

interpretation mem_quantity: quantity_api memKube
  by unfold_locales (simp_all add: memKube_sel decimalValue_def)

section \<open>Idempotence\<close>

text \<open>The contract of \<open>controllerutil.SetControllerReference\<close>: setting the same owner again changes nothing.\<close>

locale owner_refs =
  fixes K :: "'w kube"
  assumes set_again: "SetControllerReference K c m = Inr refs \<Longrightarrow>
    SetControllerReference K c (m\<lparr>OwnerReferences := refs\<rparr>) = Inr refs"
begin

lemma setOwner_again:
  assumes "setControllerReferenceIfSameNamespace K cache child = Inr d"
  shows "setControllerReferenceIfSameNamespace K cache d = Inr d"
proof (cases "isCrossNamespaceChild cache")
  case True
  then show ?thesis
    by (simp add: setControllerReferenceIfSameNamespace_def)
next
  case False
  then obtain refs where refs: "SetControllerReference K cache (ObjectMeta.truncate child) = Inr refs"
    and d: "d = child\<lparr>OwnerReferences := refs\<rparr>"
    using assms by (auto simp: setControllerReferenceIfSameNamespace_def split: sum.splits)
  have "ObjectMeta.truncate d = (ObjectMeta.truncate child)\<lparr>OwnerReferences := refs\<rparr>"
    by (simp add: d ObjectMeta.truncate_def)
  then show ?thesis
    using set_again [OF refs] False by (simp add: setControllerReferenceIfSameNamespace_def d)
qed

lemma setOwner_stable:
  assumes "setControllerReferenceIfSameNamespace K cache (f x) = Inr d"
    and "\<And>refs. f ((f x)\<lparr>OwnerReferences := refs\<rparr>) = (f x)\<lparr>OwnerReferences := refs\<rparr>"
  shows "setControllerReferenceIfSameNamespace K cache (f d) = Inr d"
  using setOwner_frame [OF assms(1)] setOwner_again [OF assms(1)] assms(2) by auto

end

lemma setLabels_again [simp]: "setLabels cache c (setLabels cache c ls) = setLabels cache c ls"
  by (simp add: setLabels_def labelName_def labelInstance_def labelManagedBy_def labelComponent_def)

lemma cellOf_labels_again [simp]:
  "mapPut cellOfLabel v (setLabels cache c (mapPut cellOfLabel v (setLabels cache c ls))) =
   mapPut cellOfLabel v (setLabels cache c ls)"
  by (simp add: setLabels_def cellOfLabel_def labelName_def labelInstance_def labelManagedBy_def labelComponent_def)

interpretation mem_owner: owner_refs memKube
  by unfold_locales (simp add: memKube_sel(1) list_ex_iff split: if_splits, clarsimp)

section \<open>Properties\<close>

text \<open>
  C18: a cell is established before anything is put into it. If \<open>reconcileCell\<close> succeeds for an
  isolated resource on a cluster that keeps the API server's contract, the cell namespace exists
  and names its owner, the namespace has the quota, and the network policy that admits traffic
  only from the cell's own pods.
\<close>

theorem cell_established:
  assumes "cluster_api K view" "isolated cache" "reconcileCell K cache w = (None, w')"
  shows "(\<exists>n. v_ns (view w') (cellNamespacePrefix @ Name cache) = Some n
      \<and> mapGet (Labels n) cellOfLabel = Some (Namespace cache @ ''.'' @ Name cache))
    \<and> (\<exists>q. v_rq (view w') (cellKey cache ''cell-quota'') = Some q \<and> Hard q = quotaHard K cache)
    \<and> (\<exists>p. v_np (view w') (cellKey cache ''cell-isolation'') = Some p \<and> np_Spec p = cellPolicy)"
proof -
  obtain w1 w2 where 1: "reconcileCellNamespace K cache w = (None, w1)"
    and 2: "reconcileResourceQuota K cache w1 = (None, w2)" and 3: "reconcileNetworkPolicy K cache w2 = (None, w')"
    using assms(2,3) by (auto simp: reconcileCell_def split: prod.splits option.splits)
  have "targetNamespace cache = cellNamespacePrefix @ Name cache"
    using assms(2) by (simp add: targetNamespace_def)
  then show ?thesis
    using cluster_api.reconcileCellNamespace_view [OF assms(1) 1] cluster_api.reconcileResourceQuota_view [OF assms(1) 2]
      cluster_api.reconcileNetworkPolicy_view [OF assms(1) 3]
    by auto
qed

definition isolatedCache :: "int32 \<Rightarrow> DistributedCache" where
  "isolatedCache m = (exampleCache m)\<lparr>Spec := (Spec (exampleCache m))\<lparr>Tenant := Some \<lparr>Isolate = True\<rparr>\<rparr>\<rparr>"

lemma isolatedCache_sel [simp]:
  "isolated (isolatedCache m)" "Name (isolatedCache m) = ''c''" "Namespace (isolatedCache m) = ''default''"
  "isCrossNamespaceChild (isolatedCache m)" "specReplicas (isolatedCache m) = m"
  by (simp_all add: isolatedCache_def isolated_def isCrossNamespaceChild_def targetNamespace_def
      cellNamespacePrefix_def specReplicas_def)

theorem cell_established_witness:
  "let w = exampleWorld 1 1 [] 130 []; (r, w') = reconcileCell memKube (isolatedCache 2) w
   in r = None \<and> (\<exists>q. v_rq (m_view w') (cellKey (isolatedCache 2) ''cell-quota'') = Some q
        \<and> Hard q = quotaHard memKube (isolatedCache 2))"
proof -
  let ?w = "exampleWorld 1 1 [] 130 []"
  obtain r w' where run: "reconcileCell memKube (isolatedCache 2) ?w = (r, w')"
    by (cases "reconcileCell memKube (isolatedCache 2) ?w")
  have "r = None"
    using run by (simp add: reconcileCell_def reconcileCellNamespace_def reconcileResourceQuota_def
      reconcileNetworkPolicy_def mem_run exampleWorld_def mutateNamespace_def mutateResourceQuota_def
      mutateNetworkPolicy_def setControllerReferenceIfSameNamespace_def Let_def)
  with cell_established [OF mem.cluster_api_axioms _ run [unfolded \<open>r = None\<close>]] run show ?thesis
    by simp
qed

text \<open>
  C28: the quota of a cell is \<open>spec.replicas\<close> times \<open>spec.memoryPerPod\<close> plus a quarter of it,
  rounded down, for both limits and requests, and one pod more than specified, as long as the
  products fit: the memory below \<open>2 ^ 63\<close> and the count below the largest \<open>int32\<close>.
\<close>

theorem quota_arithmetic:
  assumes "quantity_api K"
    and "0 \<le> sint (QuantityValue K (MemoryPerPod (Spec cache)))" "0 \<le> sint (specReplicas cache)"
    and "5 * (sint (QuantityValue K (MemoryPerPod (Spec cache))) * sint (specReplicas cache)) < 2 ^ 65"
    and "sint (specReplicas cache) < 2 ^ 31 - 1"
  shows "let total = sint (QuantityValue K (MemoryPerPod (Spec cache))) * sint (specReplicas cache)
    in map (\<lambda>(name, q). (name, sint (QuantityValue K q))) (quotaHard K cache) =
       [(''pods'', sint (specReplicas cache) + 1), (''limits.memory'', total + total div 4),
        (''requests.memory'', total + total div 4)]"
proof -
  have "sint (podCap cache) = sint (specReplicas cache) + 1"
    using assms(3,5) sint32_of_int [of "sint (specReplicas cache) + 1"] by (simp add: podCap_def)
  moreover have "sint (word_of_int (sint (podCap cache)) :: int64) = sint (podCap cache)"
    using sint32_bounds [of "podCap cache"] by (intro sint64_of_int) simp_all
  ultimately show ?thesis
    using quantity_api.quotaMemory_value [OF assms(1-4)] quantity_api.value_new [OF assms(1)]
    by (simp add: quotaHard_def resourceQuantity_def Let_def)
qed

theorem quota_arithmetic_witness:
  "map (\<lambda>(name, q). (name, sint (QuantityValue memKube q))) (quotaHard memKube (isolatedCache 3)) =
     [(''pods'', 4), (''limits.memory'', 3840), (''requests.memory'', 3840)]"
proof -
  have "QuantityValue memKube (MemoryPerPod (Spec (isolatedCache 3))) = 1024"
    by code_simp
  with quota_arithmetic [OF mem_quantity.quantity_api_axioms, of "isolatedCache 3"] show ?thesis
    by (simp add: Let_def)
qed

end
