(* ===== verification/Operator.thy ===== *)
theory Operator
  imports Reconciler Cells
begin

text \<open>
  What the reconciler does to a cluster that keeps the API server's contract: the effect of one
  pass of \<open>Reconcile\<close> on pods, StatefulSets and rings, and runs of passes with changes by others
  in between.
\<close>

section \<open>What a pass changes\<close>

context cluster_api
begin

lemma setCondition_view: "setCondition K cond cache w = (cache', w') \<Longrightarrow> view w' = view w"
  using condition_view by (auto simp: setCondition_def split: prod.splits)

lemma setObservedConditions_view: "setObservedConditions K cache ring w = (cache', w') \<Longrightarrow> view w' = view w"
  by (auto simp: setObservedConditions_def dest!: setCondition_view split: prod.splits)

lemma failStage_view: "failStage K cache reason what err w = (r, w') \<Longrightarrow> sameWork (view w) (view w')"
  using status_dc
  by (fastforce simp: failStage_def markDegraded_def dest!: setCondition_view split: prod.splits)

lemma finishReconcile_view:
  "finishReconcile K cache complete ring w = (r, w') \<Longrightarrow> sameWork (view w) (view w')"
  using status_dc
  by (fastforce simp: finishReconcile_def dest!: setObservedConditions_view
      split: prod.splits sum.splits if_splits)

text \<open>The cell and the Service, which come before the other stages.\<close>

lemma servicePrefix:
  assumes "(case reconcileCell K cache w of
      (Some e, w) \<Rightarrow> failStage K cache ReasonCellFailed ''reconcile cell'' e w
    | (None, w) \<Rightarrow>
        (case reconcileService K cache w of
           (None, w) \<Rightarrow> reconcileStages K cache w
         | (Some _, w) \<Rightarrow>
             (case reconcileService K cache w of
                (None, w) \<Rightarrow> reconcileStages K cache w
              | (Some e, w) \<Rightarrow> failStage K cache ReasonServiceFailed ''reconcile service'' e w))) = (r, w')"
  obtains (stages) w1 where "sameWork (view w) (view w1)" "runs K w w1" "reconcileStages K cache w1 = (r, w')"
  | (fail) w1 reason what e where "sameWork (view w) (view w1)" "runs K w w1" "failStage K cache reason what e w1 = (r, w')"
      "what \<in> {''reconcile cell'', ''reconcile service''}"
proof -
  obtain c w1 s w2 t w3 where c: "reconcileCell K cache w = (c, w1)" and s: "reconcileService K cache w1 = (s, w2)"
    and t: "reconcileService K cache w2 = (t, w3)"
    by (metis surj_pair)
  have "sameWork (view w) (view w1)" "sameWork (view w) (view w2)" "sameWork (view w) (view w3)"
    using reconcileCell_view [OF c] reconcileService_work [OF s] reconcileService_work [OF t]
    by (simp_all add: sameWork_def)
  moreover have "runs K w w1" "runs K w w2" "runs K w w3"
    using reconcileCell_runs [OF c] reconcileService_runs [OF s] reconcileService_runs [OF t] rtranclp_trans
    by metis+
  ultimately show thesis
    using assms c s t that
    by (auto split: option.splits)
qed

end

text \<open>
  What a pass over a resource that is not being deleted may do: stamp doomed pods, write its
  StatefulSet with the mutate function under the drain's verdict at one of the times \<open>T\<close>, and
  publish its ring.
\<close>

definition passEffect ::
  "'w kube \<Rightarrow> (Time \<Rightarrow> bool) \<Rightarrow> DistributedCache \<Rightarrow> cluster \<Rightarrow> cluster \<Rightarrow> bool" where
  "passEffect K T cache v v' \<longleftrightarrow> (\<exists>now S. T now
     \<and> S \<subseteq> {q \<in> doomedIn cache v. needsStamp q} \<and> v_pods v' = v_pods (stampAll now S v)
     \<and> (v_sts v' = v_sts v \<or> (\<exists>d s. v_sts v' = (v_sts v)(cacheKey cache \<mapsto> s)
          \<and> mutateStatefulSet K cache (doomedDrained cache now v)
              (baseObj (v_sts v (cacheKey cache)) (newStatefulSet cache)) = Inr d
          \<and> (sts_Replicas d \<noteq> None \<longrightarrow> sts_Replicas s = sts_Replicas d)))
     \<and> (\<forall>k. ringAt k v' = ringAt k v \<or> k = ringKey cache \<and> ringAt k v' =
          nextRing (computeMembers (SortSlice K) (cellPods cache (stampAll now S v))) (ringAt k v)))"

lemma passEffect_sameWork: "sameWork v v' \<Longrightarrow> runs K w w' \<Longrightarrow> passEffect K (clockIn K w w') cache v v'"
  unfolding passEffect_def
  by (intro exI [of _ "fst (Now K w)"] exI [of _ "{}"]) (simp add: sameWork_def ringAt_def clockIn_start)

lemma passEffect_mono:
  "passEffect K T cache v v' \<Longrightarrow> (\<And>t. T t \<Longrightarrow> T' t) \<Longrightarrow> passEffect K T' cache v v'"
  unfolding passEffect_def by blast

lemma sameWork_cellPods: "sameWork v v' \<Longrightarrow> cellPods cache v' = cellPods cache v"
  by (simp add: sameWork_def cellPods_def podsIn_def)

lemma sameWork_doomedIn: "sameWork v v' \<Longrightarrow> doomedIn cache v' = doomedIn cache v"
  using sameWork_cellPods [of v v' cache] by (simp add: sameWork_def doomedIn_def cong: option.case_cong)

lemma sameWork_ringAt: "sameWork v v' \<Longrightarrow> ringAt k v' = ringAt k v"
  by (simp add: sameWork_def ringAt_def)

text \<open>Steps that leave the workloads alone may come before and after.\<close>

lemma passEffect_before:
  assumes "sameWork u v" "passEffect K T cache v v'"
  shows "passEffect K T cache u v'"
proof -
  have "cellPods cache (stampAll now S v) = cellPods cache (stampAll now S u)" for now S
    using assms(1) by (simp add: sameWork_def cellPods_def podsIn_def)
  then show ?thesis
    using assms(2) sameWork_doomedIn [OF assms(1)] sameWork_ringAt [OF assms(1)] assms(1)
    unfolding passEffect_def doomedDrained_def by (simp add: sameWork_def)
qed

lemma passEffect_after:
  "passEffect K T cache v v' \<Longrightarrow> sameWork v' u \<Longrightarrow> passEffect K T cache v u"
  using sameWork_ringAt [of v' u] unfolding passEffect_def by (simp add: sameWork_def)

lemma passEffect_intro:
  assumes "T now" "S \<subseteq> {q \<in> doomedIn cache v. needsStamp q}" "v_pods v' = v_pods (stampAll now S v)"
    and "v_sts v' = v_sts v \<or> (\<exists>d s. v_sts v' = (v_sts v)(cacheKey cache \<mapsto> s)
      \<and> mutateStatefulSet K cache (doomedDrained cache now v)
          (baseObj (v_sts v (cacheKey cache)) (newStatefulSet cache)) = Inr d
      \<and> (sts_Replicas d \<noteq> None \<longrightarrow> sts_Replicas s = sts_Replicas d))"
    and "\<And>k. ringAt k v' = ringAt k v \<or> k = ringKey cache \<and> ringAt k v' =
      nextRing (computeMembers (SortSlice K) (cellPods cache (stampAll now S v))) (ringAt k v)"
  shows "passEffect K T cache v v'"
  unfolding passEffect_def using assms by (intro exI [of _ now] exI [of _ S] conjI allI)

lemma asciiPods_cong: "v_pods v' = v_pods v \<Longrightarrow> asciiPods v' = asciiPods v"
  by (simp add: asciiPods_def)

lemma cellPods_cong: "v_pods v' = v_pods v \<Longrightarrow> cellPods cache v' = cellPods cache v"
  by (simp add: cellPods_def podsIn_def)

context cluster_api
begin

lemma reconcileStages_view:
  assumes run: "reconcileStages K cache w = (r, w')" and srt: "member_sort (SortSlice K)"
    and ascii: "asciiPods (view w)" and keys: "distinct (map keyOf (v_pods (view w)))"
  shows "passEffect K (clockIn K w w') cache (view w) (view w')"
proof -
  obtain d w1 where d: "drainScaleDown K cache w = (d, w1)"
    by (cases "drainScaleDown K cache w")
  obtain now S where during: "clockIn K w w1 now" and S: "S \<subseteq> {q \<in> doomedIn cache (view w). needsStamp q}"
    and v1: "view w1 = stampAll now S (view w)"
    and b: "\<forall>b. d = Inr b \<longrightarrow> b = doomedDrained cache now (view w)"
    using drainScaleDown_view [OF d keys] by blast
  have "runs K w1 w'"
    using run d by (auto simp: reconcileStages_def dest!: run_rules
        split: prod.splits sum.splits option.splits intro: rtranclp_trans)
  then have now: "clockIn K w w' now"
    using clockIn_mono [OF during] by blast
  show ?thesis
  proof (cases d)
    case (Inl e)
    have "passEffect K (clockIn K w w') cache (view w) (view w1)"
      using now S by (rule passEffect_intro) (simp_all add: v1 ringAt_def)
    moreover have "sameWork (view w1) (view w')"
      using run d Inl failStage_view by (simp add: reconcileStages_def)
    ultimately show ?thesis
      by (rule passEffect_after)
  next
    case (Inr complete)
    obtain u w2 where u: "reconcileStatefulSet K cache complete w1 = (u, w2)"
      by (cases "reconcileStatefulSet K cache complete w1")
    have v2: "v_pods (view w2) = v_pods (stampAll now S (view w))" "v_cm (view w2) = v_cm (view w)"
      and sts: "v_sts (view w2) = v_sts (view w) \<or> (\<exists>d s. v_sts (view w2) = (v_sts (view w))(cacheKey cache \<mapsto> s)
        \<and> mutateStatefulSet K cache (doomedDrained cache now (view w))
            (baseObj (v_sts (view w) (cacheKey cache)) (newStatefulSet cache)) = Inr d
        \<and> (sts_Replicas d \<noteq> None \<longrightarrow> sts_Replicas s = sts_Replicas d))"
      using reconcileStatefulSet_view [OF u] b Inr v1 by auto
    show ?thesis
    proof (cases u)
      case (Some e)
      have "passEffect K (clockIn K w w') cache (view w) (view w2)"
        using now S v2(1) sts by (rule passEffect_intro) (simp add: ringAt_def v2)
      moreover have "sameWork (view w2) (view w')"
        using run d Inr u Some failStage_view by (simp add: reconcileStages_def)
      ultimately show ?thesis
        by (rule passEffect_after)
    next
      case None
      obtain q w3 where q: "reconcileRing K cache w2 = (q, w3)"
        by (cases "reconcileRing K cache w2")
      have "asciiPods (view w2)"
        using ascii asciiPods_cong [OF v2(1)] by simp
      note ring = reconcileRing_frame [OF q srt this] reconcileRing_ringAt [OF q srt this]
      have "passEffect K (clockIn K w w') cache (view w) (view w3)"
      proof (rule passEffect_intro [where T = "clockIn K w w'", OF now S])
        show "v_pods (view w3) = v_pods (stampAll now S (view w))"
          using ring(1) v2(1) by simp
        show "ringAt k (view w3) = ringAt k (view w) \<or> k = ringKey cache \<and> ringAt k (view w3) =
          nextRing (computeMembers (SortSlice K) (cellPods cache (stampAll now S (view w)))) (ringAt k (view w))" for k
          using ring(6) [of k] cellPods_cong [OF v2(1), of cache] by (simp add: ringAt_def v2(2))
      qed (use ring(2) sts in simp)
      moreover have "sameWork (view w3) (view w')"
        using run d Inr u None q failStage_view finishReconcile_view
        by (auto simp: reconcileStages_def split: sum.splits)
      ultimately show ?thesis
        by (rule passEffect_after)
    qed
  qed
qed

text \<open>The whole of \<open>Reconcile\<close>: nothing, a deletion pass or a pass of the stages.\<close>

lemma Reconcile_view:
  assumes run: "Reconcile K req w = (r, w')" and srt: "member_sort (SortSlice K)"
    and ascii: "asciiPods (view w)" and keys: "distinct (map keyOf (v_pods (view w)))"
  shows "sameWork (view w) (view w') \<or> (\<exists>cache. v_dc (view w) req = Some cache \<and>
    (if DeletionTimestamp cache \<noteq> None then deletionEffect K (clockIn K w w') cache (view w) (view w')
     else passEffect K (clockIn K w w') cache (view w) (view w')))"
proof -
  obtain g w1 where g: "Get_DC K req w = (g, w1)"
    by (cases "Get_DC K req w")
  show ?thesis
  proof (cases g)
    case (Inl e)
    then have "w' = w1" "view w1 = view w"
      using run g get_dc_err by (auto simp: Reconcile_def split: if_splits)
    then show ?thesis by simp
  next
    case (Inr cache)
    have v1: "view w1 = view w" and dc: "v_dc (view w) req = Some cache"
      using get_dc g Inr by blast+
    have w1: "runs K w w1"
      by (rule request_runs(1) [OF g])
    have stages: "passEffect K (clockIn K w w') cache (view w) (view w')"
      if stages: "reconcileStages K cache w2 = (r, w')" "sameWork (view w) (view w2)" "runs K w w2" for w2
    proof (rule passEffect_before [OF stages(2)], rule passEffect_mono [OF reconcileStages_view [OF stages(1) srt]])
      show "asciiPods (view w2)" "distinct (map keyOf (v_pods (view w2)))"
        using stages(2) ascii keys by (simp_all add: sameWork_def asciiPods_def)
      show "clockIn K w2 w' t \<Longrightarrow> clockIn K w w' t" for t
        by (erule clockIn_mono) (simp_all add: stages(3))
    qed
    have fail: "passEffect K (clockIn K w w') cache (view w) (view w')"
      if "failStage K cache reason what e w2 = (r, w')" "sameWork (view w) (view w2)" for reason what e w2
      using failStage_view [OF that(1)] that(2) by (intro passEffect_sameWork) (rule sameWork_trans, simp_all add: Reconcile_runs [OF run])
    show ?thesis
    proof (cases "DeletionTimestamp cache = None")
      case False
      then have "reconcileDeletion K cache w1 = (r, w')"
        using run g Inr by (simp add: Reconcile_def)
      then have "deletionEffect K (clockIn K w1 w') cache (view w) (view w')"
        using reconcileDeletion_view [of cache w1 r w'] srt ascii keys v1 by simp
      then have "deletionEffect K (clockIn K w w') cache (view w) (view w')"
        by (rule deletionEffect_mono) (erule clockIn_mono [OF _ w1], simp)
      with dc False show ?thesis by auto
    next
      case True
      show ?thesis
      proof (cases "snd (AddFinalizer K (Finalizers cache) drainFinalizer)")
        case added: True
        then have "sameWork (view w) (view w')"
          using run g Inr True update_dc v1 by (fastforce simp: Reconcile_def split: prod.splits sum.splits)
        then show ?thesis ..
      next
        case False
        then have tail: "(case reconcileCell K cache w1 of
            (Some e, w) \<Rightarrow> failStage K cache ReasonCellFailed ''reconcile cell'' e w
          | (None, w) \<Rightarrow>
              (case reconcileService K cache w of
                 (None, w) \<Rightarrow> reconcileStages K cache w
               | (Some _, w) \<Rightarrow>
                   (case reconcileService K cache w of
                      (None, w) \<Rightarrow> reconcileStages K cache w
                    | (Some e, w) \<Rightarrow> failStage K cache ReasonServiceFailed ''reconcile service'' e w))) = (r, w')"
          using run g Inr True by (simp add: Reconcile_def split: prod.splits)
        have "passEffect K (clockIn K w w') cache (view w) (view w')"
          using tail
          by (rule servicePrefix) (use v1 stages fail w1 in \<open>auto dest: rtranclp_trans [OF w1]\<close>)
        with dc True show ?thesis by auto
      qed
    qed
  qed
qed

end

section \<open>Runs of the operator\<close>

definition wfCluster :: "cluster \<Rightarrow> bool" where
  "wfCluster v \<longleftrightarrow> asciiPods v \<and> distinct (map keyOf (v_pods v))"

text \<open>
  A run: passes over any resources, in any order, with arbitrary changes by others in between
  (users, the kubelet, the StatefulSet controller, the clock), as long as nobody else writes the
  ring stored under \<open>k\<close>. The list holds that ring at the start and after each pass.
\<close>

inductive operates :: "'w kube \<Rightarrow> ('w \<Rightarrow> cluster) \<Rightarrow> NamespacedName \<Rightarrow> 'w \<Rightarrow> Ring list \<Rightarrow> bool" for K view k where
  start: "wfCluster (view w) \<Longrightarrow> operates K view k w [ringAt k (view w)]"
| others: "operates K view k w rs \<Longrightarrow> wfCluster (view w') \<Longrightarrow> v_cm (view w') k = v_cm (view w) k \<Longrightarrow>
    operates K view k w' rs"
| pass: "operates K view k w rs \<Longrightarrow> Reconcile K req w = (r, w') \<Longrightarrow>
    operates K view k w' (rs @ [ringAt k (view w')])"

lemma wfCluster_pods:
  "wfCluster v \<Longrightarrow> v_pods v' = v_pods (stampAll now S v) \<Longrightarrow> wfCluster v'"
  using asciiPods_cong [of v' "stampAll now S v"] stampAll_keys [of now S v]
  by (simp add: wfCluster_def del: stampAll_sel)

context cluster_api
begin

lemma Reconcile_wf:
  assumes "Reconcile K req w = (r, w')" "member_sort (SortSlice K)" "wfCluster (view w)"
  shows "wfCluster (view w')"
  using Reconcile_view [OF assms(1,2)] assms(3) wfCluster_pods [OF assms(3)] stampAll_empty
  unfolding wfCluster_def [of "view w"] sameWork_def deletionEffect_def passEffect_def
  by (metis (no_types, lifting))

lemma Reconcile_ringAt:
  assumes "Reconcile K req w = (r, w')" "member_sort (SortSlice K)" "wfCluster (view w)"
  shows "ringAt k (view w') = ringAt k (view w) \<or> (\<exists>ms. ringAt k (view w') = nextRing ms (ringAt k (view w)))"
  using Reconcile_view [OF assms(1,2)] assms(3) sameWork_ringAt
  unfolding wfCluster_def deletionEffect_def passEffect_def
  by (auto split: if_splits)

lemma operates_linked:
  assumes "operates K view k w rs" "member_sort (SortSlice K)"
  shows "linked rs \<and> rs \<noteq> [] \<and> last rs = ringAt k (view w) \<and> wfCluster (view w)"
  using assms(1)
proof (induction rule: operates.induct)
  case (start w)
  then show ?case by (simp add: linked_def)
next
  case (others w rs w')
  then show ?case using ringAt_cong by metis
next
  case (pass w rs req r w')
  then show ?case
    using Reconcile_ringAt [OF pass.hyps(2) assms(2), of k] Reconcile_wf [OF pass.hyps(2) assms(2)]
    by (auto intro!: linked_snoc)
qed

end

section \<open>A successful pass\<close>

context cluster_api
begin

lemma reconcileStages_ok:
  assumes run: "reconcileStages K cache w = (Inr res, w')" and srt: "member_sort (SortSlice K)"
    and ascii: "asciiPods (view w)" and keys: "distinct (map keyOf (v_pods (view w)))"
  shows "Members (ringAt (ringKey cache) (view w')) = computeMembers (SortSlice K) (cellPods cache (view w'))"
proof -
  obtain complete w1 w2 q w3 where d: "drainScaleDown K cache w = (Inr complete, w1)"
    and u: "reconcileStatefulSet K cache complete w1 = (None, w2)"
    and q: "reconcileRing K cache w2 = (Inr q, w3)"
    and f: "finishReconcile K cache complete q w3 = (Inr res, w')"
    using run by (auto simp: reconcileStages_def failStage_def split: prod.splits sum.splits option.splits)
  obtain now S where v1: "view w1 = stampAll now S (view w)"
    using drainScaleDown_view [OF d keys] by blast
  have "v_pods (view w2) = v_pods (stampAll now S (view w))"
    using reconcileStatefulSet_view [OF u] v1 by auto
  then have "asciiPods (view w2)"
    using ascii asciiPods_cong by (metis asciiPods_stampAll)
  note ring = reconcileRing_ok [OF q srt this] reconcileRing_frame(1) [OF q srt this]
  have same: "sameWork (view w3) (view w')"
    by (rule finishReconcile_view [OF f])
  have "cellPods cache (view w') = cellPods cache (view w2)"
    using sameWork_cellPods [OF same] cellPods_cong [OF ring(3)] by simp
  then show ?thesis
    using ring(1,2) sameWork_ringAt [OF same] by simp
qed

text \<open>
  A pass over a live resource that has the finalizer runs the stages from the drain on, unless it
  fails before them.
\<close>

lemma Reconcile_stages:
  assumes run: "Reconcile K req w = (r, w')"
    and late: "\<And>what e. r = Inl (Wrapped what e) \<Longrightarrow>
      what \<notin> {''get DistributedCache'', ''reconcile cell'', ''reconcile service''}"
    and live: "v_dc (view w) req = Some cache" "DeletionTimestamp cache = None"
      "AddFinalizer K (Finalizers cache) drainFinalizer = (fins, False)"
  obtains w2 where "reconcileStages K cache w2 = (r, w')" "sameWork (view w) (view w2)" "runs K w w2"
proof -
  have g: "Get_DC K req w = (Inr cache, snd (Get_DC K req w))"
  proof (cases "Get_DC K req w")
    case (Pair g w1)
    then show ?thesis
      using run live(1) late get_dc [of req w _ w1] get_dc_err [of req w _ w1]
      by (cases g) (auto simp: Reconcile_def split: if_splits)
  qed
  let ?w1 = "snd (Get_DC K req w)"
  have v1: "view ?w1 = view w" and w1: "runs K w ?w1"
    using get_dc [OF g] request_runs(1) [OF g] by blast+
  have tail: "(case reconcileCell K cache ?w1 of
      (Some e, w) \<Rightarrow> failStage K cache ReasonCellFailed ''reconcile cell'' e w
    | (None, w) \<Rightarrow>
        (case reconcileService K cache w of
           (None, w) \<Rightarrow> reconcileStages K cache w
         | (Some _, w) \<Rightarrow>
             (case reconcileService K cache w of
                (None, w) \<Rightarrow> reconcileStages K cache w
              | (Some e, w) \<Rightarrow> failStage K cache ReasonServiceFailed ''reconcile service'' e w))) = (r, w')"
    using run live unfolding Reconcile_def by (subst (asm) g) simp
  from tail show thesis
  proof (cases rule: servicePrefix)
    case (stages w2)
    with that v1 w1 show thesis
      by (metis rtranclp_trans)
  next
    case (fail w2 reason what e)
    then have "r = Inl (Wrapped what e)"
      by (auto simp: failStage_def split: prod.splits)
    with late fail(4) show thesis
      by auto
  qed
qed

lemma Reconcile_ok:
  assumes run: "Reconcile K req w = (Inr res, w')" and srt: "member_sort (SortSlice K)" and wf: "wfCluster (view w)"
    and live: "v_dc (view w) req = Some cache" "DeletionTimestamp cache = None"
      "AddFinalizer K (Finalizers cache) drainFinalizer = (fins, False)"
  shows "Members (ringAt (ringKey cache) (view w')) = computeMembers (SortSlice K) (cellPods cache (view w'))"
proof -
  obtain w2 where "reconcileStages K cache w2 = (Inr res, w')" "sameWork (view w) (view w2)"
    by (rule Reconcile_stages [OF run _ live]) simp_all
  moreover have "asciiPods (view w2)" "distinct (map keyOf (v_pods (view w2)))"
    using calculation(2) wf by (simp_all add: sameWork_def wfCluster_def asciiPods_def)
  ultimately show ?thesis
    using reconcileStages_ok srt by blast
qed

end

section \<open>Properties\<close>

text \<open>
  C1: no scale-down before the drain. On a cluster that keeps the API server's contract, a pass
  of \<open>Reconcile\<close> leaves every other StatefulSet alone, and lowers the replica count of its own
  only to the specified count, and only if at a time the clock showed during the pass every pod of
  the cell with an ordinal from the specified count up to the old one had carried a readable drain
  annotation for the grace period. This holds whichever requests fail and whether or not their replies are lost.
\<close>

theorem scale_down_only_after_drain:
  assumes "cluster_api K view" "member_sort (SortSlice K)" "wfCluster (view w)"
    and "Reconcile K req w = (r, w')"
    and "v_dc (view w) req = Some cache" "Replicas (Spec cache) = Some d"
    and "v_sts (view w) (cacheKey cache) = Some s" "sts_Replicas s = Some c"
  shows "(\<forall>k. k \<noteq> cacheKey cache \<longrightarrow> v_sts (view w') k = v_sts (view w) k)
    \<and> (\<exists>s' c'. v_sts (view w') (cacheKey cache) = Some s' \<and> sts_Replicas s' = Some c'
       \<and> (sint c \<le> sint c' \<or> c' = d \<and> (\<exists>now. clockIn K w w' now \<and> (\<forall>p \<in> set (cellPods cache (view w)). \<forall>j.
            Name p = podName cache j \<longrightarrow> sint d \<le> sint j \<longrightarrow> sint j < sint c \<longrightarrow>
            (\<exists>v ts. mapGet (Annotations p) drainAnnotation = Some v \<and> ParseInt v = Some ts
              \<and> sint (GracePeriodSeconds (Drain (Spec cache))) * Second \<le> instant now - instant (time_Unix ts))))))"
    (is "?frame \<and> ?scale")
proof -
  have wf: "asciiPods (view w)" "distinct (map keyOf (v_pods (view w)))"
    using assms(3) by (simp_all add: wfCluster_def)
  have same: ?thesis if "v_sts (view w') = v_sts (view w)"
    using that assms(7,8) by simp
  consider "v_sts (view w') = v_sts (view w)" | "passEffect K (clockIn K w w') cache (view w) (view w')"
    using cluster_api.Reconcile_view [OF assms(1,4,2) wf] assms(5)
    by (auto simp: sameWork_def deletionEffect_def split: if_splits)
  then show ?thesis
  proof cases
    case 1
    then show ?thesis by (rule same)
  next
    case 2
    then obtain now where now: "clockIn K w w' now"
      and sts: "v_sts (view w') = v_sts (view w) \<or> (\<exists>d' s'. v_sts (view w') = (v_sts (view w))(cacheKey cache \<mapsto> s')
        \<and> mutateStatefulSet K cache (doomedDrained cache now (view w)) s = Inr d'
        \<and> (sts_Replicas d' \<noteq> None \<longrightarrow> sts_Replicas s' = sts_Replicas d'))"
      unfolding passEffect_def by (auto simp: assms(7) baseObj_def)
    have drained: "\<forall>p \<in> set (cellPods cache (view w)). \<forall>j.
        Name p = podName cache j \<longrightarrow> sint d \<le> sint j \<longrightarrow> sint j < sint c \<longrightarrow>
        (\<exists>v ts. mapGet (Annotations p) drainAnnotation = Some v \<and> ParseInt v = Some ts
          \<and> sint (GracePeriodSeconds (Drain (Spec cache))) * Second \<le> instant now - instant (time_Unix ts))"
      if "doomedDrained cache now (view w)"
      using that assms(6-8)
      by (auto simp: doomedDrained_def doomedIn_def specReplicas_def currentReplicas_def drained_iff)
    from sts show ?thesis
    proof (elim disjE exE conjE)
      fix d' s'
      assume s': "v_sts (view w') = (v_sts (view w))(cacheKey cache \<mapsto> s')"
        and "mutateStatefulSet K cache (doomedDrained cache now (view w)) s = Inr d'"
        and "sts_Replicas d' \<noteq> None \<longrightarrow> sts_Replicas s' = sts_Replicas d'"
      then have "sts_Replicas s' = (if \<not> doomedDrained cache now (view w) \<and> sint d < sint c then Some c else Some d)"
        using mutateStatefulSet_replicas [of K cache _ s d'] chooseReplicas_both [OF assms(6)] assms(8)
        by (metis option.distinct(1))
      with s' now drained show ?thesis
        by (cases "doomedDrained cache now (view w)"; cases "sint d < sint c") auto
    qed (rule same)
  qed
qed

lemma example_wf:
  "wfCluster (m_view (exampleWorld m n ps ts fs)) \<longleftrightarrow> (\<forall>p \<in> set ps. ascii (Name p)) \<and> distinct (map keyOf ps)"
  by (simp add: wfCluster_def asciiPods_def exampleWorld_def)

lemma example_stored:
  "v_dc (m_view (exampleWorld m n ps ts fs)) exampleKey = Some (exampleCache m)"
  "v_sts (m_view (exampleWorld m n ps ts fs)) exampleKey = Some (exampleSet n)"
  by (simp_all add: exampleWorld_def)

lemma mem_member_sort: "member_sort (SortSlice memKube)"
  using ms.member_sort_axioms by (simp add: memKube_sel)

theorem scale_down_only_after_drain_witness:
  "let w = exampleWorld 1 2 [cachePod ''c-0'' [], cachePod ''c-1'' []] 130 [NoFault, NoFault, NoFault, LostReply];
       w' = snd (Reconcile memKube exampleKey w)
   in \<exists>s' c'. v_sts (m_view w') exampleKey = Some s' \<and> sts_Replicas s' = Some c' \<and> 2 \<le> sint c'"
proof -
  let ?w = "exampleWorld 1 2 [cachePod ''c-0'' [], cachePod ''c-1'' []] 130 [NoFault, NoFault, NoFault, LostReply]"
  obtain r w' where run: "Reconcile memKube exampleKey ?w = (r, w')"
    by (cases "Reconcile memKube exampleKey ?w")
  have wf: "wfCluster (m_view ?w)"
    by (simp add: example_wf keyOf_def)
  have pod: "cachePod ''c-1'' [] \<in> set (cellPods (exampleCache 1) (m_view ?w))"
    by (simp add: example_pods)
  have "fmtInt 1 = ''1''"
    by code_simp
  then have name: "Name (cachePod ''c-1'' []) = podName (exampleCache 1) 1"
    by simp
  have unmarked: "\<not> (\<forall>p \<in> set (cellPods (exampleCache 1) (m_view ?w)). \<forall>j. Name p = podName (exampleCache 1) j \<longrightarrow>
      sint (1 :: int32) \<le> sint j \<longrightarrow> sint j < sint (2 :: int32) \<longrightarrow>
      (\<exists>v ts. mapGet (Annotations p) drainAnnotation = Some v \<and> P v ts))" for P :: "string \<Rightarrow> int64 \<Rightarrow> bool"
  proof
    assume "\<forall>p \<in> set (cellPods (exampleCache 1) (m_view ?w)). \<forall>j. Name p = podName (exampleCache 1) j \<longrightarrow>
      sint (1 :: int32) \<le> sint j \<longrightarrow> sint j < sint (2 :: int32) \<longrightarrow>
      (\<exists>v ts. mapGet (Annotations p) drainAnnotation = Some v \<and> P v ts)"
    from bspec [OF this pod, THEN spec, of 1] name show False
      by simp
  qed
  have set: "v_sts (m_view ?w) (cacheKey (exampleCache 1)) = Some (exampleSet 2)"
    by (simp add: example_stored)
  from scale_down_only_after_drain [OF mem.cluster_api_axioms mem_member_sort wf run, of "exampleCache 1" 1 "exampleSet 2" 2,
      OF example_stored(1) exampleCache_sel(5) set exampleSet_sel, THEN conjunct2]
  show ?thesis
    unfolding run Let_def snd_conv
  proof (elim exE conjE disjE, goal_cases)
    case (1 s' c')
    then show ?case
      by (intro exI [of _ s'] exI [of _ c']) simp
  next
    case (2 s' c' now)
    note unmarked
    then show ?case
      using 2(5) by (rule notE)
  qed
qed



text \<open>
  C13: a pass over a live resource touches no pod but those it dooms. Every pod of the cluster is
  afterwards as it was or, if it belongs to the cell, has an ordinal from the specified count up
  to the size of the StatefulSet and no readable drain annotation, stamped with a time the clock
  showed during the pass. Survivors are never marked and a drain once started is never restarted.
\<close>

theorem only_doomed_pods_are_stamped:
  assumes "cluster_api K view" "member_sort (SortSlice K)" "wfCluster (view w)"
    and "Reconcile K req w = (r, w')" "v_dc (view w) req = Some cache" "DeletionTimestamp cache = None"
  shows "\<exists>now f. clockIn K w w' now \<and> v_pods (view w') = map f (v_pods (view w))
    \<and> (\<forall>q \<in> set (v_pods (view w)). f q = q \<or> f q = stamp now q \<and> needsStamp q \<and> q \<in> set (cellPods cache (view w))
         \<and> (\<exists>s j. v_sts (view w) (cacheKey cache) = Some s \<and> Name q = podName cache j
              \<and> sint (specReplicas cache) \<le> sint j \<and> sint j < sint (currentReplicas s)))"
proof -
  have wf: "asciiPods (view w)" "distinct (map keyOf (v_pods (view w)))"
    using assms(3) by (simp_all add: wfCluster_def)
  have "passEffect K (clockIn K w w') cache (view w) (view w')"
    using cluster_api.Reconcile_view [OF assms(1,4,2) wf] assms(5,6)
      passEffect_sameWork [OF _ Reconcile_runs [OF assms(4)]] by auto
  then obtain now S where now: "clockIn K w w' now" and S: "S \<subseteq> {q \<in> doomedIn cache (view w). needsStamp q}"
    and pods: "v_pods (view w') = map (\<lambda>q. if q \<in> S then stamp now q else q) (v_pods (view w))"
    unfolding passEffect_def by auto
  have "\<exists>s j. v_sts (view w) (cacheKey cache) = Some s \<and> Name q = podName cache j
      \<and> sint (specReplicas cache) \<le> sint j \<and> sint j < sint (currentReplicas s)"
    "q \<in> set (cellPods cache (view w))" "needsStamp q" if "q \<in> S" for q
    using S that by (auto simp: doomedIn_def split: option.splits)
  then show ?thesis
    using now pods by (intro exI [of _ now] exI [of _ "\<lambda>q. if q \<in> S then stamp now q else q"]) auto
qed

theorem only_doomed_pods_are_stamped_witness:
  "let w = exampleWorld 1 2 [cachePod ''c-0'' [], cachePod ''c-1'' []] 130 []; w' = snd (Reconcile memKube exampleKey w)
   in \<exists>now f. v_pods (m_view w') = map f (v_pods (m_view w)) \<and> clockIn memKube w w' now
     \<and> (\<forall>q \<in> set (v_pods (m_view w)). f q = q \<or> f q = stamp now q)"
proof -
  let ?w = "exampleWorld 1 2 [cachePod ''c-0'' [], cachePod ''c-1'' []] 130 []"
  obtain r w' where run: "Reconcile memKube exampleKey ?w = (r, w')"
    by (cases "Reconcile memKube exampleKey ?w")
  have wf: "wfCluster (m_view ?w)"
    by (simp add: example_wf keyOf_def)
  show ?thesis
    using only_doomed_pods_are_stamped [OF mem.cluster_api_axioms mem_member_sort wf run example_stored(1)]
      exampleCache_sel(4) [of 1]
    unfolding Let_def run snd_conv by blast
qed

text \<open>
  C30: a drain mark is permanent. Whatever the spec says in the meantime, no pass over any
  resource removes a drain annotation from a pod, and a pod that has one is not eligible for the
  ring. In particular a pod marked for a scale-down that is then cancelled stays in the
  StatefulSet but never comes back into the ring.
\<close>

theorem drain_mark_is_permanent:
  assumes "cluster_api K view" "member_sort (SortSlice K)" "wfCluster (view w)" "Reconcile K req w = (r, w')"
  shows "list_all2 (\<lambda>q q'. keyOf q' = keyOf q \<and> (mapGet (Annotations q) drainAnnotation \<noteq> None \<longrightarrow>
      mapGet (Annotations q') drainAnnotation \<noteq> None \<and> \<not> eligible q')) (v_pods (view w)) (v_pods (view w'))"
proof -
  have wf: "asciiPods (view w)" "distinct (map keyOf (v_pods (view w)))"
    using assms(3) by (simp_all add: wfCluster_def)
  obtain now S where "v_pods (view w') = v_pods (stampAll now S (view w))"
    using cluster_api.Reconcile_view [OF assms(1,4,2) wf] stampAll_empty
    unfolding sameWork_def deletionEffect_def passEffect_def by metis
  then show ?thesis
    by (auto simp: list_all2_map2 list_all2_same stamp_annotations eligible_def)
qed

theorem drain_mark_is_permanent_witness:
  "let w = exampleWorld 2 2 [cachePod ''c-1'' [(drainAnnotation, ''100'')]] 130 []; w' = snd (Reconcile memKube exampleKey w)
   in \<exists>p. v_pods (m_view w') = [p] \<and> mapGet (Annotations p) drainAnnotation \<noteq> None \<and> \<not> eligible p"
proof -
  let ?w = "exampleWorld 2 2 [cachePod ''c-1'' [(drainAnnotation, ''100'')]] 130 []"
  obtain r w' where run: "Reconcile memKube exampleKey ?w = (r, w')"
    by (cases "Reconcile memKube exampleKey ?w")
  have wf: "wfCluster (m_view ?w)"
    by (simp add: example_wf)
  have pods: "v_pods (m_view ?w) = [cachePod ''c-1'' [(drainAnnotation, ''100'')]]"
    by (simp add: exampleWorld_def)
  from drain_mark_is_permanent [OF mem.cluster_api_axioms mem_member_sort wf run] show ?thesis
    using run by (auto simp: Let_def pods list_all2_Cons1)
qed

lemma chooseReplicas_again [simp]:
  "chooseReplicas cache can (chooseReplicas cache can c) = chooseReplicas cache can c"
  by (simp add: chooseReplicas_def split: option.splits)



end
