(* ===== verification/Example_Pass.thy ===== *)
theory Example_Pass
  imports Operator
begin

text \<open>
  Whole passes of \<open>Reconcile\<close> on the in-memory API server without faults, stage by stage: the
  example resource's first pass stores the ring of the listed pods, and every pass over a live
  resource whose objects belong to it succeeds.
\<close>

lemma memRead_now [simp]:
  "m_faults w = [] \<Longrightarrow>
   memRead get w = (case get w of None \<Rightarrow> (Inl (NotFoundErr ''not found''), w) | Some x \<Rightarrow> (Inr x, w))"
  by (simp add: memRead_def takeFault_def)

lemma memWrite_now [simp]: "m_faults w = [] \<Longrightarrow> memWrite put x w = (Inr x, put w)"
  by (simp add: memWrite_def takeFault_def)

lemma example_service:
  assumes "m_faults w = []" "v_svc (m_view w) = (\<lambda>_. None)"
  shows "\<exists>w'. reconcileService memKube (exampleCache m) w = (None, w') \<and> m_faults w' = []
    \<and> sameWork (m_view w) (m_view w')"
  using assms by (simp add: reconcileService_def memUpdateView_def memKube_sel memApply_def baseObj_def Let_def mutateService_def
    setControllerReferenceIfSameNamespace_def ObjectMeta.truncate_def newService_def newMeta_def ObjectMeta.extend_def Service.fields_def)

lemma example_drain:
  assumes "m_faults w = []" "v_sts (m_view w) exampleKey = Some (exampleSet m)"
  shows "drainScaleDown memKube (exampleCache m) w = (Inr True, w)"
  using assms by (simp add: drainScaleDown_def memKube_sel Let_def flip: currentReplicas_def)

lemma example_sts:
  assumes "m_faults w = []" "v_sts (m_view w) exampleKey = Some (exampleSet m)"
  shows "\<exists>w'. reconcileStatefulSet memKube (exampleCache m) True w = (None, w') \<and> m_faults w' = []
    \<and> v_cm (m_view w') = v_cm (m_view w) \<and> v_pods (m_view w') = v_pods (m_view w) \<and> v_dc (m_view w') = v_dc (m_view w)"
  using assms by (simp add: reconcileStatefulSet_def memKube_sel memApply_def baseObj_def Let_def mutateStatefulSet_def
    setControllerReferenceIfSameNamespace_def ObjectMeta.truncate_def newStatefulSet_def newMeta_def ObjectMeta.extend_def StatefulSet.fields_def
   exampleSet_def keyOf_def exampleKey_def memUpdateView_def)

lemma example_ring:
  assumes "m_faults w = []" "v_cm (m_view w) = (\<lambda>_. None)"
  shows "\<exists>q w'. reconcileRing memKube (exampleCache m) w = (Inr q, w') \<and> m_faults w' = []
    \<and> Members q = computeMembers insertionSort (podsIn (m_view w) ''default'' exampleLabels)
    \<and> (\<exists>cm. v_cm (m_view w') (ringKey (exampleCache m)) = Some cm \<and> mapGet (Data cm) ringConfigMapKey = Some (marshalRing q))"
  using assms by (simp add: reconcileRing_def publishRing_def memKube_sel memApply_def baseObj_def Let_def mutateRing_def
    setControllerReferenceIfSameNamespace_def ObjectMeta.truncate_def newRingConfigMap_def newMeta_def ObjectMeta.extend_def ConfigMap.fields_def
   keyOf_def exampleKey_def memUpdateView_def ringConfigMapName_def desiredRing_next)

lemma mem_setCondition:
  "\<exists>cs. setCondition memKube c cache w = (cache\<lparr>Status := (Status cache)\<lparr>Conditions := cs\<rparr>\<rparr>, w)"
  unfolding setCondition_def memKube_sel memSetCondition_def prod.case by blast

lemma mem_setObserved:
  "\<exists>cs. setObservedConditions memKube cache ring w = (cache\<lparr>Status := (Status cache)\<lparr>Conditions := cs\<rparr>\<rparr>, w)"
proof -
  have step: "\<exists>cs'. setCondition memKube c (cache\<lparr>Status := (Status cache)\<lparr>Conditions := cs\<rparr>\<rparr>) w
    = (cache\<lparr>Status := (Status cache)\<lparr>Conditions := cs'\<rparr>\<rparr>, w)" for c cs
    using mem_setCondition [of c "cache\<lparr>Status := (Status cache)\<lparr>Conditions := cs\<rparr>\<rparr>" w] by simp
  let ?c = "\<lambda>cs. cache\<lparr>Status := (Status cache)\<lparr>Conditions := cs\<rparr>\<rparr>"
  obtain c1 where 1: "setCondition memKube (availableCond cache ring) cache w = (?c c1, w)"
    using mem_setCondition by blast
  obtain c2 where 2: "setCondition memKube (progressingCond (?c c1) ring) (?c c1) w = (?c c2, w)"
    using step by blast
  obtain c3 where 3: "setCondition memKube (notDegradedCond (?c c2)) (?c c2) w = (?c c3, w)"
    using step by blast
  obtain c4 where 4: "setCondition memKube (tenantCond (?c c3)) (?c c3) w = (?c c4, w)"
    using step by blast
  show ?thesis
    unfolding setObservedConditions_def 1 2 3 4 prod.case by blast
qed

lemma example_finish:
  assumes "m_faults w = []"
  shows "\<exists>w'. finishReconcile memKube (exampleCache m) True q w = (Inr noRequeue, w') \<and> v_cm (m_view w') = v_cm (m_view w)"
proof -
  obtain cs where "setObservedConditions memKube (recordRing (exampleCache m) q) q w
    = ((recordRing (exampleCache m) q)\<lparr>Status := (Status (recordRing (exampleCache m) q))\<lparr>Conditions := cs\<rparr>\<rparr>, w)"
    using mem_setObserved by blast
  moreover have "\<not> isCrossNamespaceChild ((exampleCache m)\<lparr>Status := st\<rparr>)" for st
  proof -
    have "isolated ((exampleCache m)\<lparr>Status := st\<rparr>) = isolated (exampleCache m)"
      by (simp add: isolated_def)
    then show ?thesis
      by (simp add: isCrossNamespaceChild_def targetNamespace_def)
  qed
  ultimately show ?thesis
    using assms by (simp add: finishReconcile_def memKube_sel memUpdateView_def recordRing_def)
qed

lemma example_reconcile:
  "\<exists>w' q cm. Reconcile memKube exampleKey (exampleWorld m m ps ts []) = (Inr noRequeue, w')
    \<and> v_cm (m_view w') (ringKey (exampleCache m)) = Some cm \<and> mapGet (Data cm) ringConfigMapKey = Some (marshalRing q)
    \<and> Members q = computeMembers insertionSort (podsIn (m_view (exampleWorld m m ps ts [])) ''default'' exampleLabels)"
proof -
  let ?w = "exampleWorld m m ps ts []"
  have w: "m_faults ?w = []" "v_svc (m_view ?w) = (\<lambda>_. None)" "v_cm (m_view ?w) = (\<lambda>_. None)"
    by (simp_all add: exampleWorld_def)
  obtain w1 where 1: "reconcileService memKube (exampleCache m) ?w = (None, w1)" "m_faults w1 = []"
    "sameWork (m_view ?w) (m_view w1)"
    using example_service [OF w(1,2)] by blast
  have s: "v_sts (m_view w1) exampleKey = Some (exampleSet m)"
    using 1(3) by (simp add: sameWork_def example_stored)
  obtain w2 where 2: "reconcileStatefulSet memKube (exampleCache m) True w1 = (None, w2)" "m_faults w2 = []"
    "v_cm (m_view w2) = v_cm (m_view w1)" "v_pods (m_view w2) = v_pods (m_view w1)"
    using example_sts [OF 1(2) s] by blast
  have "v_cm (m_view w2) = (\<lambda>_. None)"
    using 2(3) 1(3) w(3) by (simp add: sameWork_def)
  from example_ring [OF 2(2) this]
  obtain q w3 cm where 3: "reconcileRing memKube (exampleCache m) w2 = (Inr q, w3)" "m_faults w3 = []"
    "v_cm (m_view w3) (ringKey (exampleCache m)) = Some cm" "mapGet (Data cm) ringConfigMapKey = Some (marshalRing q)"
    "Members q = computeMembers insertionSort (podsIn (m_view w2) ''default'' exampleLabels)"
    by blast
  have "podsIn (m_view w2) ''default'' exampleLabels = podsIn (m_view ?w) ''default'' exampleLabels"
    using 2(4) 1(3) by (simp add: podsIn_def sameWork_def)
  with 3(5) have members: "Members q = computeMembers insertionSort (podsIn (m_view ?w) ''default'' exampleLabels)"
    by simp
  obtain w4 where 4: "finishReconcile memKube (exampleCache m) True q w3 = (Inr noRequeue, w4)"
    "v_cm (m_view w4) = v_cm (m_view w3)"
    using example_finish [OF 3(2)] by blast
  have "Reconcile memKube exampleKey ?w = (Inr noRequeue, w4)"
    using 1(1) 2(1) 3(1) 4(1) example_drain [OF 1(2) s]
    by (simp add: Reconcile_def reconcileStages_def reconcileCell_def memKube_sel(2))
  with 3(3,4) 4(2) members show ?thesis by auto
qed

section \<open>Passes without faults\<close>

text \<open>
  On the in-memory server every request succeeds as long as no fault is due, so a pass over a
  live resource whose objects have no other owner succeeds, whatever the cluster holds.
\<close>

definition ownedBy :: "DistributedCache \<Rightarrow> 'a ObjectMeta_scheme option \<Rightarrow> bool" where
  "ownedBy cache stored \<longleftrightarrow>
     (case stored of None \<Rightarrow> True | Some x \<Rightarrow> (\<forall>r \<in> set (OwnerReferences x). or_UID r = UID cache))"

text \<open>The mutate function \<open>f\<close> accepts every object of this owner and keeps its owner.\<close>

definition keepsOwner :: "DistributedCache \<Rightarrow> 'a ObjectMeta_scheme mutate \<Rightarrow> bool" where
  "keepsOwner cache f \<longleftrightarrow> (\<forall>x. ownedBy cache (Some x) \<longrightarrow> (\<exists>d. f x = Inr d \<and> ownedBy cache (Some d)))"

lemma mem_setOwner: "keepsOwner cache (setControllerReferenceIfSameNamespace memKube cache)"
  by (auto simp: keepsOwner_def setControllerReferenceIfSameNamespace_def memKube_sel ownedBy_def
      ObjectMeta.truncate_def list_ex_iff)

lemma keepsOwner_after:
  assumes "keepsOwner cache f" "\<And>x. OwnerReferences (g x) = OwnerReferences x"
  shows "keepsOwner cache (\<lambda>x. f (g x))"
  using assms by (simp add: keepsOwner_def ownedBy_def)

lemma mem_mutations:
  "keepsOwner cache (mutateService memKube cache)"
  "keepsOwner cache (mutateStatefulSet memKube cache can)"
  "keepsOwner cache (mutateRing memKube cache payload)"
  unfolding mutateService_def mutateStatefulSet_def mutateRing_def Let_def
  by (rule keepsOwner_after [OF mem_setOwner], simp)+

lemma calm_apply:
  assumes "m_faults w = []" "ownedBy cache (get w)" "OwnerReferences obj = []" "keepsOwner cache f"
  shows "\<exists>op c. memApply get put obj f w = (Inr (op, c), put c w) \<and> ownedBy cache (Some c)"
proof -
  have "ownedBy cache (Some (baseObj (get w) obj))"
    using assms(2,3) by (cases "get w") (auto simp: ownedBy_def baseObj_def)
  then obtain d where "f (baseObj (get w) obj) = Inr d" "ownedBy cache (Some d)"
    using assms(4) by (auto simp: keepsOwner_def)
  then show ?thesis
    using assms(1) by (cases "get w") (auto simp: memApply_def Let_def ownedBy_def)
qed

text \<open>What holds of the world between the stages of such a pass.\<close>

definition calm :: "DistributedCache \<Rightarrow> memState \<Rightarrow> memState \<Rightarrow> bool" where
  "calm cache w w' \<longleftrightarrow> m_faults w' = [] \<and> v_dc (m_view w') = v_dc (m_view w) \<and> m_clock w' = m_clock w
     \<and> ownedBy cache (v_svc (m_view w') (cacheKey cache)) \<and> ownedBy cache (v_sts (m_view w') (cacheKey cache))
     \<and> ownedBy cache (v_cm (m_view w') (ringKey cache))"

lemma new_objects:
  "OwnerReferences (newService cache) = []" "OwnerReferences (newStatefulSet cache) = []"
  "OwnerReferences (newRingConfigMap cache) = []" "keyOf (newService cache) = cacheKey cache"
  "keyOf (newRingConfigMap cache) = ringKey cache"
  by (simp_all add: newService_def newStatefulSet_def newRingConfigMap_def newMeta_def ObjectMeta.extend_def
      keyOf_def cacheKey_def ringKey_def)

lemma calm_service:
  assumes "calm cache w0 w"
  shows "\<exists>w'. reconcileService memKube cache w = (None, w') \<and> calm cache w0 w'"
proof -
  have "m_faults w = []" "ownedBy cache (v_svc (m_view w) (keyOf (newService cache)))"
    using assms by (simp_all add: calm_def new_objects)
  from calm_apply [where get = "\<lambda>w. v_svc (m_view w) (keyOf (newService cache))" and
      put = "\<lambda>c. memUpdateView (\<lambda>v. v\<lparr>v_svc := (v_svc v)(keyOf (newService cache) \<mapsto> c)\<rparr>)",
      OF this new_objects(1) [of cache] mem_mutations(1)]
  obtain op c where "CreateOrUpdate_SVC memKube (newService cache) (mutateService memKube cache) w
      = (Inr (op, c), memUpdateView (\<lambda>v. v\<lparr>v_svc := (v_svc v)(cacheKey cache \<mapsto> c)\<rparr>) w)" "ownedBy cache (Some c)"
    by (auto simp: memKube_sel new_objects)
  then show ?thesis
    using assms by (simp add: reconcileService_def memKube_def calm_def memUpdateView_def)
qed

lemma calm_set:
  assumes "calm cache w0 w"
  shows "\<exists>w'. reconcileStatefulSet memKube cache can w = (None, w') \<and> calm cache w0 w'"
proof -
  have "m_faults w = []" "ownedBy cache (v_sts (m_view w) (keyOf (newStatefulSet cache)))"
    using assms by (simp_all add: calm_def)
  from calm_apply [where get = "\<lambda>w. v_sts (m_view w) (keyOf (newStatefulSet cache))" and
      put = "\<lambda>c. memUpdateView (\<lambda>v. v\<lparr>v_sts := (v_sts v)(keyOf (newStatefulSet cache) \<mapsto> c)\<rparr>)",
      OF this new_objects(2) [of cache] mem_mutations(2) [of _ can]]
  obtain op c where "CreateOrUpdate_STS memKube (newStatefulSet cache) (mutateStatefulSet memKube cache can) w
      = (Inr (op, c), memUpdateView (\<lambda>v. v\<lparr>v_sts := (v_sts v)(cacheKey cache \<mapsto> c)\<rparr>) w)" "ownedBy cache (Some c)"
    by (auto simp: memKube_sel)
  then show ?thesis
    using assms by (simp add: reconcileStatefulSet_def memKube_def calm_def memUpdateView_def)
qed

lemma calm_publish:
  assumes "calm cache w0 w"
  shows "\<exists>w'. publishRing memKube cache q w = (Inr q, w') \<and> calm cache w0 w'"
proof -
  have "m_faults w = []" "ownedBy cache (v_cm (m_view w) (keyOf (newRingConfigMap cache)))"
    using assms by (simp_all add: calm_def new_objects)
  from calm_apply [where get = "\<lambda>w. v_cm (m_view w) (keyOf (newRingConfigMap cache))" and
      put = "\<lambda>c. memUpdateView (\<lambda>v. v\<lparr>v_cm := (v_cm v)(keyOf (newRingConfigMap cache) \<mapsto> c)\<rparr>)",
      OF this new_objects(3) [of cache] mem_mutations(3) [of _ "marshalRing q"]]
  obtain op c where "CreateOrUpdate_CM memKube (newRingConfigMap cache) (mutateRing memKube cache (marshalRing q)) w
      = (Inr (op, c), memUpdateView (\<lambda>v. v\<lparr>v_cm := (v_cm v)(ringKey cache \<mapsto> c)\<rparr>) w)" "ownedBy cache (Some c)"
    by (auto simp: memKube_sel new_objects)
  then show ?thesis
    using assms by (simp add: publishRing_def memKube_def calm_def memUpdateView_def)
qed

lemma calm_ring:
  assumes "calm cache w0 w"
  shows "\<exists>q w'. reconcileRing memKube cache w = (Inr q, w') \<and> calm cache w0 w'"
proof -
  have "\<exists>q. reconcileRing memKube cache w = (Inr q, w) \<or> reconcileRing memKube cache w = publishRing memKube cache q w"
    using assms by (cases "v_cm (m_view w) (ringKey cache)") (auto simp: reconcileRing_def Let_def memKube_sel calm_def)
  then show ?thesis
    using assms calm_publish [OF assms] by metis
qed

lemma calm_drainLoop:
  "calm cache w0 w \<Longrightarrow> \<exists>b w'. drainLoop memKube cache doomed grace now ps a w = (Inr b, w') \<and> calm cache w0 w'"
  by (induction ps arbitrary: a w)
     (auto simp: memKube_sel memUpdateView_def putPod_def calm_def split: option.splits)

lemma calm_drain:
  assumes "calm cache w0 w"
  shows "\<exists>b w'. drainScaleDown memKube cache w = (Inr b, w') \<and> calm cache w0 w'"
proof -
  have "drainScaleDown memKube cache w = (Inr True, w) \<or>
    (\<exists>doomed ps. drainScaleDown memKube cache w = drainLoop memKube cache doomed (graceDuration cache) (m_clock w) ps True w)"
    using assms by (cases "v_sts (m_view w) (cacheKey cache)") (auto simp: drainScaleDown_def Let_def memKube_sel calm_def)
  then show ?thesis
    using assms calm_drainLoop [OF assms] by metis
qed

lemma calm_finish:
  assumes "calm cache w0 w"
  shows "\<exists>res st w'. finishReconcile memKube cache complete q w = (Inr res, w') \<and> m_faults w' = [] \<and> m_clock w' = m_clock w0
    \<and> m_view w' = (m_view w)\<lparr>v_dc := (v_dc (m_view w0))(keyOf cache \<mapsto> cache\<lparr>Status := st\<rparr>)\<rparr>"
proof -
  let ?c = "recordRing cache q"
  obtain cs where "setObservedConditions memKube ?c q w = (?c\<lparr>Status := (Status ?c)\<lparr>Conditions := cs\<rparr>\<rparr>, w)"
    using mem_setObserved by blast
  moreover obtain st where st: "?c\<lparr>Status := (Status ?c)\<lparr>Conditions := cs\<rparr>\<rparr> = cache\<lparr>Status := st\<rparr>"
    by (simp add: recordRing_def)
  moreover have "keyOf (cache\<lparr>Status := st\<rparr>) = keyOf cache"
    by (simp add: keyOf_def)
  ultimately show ?thesis
    using assms by (auto simp: finishReconcile_def memKube_sel memUpdateView_def calm_def)
qed

text \<open>
  A pass over a live resource that is not isolated succeeds, leaves no fault behind and changes
  nothing of the resource but its status.
\<close>

lemma calm_reconcile:
  assumes "calm cache w w" "\<not> isolated cache" "v_dc (m_view w) req = Some cache" "DeletionTimestamp cache = None"
    and "drainFinalizer \<in> set (Finalizers cache)"
  shows "\<exists>res st w'. Reconcile memKube req w = (Inr res, w') \<and> m_faults w' = [] \<and> m_clock w' = m_clock w
    \<and> v_dc (m_view w') = (v_dc (m_view w))(keyOf cache \<mapsto> cache\<lparr>Status := st\<rparr>) \<and> calm cache w' w'"
proof -
  have start: "Get_DC memKube req w = (Inr cache, w)" "AddFinalizer memKube (Finalizers cache) drainFinalizer = (Finalizers cache, False)"
    using assms by (simp_all add: memKube_sel calm_def)
  obtain w1 where 1: "reconcileService memKube cache w = (None, w1)" "calm cache w w1"
    using calm_service [OF assms(1)] by blast
  obtain b w2 where 2: "drainScaleDown memKube cache w1 = (Inr b, w2)" "calm cache w w2"
    using calm_drain [OF 1(2)] by blast
  obtain w3 where 3: "reconcileStatefulSet memKube cache b w2 = (None, w3)" "calm cache w w3"
    using calm_set [OF 2(2)] by blast
  obtain q w4 where 4: "reconcileRing memKube cache w3 = (Inr q, w4)" "calm cache w w4"
    using calm_ring [OF 3(2)] by blast
  obtain res st w5 where 5: "finishReconcile memKube cache b q w4 = (Inr res, w5)" "m_faults w5 = []" "m_clock w5 = m_clock w"
    "m_view w5 = (m_view w4)\<lparr>v_dc := (v_dc (m_view w))(keyOf cache \<mapsto> cache\<lparr>Status := st\<rparr>)\<rparr>"
    using calm_finish [OF 4(2)] by blast
  have "Reconcile memKube req w = (Inr res, w5)"
    using assms(2,4) start 1(1) 2(1) 3(1) 4(1) 5(1) by (simp add: Reconcile_def reconcileStages_def reconcileCell_def)
  with 4(2) 5(2-4) show ?thesis
    by (intro exI [of _ res] exI [of _ st] exI [of _ w5]) (simp add: calm_def)
qed


text \<open>Likewise a pass over a resource that is being deleted.\<close>

lemma calm_deletionLoop:
  "calm cache w0 w \<Longrightarrow> \<exists>b w'. deletionLoop memKube grace now ps a w = (Inr b, w') \<and> calm cache w0 w'"
  by (induction ps arbitrary: a w)
     (auto simp: memKube_sel memUpdateView_def putPod_def calm_def split: option.splits)

lemma calm_delete:
  assumes "calm cache w w" "\<not> isolated cache" "v_dc (m_view w) req = Some cache" "DeletionTimestamp cache \<noteq> None"
    and "drainFinalizer \<in> set (Finalizers cache)"
  shows "\<exists>res w'. Reconcile memKube req w = (Inr res, w') \<and> m_clock w' = m_clock w \<and> calm cache w' w'"
proof -
  obtain b w1 where 1: "deletionLoop memKube (graceDuration cache) (m_clock w)
      (podsIn (m_view w) (targetNamespace cache) (podLabels cache)) True w = (Inr b, w1)" "calm cache w w1"
    using calm_deletionLoop [OF assms(1)] by blast
  obtain q w2 where 2: "reconcileRing memKube cache w1 = (Inr q, w2)" "calm cache w w2"
    using calm_ring [OF 1(2)] by blast
  have "\<not> isCrossNamespaceChild cache"
    using assms(2) by (simp add: isCrossNamespaceChild_def targetNamespace_def)
  moreover have "Get_DC memKube req w = (Inr cache, w)"
    "List_Pods memKube ns ls w = (Inr (podsIn (m_view w) ns ls), w)" "Now memKube w = (m_clock w, w)"
    "ContainsFinalizer memKube (Finalizers cache) drainFinalizer" for ns ls
    using assms(1,3,5) by (simp_all add: memKube_sel calm_def)
  ultimately have run: "Reconcile memKube req w
      = (if b then releaseFinalizer memKube cache w2 else (Inr (requeueAfter 2), w2))"
    using assms(4) 1(1) 2(1) by (simp add: Reconcile_def reconcileDeletion_def)
  have "\<exists>w'. releaseFinalizer memKube cache w2 = (Inr noRequeue, w') \<and> m_clock w' = m_clock w \<and> calm cache w' w'"
    using 2(2) by (simp add: releaseFinalizer_def memKube_sel memUpdateView_def calm_def)
  moreover have "calm cache w2 w2" "m_clock w2 = m_clock w"
    using 2(2) by (simp_all add: calm_def)
  ultimately show ?thesis
    using run by (cases b) auto
qed

end
