(* ===== verification/Progress.thy ===== *)
theory Progress
  imports Example_Pass
begin

text \<open>
  Progress of the operator: what a pass that succeeds has brought about, that two successful
  passes a grace period apart complete a scale-down, and a run in which the scale-down completes
  although the ring without the drained pod was never published.
\<close>

section \<open>A pass that succeeds\<close>

text \<open>The effect of a pass that ran all its stages, at a time in \<open>T\<close> and with result \<open>res\<close>.\<close>

definition passDone :: "(Time \<Rightarrow> bool) \<Rightarrow> DistributedCache \<Rightarrow> cluster \<Rightarrow> cluster \<Rightarrow> Result \<Rightarrow> bool" where
  "passDone T cache v v' res \<longleftrightarrow> (\<exists>now. T now
     \<and> v_pods v' = v_pods (stampAll now {q \<in> doomedIn cache v. needsStamp q} v)
     \<and> (\<forall>s. v_sts v (cacheKey cache) = Some s \<longrightarrow> (\<exists>s'. v_sts v' (cacheKey cache) = Some s'
          \<and> (chooseReplicas cache (doomedDrained cache now v) (sts_Replicas s) \<noteq> None \<longrightarrow>
              sts_Replicas s' = chooseReplicas cache (doomedDrained cache now v) (sts_Replicas s))))
     \<and> (\<not> doomedDrained cache now v \<longrightarrow> res = requeueAfter 2))"

lemma passDone_before:
  assumes "sameWork u v" "passDone T cache v v' res"
  shows "passDone T cache u v' res"
  using assms(2) sameWork_doomedIn [OF assms(1)] assms(1)
  unfolding passDone_def doomedDrained_def by (simp add: sameWork_def)

lemma passDone_mono:
  "passDone T cache v v' res \<Longrightarrow> (\<And>t. T t \<Longrightarrow> T' t) \<Longrightarrow> passDone T' cache v v' res"
  unfolding passDone_def by blast

context cluster_api
begin

lemma reconcileStages_done:
  assumes run: "reconcileStages K cache w = (Inr res, w')" and srt: "member_sort (SortSlice K)"
    and ascii: "asciiPods (view w)" and keys: "distinct (map keyOf (v_pods (view w)))"
  shows "passDone (clockIn K w w') cache (view w) (view w') res"
proof -
  obtain complete w1 w2 q w3 where d: "drainScaleDown K cache w = (Inr complete, w1)"
    and u: "reconcileStatefulSet K cache complete w1 = (None, w2)"
    and q: "reconcileRing K cache w2 = (Inr q, w3)"
    and f: "finishReconcile K cache complete q w3 = (Inr res, w')"
    using run by (auto simp: reconcileStages_def failStage_def split: prod.splits sum.splits option.splits)
  obtain now where now: "clockIn K w w1 now" and complete: "complete = doomedDrained cache now (view w)"
    and v1: "view w1 = stampAll now {q \<in> doomedIn cache (view w). needsStamp q} (view w)"
    using drainScaleDown_view [OF d keys] by blast
  obtain d s where s: "mutateStatefulSet K cache complete
      (baseObj (v_sts (view w) (cacheKey cache)) (newStatefulSet cache)) = Inr d"
    "sts_Replicas d \<noteq> None \<longrightarrow> sts_Replicas s = sts_Replicas d"
    "view w2 = (view w1)\<lparr>v_sts := (v_sts (view w))(cacheKey cache \<mapsto> s)\<rparr>"
    using reconcileStatefulSet_view [OF u] v1 by auto
  have "asciiPods (view w2)"
    using ascii asciiPods_cong [of "view w2" "view w1"] v1 s(3) by simp
  note ring = reconcileRing_frame [OF q srt this]
  have same: "sameWork (view w3) (view w')"
    by (rule finishReconcile_view [OF f])
  have "runs K w1 w'"
    using u q f by (auto dest!: run_rules intro: rtranclp_trans)
  then have "clockIn K w w' now"
    using clockIn_mono [OF now] by blast
  moreover have "v_pods (view w') = v_pods (stampAll now {q \<in> doomedIn cache (view w). needsStamp q} (view w))"
    using same ring(1) s(3) v1 by (simp add: sameWork_def)
  moreover have "v_sts (view w') (cacheKey cache) = Some s"
    using same ring(2) s(3) by (simp add: sameWork_def)
  moreover have "sts_Replicas d = chooseReplicas cache complete (sts_Replicas s')"
    if "v_sts (view w) (cacheKey cache) = Some s'" for s'
    using mutateStatefulSet_replicas [OF s(1)] that by (simp add: baseObj_def)
  moreover have "\<not> complete \<longrightarrow> res = requeueAfter 2"
    using f by (auto simp: finishReconcile_def split: prod.splits sum.splits if_splits)
  ultimately show ?thesis
    using s(2) unfolding passDone_def complete by (intro exI [of _ now]) auto
qed

end

text \<open>The resource is stored, not being deleted, and has its finalizer.\<close>

definition live :: "'w kube \<Rightarrow> DistributedCache \<Rightarrow> NamespacedName \<Rightarrow> cluster \<Rightarrow> bool" where
  "live K cache req v \<longleftrightarrow> v_dc v req = Some cache \<and> DeletionTimestamp cache = None
     \<and> \<not> snd (AddFinalizer K (Finalizers cache) drainFinalizer)"

context cluster_api
begin

lemma Reconcile_done:
  assumes run: "Reconcile K req w = (Inr res, w')" and srt: "member_sort (SortSlice K)" and wf: "wfCluster (view w)"
    and live: "live K cache req (view w)"
  shows "passDone (clockIn K w w') cache (view w) (view w') res"
    and "Members (ringAt (ringKey cache) (view w')) = computeMembers (SortSlice K) (cellPods cache (view w'))"
proof -
  have l: "v_dc (view w) req = Some cache" "DeletionTimestamp cache = None"
    "AddFinalizer K (Finalizers cache) drainFinalizer = (fst (AddFinalizer K (Finalizers cache) drainFinalizer), False)"
    using live by (simp_all add: live_def prod_eq_iff)
  obtain w2 where w2: "reconcileStages K cache w2 = (Inr res, w')" "sameWork (view w) (view w2)" "runs K w w2"
    by (rule Reconcile_stages [OF run _ l]) simp_all
  have "asciiPods (view w2)" "distinct (map keyOf (v_pods (view w2)))"
    using w2(2) wf by (simp_all add: sameWork_def wfCluster_def asciiPods_def)
  from passDone_before [OF w2(2) reconcileStages_done [OF w2(1) srt this]]
  show "passDone (clockIn K w w') cache (view w) (view w') res"
    by (rule passDone_mono) (erule clockIn_mono [OF _ w2(3)], simp)
  show "Members (ringAt (ringKey cache) (view w')) = computeMembers (SortSlice K) (cellPods cache (view w'))"
    by (rule Reconcile_ok [OF run srt wf l])
qed

end

section \<open>A pass whose ring is not published\<close>

context cluster_api
begin

lemma Reconcile_ring_failed:
  assumes run: "Reconcile K req w = (Inl (Wrapped ''reconcile ring'' e), w')" and srt: "member_sort (SortSlice K)"
    and wf: "wfCluster (view w)" and live: "live K cache req (view w)"
    and drained: "\<And>now. clockIn K w w' now \<Longrightarrow> doomedDrained cache now (view w)"
    and d: "Replicas (Spec cache) = Some d"
  shows "\<exists>s. v_sts (view w') (cacheKey cache) = Some s \<and> sts_Replicas s = Some d"
proof -
  have l: "v_dc (view w) req = Some cache" "DeletionTimestamp cache = None"
    "AddFinalizer K (Finalizers cache) drainFinalizer = (fst (AddFinalizer K (Finalizers cache) drainFinalizer), False)"
    using live by (simp_all add: live_def prod_eq_iff)
  obtain w0 where w0: "reconcileStages K cache w0 = (Inl (Wrapped ''reconcile ring'' e), w')"
    "sameWork (view w) (view w0)" "runs K w w0"
    by (rule Reconcile_stages [OF run _ l]) auto
  then obtain complete w1 w2 w3 where dr: "drainScaleDown K cache w0 = (Inr complete, w1)"
    and u: "reconcileStatefulSet K cache complete w1 = (None, w2)" and q: "reconcileRing K cache w2 = (Inl e, w3)"
    and f: "failStage K cache ReasonRingFailed ''reconcile ring'' e w3 = (Inl (Wrapped ''reconcile ring'' e), w')"
    by (auto simp: reconcileStages_def failStage_def finishReconcile_def split: prod.splits sum.splits option.splits if_splits)
  have wf0: "asciiPods (view w0)" "distinct (map keyOf (v_pods (view w0)))"
    using w0(2) wf by (simp_all add: sameWork_def wfCluster_def asciiPods_def)
  obtain now S where now: "clockIn K w0 w1 now" and v1: "view w1 = stampAll now S (view w0)"
    and complete: "complete = doomedDrained cache now (view w0)"
    using drainScaleDown_view [OF dr wf0(2)] by blast
  have "runs K w1 w'"
    using u q f by (auto dest!: run_rules intro: rtranclp_trans)
  then have "clockIn K w w' now"
    by (rule clockIn_mono [OF now w0(3)])
  then have "complete"
    using drained sameWork_doomedIn [OF w0(2)] by (simp add: complete doomedDrained_def)
  moreover obtain c s where "mutateStatefulSet K cache complete
      (baseObj (v_sts (view w1) (cacheKey cache)) (newStatefulSet cache)) = Inr c"
    and s: "sts_Replicas c \<noteq> None \<longrightarrow> sts_Replicas s = sts_Replicas c"
      "view w2 = (view w1)\<lparr>v_sts := (v_sts (view w1))(cacheKey cache \<mapsto> s)\<rparr>"
    using reconcileStatefulSet_view [OF u] by auto
  ultimately have "sts_Replicas s = Some d"
    using mutateStatefulSet_replicas d by (fastforce simp: chooseReplicas_def split: option.splits)
  moreover have "asciiPods (view w2)"
    using wf0(1) asciiPods_cong [of "view w2" "view w1"] v1 s(2) by simp
  note reconcileRing_frame(2) [OF q srt this] failStage_view [OF f]
  ultimately show ?thesis
    using s(2) by (simp add: sameWork_def)
qed

end

section \<open>Doomed pods after a pass\<close>

lemma cellPods_marked:
  "v_pods v' = v_pods (stampAll now S v) \<Longrightarrow>
   set (cellPods cache v') = (\<lambda>q. if q \<in> S then stamp now q else q) ` set (cellPods cache v)"
  using cellPods_stampAll [of cache now S v] cellPods_cong [of v' "stampAll now S v" cache] by simp

lemma cellPods_name_inj:
  assumes "distinct (map keyOf (v_pods v))" "p \<in> set (cellPods cache v)" "q \<in> set (cellPods cache v)" "Name p = Name q"
  shows "p = q"
proof -
  have "keyOf p = keyOf q"
    using assms(2-4) by (auto simp: cellPods_def podsIn_def keyOf_def)
  with assms(1-3) show ?thesis
    using cellPods_subset [of cache v] by (auto simp: distinct_map inj_on_def)
qed

lemma doomed_cell: "doomedIn cache v \<subseteq> set (cellPods cache v)"
  by (auto simp: doomedIn_def split: option.splits)

lemma not_needsStamp: "\<not> needsStamp p \<Longrightarrow>
    \<exists>a ts. mapGet (Annotations p) drainAnnotation = Some a \<and> ParseInt a = Some ts"
  by (auto simp: needsStamp_def split: option.splits)

text \<open>The pods that are doomed after a pass were doomed before it and have their mark.\<close>

lemma passDone_doomed:
  assumes pass: "passDone T cache v v' res" and p: "p \<in> doomedIn cache v'"
    and spec: "Replicas (Spec cache) = Some d" "v_sts v (cacheKey cache) = Some s" "sts_Replicas s = Some c"
  shows "\<exists>now q. T now \<and> q \<in> doomedIn cache v \<and> p = (if needsStamp q then stamp now q else q)"
proof -
  from pass spec obtain now s' where now: "T now"
    and pods: "v_pods v' = v_pods (stampAll now {q \<in> doomedIn cache v. needsStamp q} v)"
    and s': "v_sts v' (cacheKey cache) = Some s'" "sts_Replicas s' = Some c \<or> sts_Replicas s' = Some d"
    unfolding passDone_def chooseReplicas_def by (fastforce split: if_splits)
  from p s'(1) obtain j where j: "Name p = podName cache j" "sint d \<le> sint j" "sint j < sint (currentReplicas s')"
    and "p \<in> set (cellPods cache v')"
    by (auto simp: doomedIn_def specReplicas_def spec(1))
  then obtain q where q: "q \<in> set (cellPods cache v)"
      "p = (if q \<in> {q \<in> doomedIn cache v. needsStamp q} then stamp now q else q)"
    unfolding cellPods_marked [OF pods] by blast
  moreover have "sts_Replicas s' = Some c"
    using j s'(2) by (auto simp: currentReplicas_def)
  ultimately have "q \<in> doomedIn cache v"
    using j spec by (auto simp: doomedIn_def specReplicas_def currentReplicas_def split: if_splits)
  with now q(2) show ?thesis
    by auto
qed

lemma passDone_unlisted:
  assumes pass: "passDone T cache v v' res" and keys: "distinct (map keyOf (v_pods v))" and p: "p \<in> doomedIn cache v"
  shows "Name p \<notin> Name ` {q \<in> set (cellPods cache v'). eligible q}"
proof
  assume "Name p \<in> Name ` {q \<in> set (cellPods cache v'). eligible q}"
  then obtain p' where p': "p' \<in> set (cellPods cache v')" "eligible p'" "Name p' = Name p"
    by auto
  from pass obtain now where pods: "v_pods v' = v_pods (stampAll now {q \<in> doomedIn cache v. needsStamp q} v)"
    unfolding passDone_def by blast
  obtain q where q: "q \<in> set (cellPods cache v)"
      "p' = (if q \<in> {q \<in> doomedIn cache v. needsStamp q} then stamp now q else q)"
    using p'(1) unfolding cellPods_marked [OF pods] by blast
  with p'(3) have "q = p"
    using cellPods_name_inj [OF keys q(1)] p doomed_cell by (metis stamp_sel(1) subsetD)
  with q(2) p p'(2) have "\<not> needsStamp p" "eligible p"
    by (auto split: if_splits)
  then show False
    using not_needsStamp [of p] by (auto simp: eligible_def)
qed

section \<open>Time\<close>

locale cluster_time = cluster_api K view + steady_clock K for K :: "'w kube" and view

interpretation mem_time: cluster_time memKube m_view ..

text \<open>The times of a run are in Go's normal form.\<close>

definition goTimes :: "'w kube \<Rightarrow> 'w \<Rightarrow> 'w \<Rightarrow> bool" where
  "goTimes K w w' \<longleftrightarrow> (\<forall>t. clockIn K w w' t \<longrightarrow> 0 \<le> t_nsec t \<and> t_nsec t < Second)"

text \<open>Every readable drain mark of a pod dates from \<open>t\<close> or before.\<close>

definition markedBy :: "int \<Rightarrow> Pod \<Rightarrow> bool" where
  "markedBy t p \<longleftrightarrow> (\<forall>a ts. mapGet (Annotations p) drainAnnotation = Some a \<longrightarrow> ParseInt a = Some ts \<longrightarrow>
     instant (time_Unix ts) \<le> t)"

lemma marked_drained:
  assumes "\<not> needsStamp p" "markedBy t p"
    and "t + sint (GracePeriodSeconds (Drain (Spec cache))) * Second \<le> instant now"
  shows "drained now (graceDuration cache) p"
  using not_needsStamp [OF assms(1)] assms(2,3) unfolding drained_iff markedBy_def by fastforce

lemma marked_cong:
  assumes "mapGet (Annotations p) drainAnnotation = mapGet (Annotations q) drainAnnotation"
  shows "needsStamp p = needsStamp q" "markedBy t p = markedBy t q"
  using assms by (simp_all add: needsStamp_def markedBy_def)

context cluster_time
begin

text \<open>After a successful pass every doomed pod has a readable mark from before the end of the pass.\<close>

lemma Reconcile_marks:
  assumes run: "Reconcile K req w = (Inr res, w')" "member_sort (SortSlice K)" "wfCluster (view w)"
      "live K cache req (view w)" "goTimes K w w'"
    and spec: "Replicas (Spec cache) = Some d" "v_sts (view w) (cacheKey cache) = Some s" "sts_Replicas s = Some c"
    and past: "\<forall>p \<in> doomedIn cache (view w). markedBy (timeAt K w') p"
    and p: "p \<in> doomedIn cache (view w')"
  shows "\<not> needsStamp p \<and> markedBy (timeAt K w') p"
proof -
  obtain now q where now: "clockIn K w w' now" and q: "q \<in> doomedIn cache (view w)"
    and p: "p = (if needsStamp q then stamp now q else q)"
    using passDone_doomed [OF Reconcile_done(1) [OF run(1-4)] p spec] by blast
  have "instant (time_Unix (Unix now)) \<le> timeAt K w'"
    using clockIn_bounds [OF now] run(5) now by (auto simp: instant_stamp goTimes_def)
  then show ?thesis
    using q p past by (auto simp: needsStamp_def markedBy_def stamp_annotations)
qed

text \<open>A pass a grace period after all doomed pods were marked scales down.\<close>

lemma Reconcile_scales:
  assumes run: "Reconcile K req w = (Inr res, w')" "member_sort (SortSlice K)" "wfCluster (view w)"
      "live K cache req (view w)"
    and spec: "Replicas (Spec cache) = Some d" "v_sts (view w) (cacheKey cache) = Some s" "sts_Replicas s = Some c"
    and marked: "\<forall>p \<in> doomedIn cache (view w). \<not> needsStamp p \<and> markedBy t p"
    and wait: "t + sint (GracePeriodSeconds (Drain (Spec cache))) * Second \<le> timeAt K w"
  shows "\<exists>s'. v_sts (view w') (cacheKey cache) = Some s' \<and> sts_Replicas s' = Some d"
proof -
  have "doomedDrained cache now (view w)" if "clockIn K w w' now" for now
    using marked wait clockIn_bounds [OF that] marked_drained unfolding doomedDrained_def by (meson order_trans)
  then show ?thesis
    using Reconcile_done(1) [OF run] spec unfolding passDone_def
    by (auto simp: chooseReplicas_def)
qed

end

text \<open>The same resource, whatever its status and other metadata.\<close>

definition sameTarget :: "DistributedCache \<Rightarrow> DistributedCache \<Rightarrow> bool" where
  "sameTarget cache cache' \<longleftrightarrow> Name cache' = Name cache \<and> Namespace cache' = Namespace cache \<and> Spec cache' = Spec cache"

lemma sameTarget_names:
  assumes "sameTarget cache cache'"
  shows "cacheKey cache' = cacheKey cache" "doomedIn cache' v = doomedIn cache v" "Spec cache' = Spec cache"
  using assms by (simp_all add: sameTarget_def cacheKey_def targetNamespace_def isolated_def doomedIn_def
      cellPods_def podLabels_def podName_def specReplicas_def cong: option.case_cong)

text \<open>
  A cluster whose stored ring lists a pod that has been marked for the grace period, and whose API
  server refuses the eighth request of a pass, the write of the ring.
\<close>

definition staleRing :: ConfigMap where
  "staleRing = ObjectMeta.extend (newMeta ''c-ring'' ''default'')
     (ConfigMap.fields [(ringConfigMapKey, marshalRing (nextRing [''c-0'', ''c-1''] zeroRing))])"

definition staleWorld :: memState where
  "staleWorld = memUpdateView (\<lambda>v. v\<lparr>v_cm := (v_cm v)(ringKey (exampleCache 1) \<mapsto> staleRing)\<rparr>)
     (exampleWorld 1 2 [cachePod ''c-0'' [], cachePod ''c-1'' [(drainAnnotation, ''100'')]] 130
       (replicate 7 NoFault @ [Refused]))"

section \<open>Properties\<close>

text \<open>
  C6: a scale-down completes. Take a cluster that keeps the API server's contract and whose
  requests do not turn the clock back. A pass that succeeds takes every doomed pod out of the
  ring at once, and has scaled down already or asks to be run again in two seconds. If the pods
  that are still doomed later keep the drain mark they had after that pass, the resource keeps
  its spec, and the clock has moved on by the grace period, the next pass that succeeds sets the
  StatefulSet to the specified count. The drain marks found by the first pass must not lie in the
  future; whatever else changes in between, status, other pods, other resources, does not matter.
\<close>

theorem scale_down_completes:
  assumes "cluster_time K view" "member_sort (SortSlice K)" "Replicas (Spec cache) = Some d"
    and "wfCluster (view w)" "live K cache req (view w)" "Reconcile K req w = (Inr res, w1)" "goTimes K w w1"
    and "v_sts (view w) (cacheKey cache) = Some s" "sts_Replicas s = Some c"
    and "\<forall>p \<in> doomedIn cache (view w). markedBy (timeAt K w1) p"
    and "wfCluster (view w2)" "live K cache' req (view w2)" "sameTarget cache cache'"
    and "v_sts (view w2) (cacheKey cache) = Some s2" "sts_Replicas s2 = Some c2"
    and "\<forall>p \<in> doomedIn cache (view w2). \<exists>q \<in> doomedIn cache (view w1).
      mapGet (Annotations p) drainAnnotation = mapGet (Annotations q) drainAnnotation"
    and "timeAt K w1 + sint (GracePeriodSeconds (Drain (Spec cache))) * Second \<le> timeAt K w2"
    and "Reconcile K req w2 = (Inr res2, w3)"
  shows "(\<forall>p \<in> doomedIn cache (view w). Name p \<notin> set (Members (ringAt (ringKey cache) (view w1))))
    \<and> (res = requeueAfter 2 \<or> (\<exists>s1. v_sts (view w1) (cacheKey cache) = Some s1 \<and> sts_Replicas s1 = Some d))
    \<and> (\<exists>s3. v_sts (view w3) (cacheKey cache) = Some s3 \<and> sts_Replicas s3 = Some d)"
proof (intro conjI)
  have api: "cluster_api K view"
    using assms(1) by (rule cluster_time.axioms)
  note first = cluster_api.Reconcile_done [OF api assms(6,2,4,5)]
  show "\<forall>p \<in> doomedIn cache (view w). Name p \<notin> set (Members (ringAt (ringKey cache) (view w1)))"
    using passDone_unlisted [OF first(1)] assms(4)
    by (simp add: first(2) member_sort.set_computeMembers [OF assms(2)] wfCluster_def)
  show "res = requeueAfter 2 \<or> (\<exists>s1. v_sts (view w1) (cacheKey cache) = Some s1 \<and> sts_Replicas s1 = Some d)"
    using first(1) assms(3,8,9) unfolding passDone_def by (auto simp: chooseReplicas_def)
  have "\<not> needsStamp p \<and> markedBy (timeAt K w1) p" if "p \<in> doomedIn cache (view w1)" for p
    using cluster_time.Reconcile_marks [OF assms(1,6,2,4,5,7,3,8,9,10) that] .
  then have "\<forall>p \<in> doomedIn cache (view w2). \<not> needsStamp p \<and> markedBy (timeAt K w1) p"
    using assms(16) marked_cong by metis
  then show "\<exists>s3. v_sts (view w3) (cacheKey cache) = Some s3 \<and> sts_Replicas s3 = Some d"
    using cluster_time.Reconcile_scales [OF assms(1,18,2,11,12), of d s2 c2 "timeAt K w1"]
      assms(3,14,15,17) sameTarget_names [OF assms(13)] by simp
qed

lemma mem_live: "live memKube cache req v \<longleftrightarrow>
    v_dc v req = Some cache \<and> DeletionTimestamp cache = None \<and> drainFinalizer \<in> set (Finalizers cache)"
  by (simp add: live_def memKube_sel)

lemma ownedBy_status [simp]: "ownedBy (cache\<lparr>Status := st\<rparr>) x = ownedBy cache x"
  by (cases x) (simp_all add: ownedBy_def)

lemma calm_status:
  assumes "calm cache w w"
  shows "calm (cache\<lparr>Status := st\<rparr>) (w\<lparr>m_clock := t\<rparr>) (w\<lparr>m_clock := t\<rparr>)"
proof -
  have "targetNamespace (cache\<lparr>Status := st\<rparr>) = targetNamespace cache"
    by (simp add: targetNamespace_def isolated_def)
  then have "cacheKey (cache\<lparr>Status := st\<rparr>) = cacheKey cache" "ringKey (cache\<lparr>Status := st\<rparr>) = ringKey cache"
    by (simp_all add: cacheKey_def ringKey_def ringConfigMapName_def)
  then show ?thesis
    using assms by (simp add: calm_def)
qed

lemma example_two_passes:
  "\<exists>res w1 st res2 w3. Reconcile memKube exampleKey (exampleWorld m n ps ts []) = (Inr res, w1)
    \<and> m_clock w1 = time_Unix ts \<and> v_dc (m_view w1) exampleKey = Some ((exampleCache m)\<lparr>Status := st\<rparr>)
    \<and> Reconcile memKube exampleKey (w1\<lparr>m_clock := t\<rparr>) = (Inr res2, w3)"
proof -
  let ?w = "exampleWorld m n ps ts []"
  have "calm (exampleCache m) ?w ?w"
    by (simp add: calm_def exampleWorld_def ownedBy_def exampleSet_def newMeta_def ObjectMeta.extend_def)
  from calm_reconcile [OF this _ example_stored(1)]
  obtain res st w1 where 1: "Reconcile memKube exampleKey ?w = (Inr res, w1)" "m_clock w1 = m_clock ?w"
    "v_dc (m_view w1) = (v_dc (m_view ?w))(keyOf (exampleCache m) \<mapsto> (exampleCache m)\<lparr>Status := st\<rparr>)"
    "calm (exampleCache m) w1 w1"
    unfolding exampleCache_sel by (auto simp del: fun_upd_apply)
  have dc: "v_dc (m_view w1) exampleKey = Some ((exampleCache m)\<lparr>Status := st\<rparr>)"
    unfolding 1(3) by (simp add: keyOf_def exampleKey_def)
  have "\<not> isolated ((exampleCache m)\<lparr>Status := st\<rparr>)"
    using exampleCache_sel(7) [of m] by (simp add: isolated_def)
  from calm_reconcile [OF calm_status [OF 1(4)] this, of t exampleKey] dc
  have "\<exists>res2 w3. Reconcile memKube exampleKey (w1\<lparr>m_clock := t\<rparr>) = (Inr res2, w3)"
    by (simp del: fun_upd_apply) blast
  moreover have "m_clock w1 = time_Unix ts"
    unfolding 1(2) by (simp add: exampleWorld_def)
  ultimately show ?thesis
    using 1(1) dc by blast
qed

theorem scale_down_completes_witness:
  "\<exists>w1 w3 res res2.
     Reconcile memKube exampleKey (exampleWorld 1 2 [cachePod ''c-0'' [], cachePod ''c-1'' []] 100 []) = (Inr res, w1)
     \<and> Reconcile memKube exampleKey (w1\<lparr>m_clock := time_Unix 130\<rparr>) = (Inr res2, w3)
     \<and> ''c-1'' \<notin> set (Members (ringAt (ringKey (exampleCache 1)) (m_view w1)))
     \<and> (\<exists>s. v_sts (m_view w3) exampleKey = Some s \<and> sts_Replicas s = Some 1)"
proof -
  let ?w = "exampleWorld 1 2 [cachePod ''c-0'' [], cachePod ''c-1'' []] 100 []"
  obtain res w1 st res2 w3 where 1: "Reconcile memKube exampleKey ?w = (Inr res, w1)" "m_clock w1 = time_Unix 100"
    "v_dc (m_view w1) exampleKey = Some ((exampleCache 1)\<lparr>Status := st\<rparr>)"
    and 2: "Reconcile memKube exampleKey (w1\<lparr>m_clock := time_Unix 130\<rparr>) = (Inr res2, w3)"
    using example_two_passes [of 1 2 "[cachePod ''c-0'' [], cachePod ''c-1'' []]" 100 "time_Unix 130"] by blast
  have num: "fmtInt 1 = ''1''"
    by code_simp
  have "podName (exampleCache 1) 1 = ''c-1''"
    using num by simp
  then have doomed: "\<exists>j. ''c-1'' = podName (exampleCache 1) j \<and> sint (1 :: int32) \<le> sint j \<and> sint j < sint (2 :: int32)"
    by (intro exI [of _ 1]) simp
  have c1: "cachePod ''c-1'' [] \<in> doomedIn (exampleCache 1) (m_view ?w)"
    using doomed by (simp add: doomedIn_def example_stored example_pods)
  have fresh: "\<forall>p \<in> doomedIn (exampleCache 1) (m_view ?w). markedBy (timeAt memKube w1) p"
    by (auto simp: doomedIn_def example_stored example_pods markedBy_def)
  have wf: "wfCluster (m_view ?w)"
    by (simp add: example_wf keyOf_def)
  have live: "live memKube (exampleCache 1) exampleKey (m_view ?w)"
    by (simp add: mem_live example_stored)
  obtain s2 c2 where s2: "v_sts (m_view w1) exampleKey = Some s2" "sts_Replicas s2 = Some c2"
    using mem.Reconcile_done(1) [OF 1(1) mem_member_sort wf live]
    by (auto simp: passDone_def example_stored chooseReplicas_def split: if_splits)
  have times: "goTimes memKube ?w w1"
    by (auto simp: goTimes_def exampleWorld_def time_Unix_def Second_def dest!: mem_clockIn)
  have "timeAt memKube w1 + 30 * Second \<le> timeAt memKube (w1\<lparr>m_clock := time_Unix 130\<rparr>)"
    by (simp add: mem_timeAt 1(2) instant_def time_Unix_def unixToInternal_def Second_def)
  moreover have "\<forall>p \<in> doomedIn (exampleCache 1) (m_view w1). \<exists>q \<in> doomedIn (exampleCache 1) (m_view w1).
    mapGet (Annotations p) drainAnnotation = mapGet (Annotations q) drainAnnotation"
    by blast
  ultimately have "(\<forall>p \<in> doomedIn (exampleCache 1) (m_view ?w).
      Name p \<notin> set (Members (ringAt (ringKey (exampleCache 1)) (m_view w1))))
    \<and> (\<exists>s. v_sts (m_view w3) exampleKey = Some s \<and> sts_Replicas s = Some 1)"
    using scale_down_completes [OF mem_time.cluster_time_axioms mem_member_sort _ wf live 1(1) times _ _ fresh, of 1
        "exampleSet 2" 2 "w1\<lparr>m_clock := time_Unix 130\<rparr>" "(exampleCache 1)\<lparr>Status := st\<rparr>" s2 c2 res2 w3]
      mem.Reconcile_wf [OF 1(1) mem_member_sort wf] 1(3) 2 s2
    by (simp add: example_stored mem_live sameTarget_def)
  with c1 have "''c-1'' \<notin> set (Members (ringAt (ringKey (exampleCache 1)) (m_view w1)))
    \<and> (\<exists>s. v_sts (m_view w3) exampleKey = Some s \<and> sts_Replicas s = Some 1)"
    by (metis cachePod_sel(1))
  with 1(1) 2 show ?thesis
    by blast
qed

text \<open>
  C16: the scale-down does not wait for the ring. Whenever the grace period of the doomed pods is
  over and the pass fails only because the ring could not be published, the StatefulSet has been
  set to the specified count all the same. The grace period counts from the drain annotation and
  not from the publication of a ring without the pod, so the pods go while the ring clients read
  may still list them: in the instance below the write of the ring is refused, the StatefulSet is
  scaled from two pods to one, and the stored ring still names the second.
\<close>

theorem scale_down_ignores_ring:
  assumes "cluster_api K view" "member_sort (SortSlice K)" "wfCluster (view w)" "live K cache req (view w)"
    and "Replicas (Spec cache) = Some d" "\<And>now. clockIn K w w' now \<Longrightarrow> doomedDrained cache now (view w)"
    and "Reconcile K req w = (Inl (Wrapped ''reconcile ring'' e), w')"
  shows "\<exists>s. v_sts (view w') (cacheKey cache) = Some s \<and> sts_Replicas s = Some d"
  by (rule cluster_api.Reconcile_ring_failed [OF assms(1,7,2,3,4,6,5)])

lemma stale_pass:
  "case Reconcile memKube exampleKey staleWorld of (r, w) \<Rightarrow>
     r = Inl (Wrapped ''reconcile ring'' (Wrapped ''CreateOrUpdate ring ConfigMap'' timeoutErr))
     \<and> Members (ringAt (ringKey (exampleCache 1)) (m_view w)) = [''c-0'', ''c-1'']"
  by code_simp

theorem scale_down_ignores_ring_witness:
  "let w = snd (Reconcile memKube exampleKey staleWorld)
   in (\<exists>s. v_sts (m_view w) exampleKey = Some s \<and> sts_Replicas s = Some 1)
     \<and> ''c-1'' \<in> set (Members (ringAt (ringKey (exampleCache 1)) (m_view w)))"
proof -
  obtain w where run: "Reconcile memKube exampleKey staleWorld
      = (Inl (Wrapped ''reconcile ring'' (Wrapped ''CreateOrUpdate ring ConfigMap'' timeoutErr)), w)"
    and ring: "Members (ringAt (ringKey (exampleCache 1)) (m_view w)) = [''c-0'', ''c-1'']"
    using stale_pass by (cases "Reconcile memKube exampleKey staleWorld") simp
  have num: "ParseInt ''100'' = Some 100" "fmtInt 1 = ''1''"
    by code_simp+
  have stored: "v_pods (m_view staleWorld) = [cachePod ''c-0'' [], cachePod ''c-1'' [(drainAnnotation, ''100'')]]"
    "v_sts (m_view staleWorld) exampleKey = Some (exampleSet 2)" "v_dc (m_view staleWorld) exampleKey = Some (exampleCache 1)"
    "m_clock staleWorld = time_Unix 130"
    by (simp_all add: staleWorld_def memUpdateView_def exampleWorld_def)
  have "drained (time_Unix 130) (graceDuration (exampleCache 1)) (cachePod ''c-1'' [(drainAnnotation, ''100'')])"
    unfolding drained_iff by (simp add: num instant_def time_Unix_def unixToInternal_def Second_def)
  moreover have "p = cachePod ''c-1'' [(drainAnnotation, ''100'')]"
    if doomed: "p \<in> doomedIn (exampleCache 1) (m_view staleWorld)" for p
  proof -
    obtain j where p: "p \<in> set (v_pods (m_view staleWorld))" "Name p = podName (exampleCache 1) j"
      and "1 \<le> sint j" "sint j < 2"
      using doomed by (auto simp: doomedIn_def stored(2) cellPods_def podsIn_def simp del: example_workload(2))
    then have "sint j = 1"
      by linarith
    with p show ?thesis
      using num(2) by (auto simp: stored(1))
  qed
  ultimately have "doomedDrained (exampleCache 1) (time_Unix 130) (m_view staleWorld)"
    by (auto simp: doomedDrained_def)
  then have "doomedDrained (exampleCache 1) now (m_view staleWorld)" if "clockIn memKube staleWorld w now" for now
    using mem_clockIn [OF that] stored(4) by simp
  moreover have "wfCluster (m_view staleWorld)" "live memKube (exampleCache 1) exampleKey (m_view staleWorld)"
    by (simp_all add: wfCluster_def asciiPods_def stored keyOf_def mem_live)
  ultimately show ?thesis
    using scale_down_ignores_ring [OF mem.cluster_api_axioms mem_member_sort _ _ _ _ run, of "exampleCache 1" 1] ring run
    by simp
qed

end
