(* ===== verification/Teardown.thy ===== *)
theory Teardown
  imports Progress
begin

text \<open>
  Progress of a deletion: a pass of \<open>reconcileDeletion\<close> that succeeds marks every pod of the cell,
  and a pass a grace period later releases the resource or waits for the cell namespace to go.
\<close>

section \<open>Passes over a resource that is being deleted\<close>

text \<open>A request was made in the run from \<open>w\<close> to \<open>w'\<close>, and accepted.\<close>

definition issued :: "'w kube \<Rightarrow> ('w, 'a) request \<Rightarrow> 'w \<Rightarrow> 'w \<Rightarrow> bool" where
  "issued K call w w' \<longleftrightarrow> (\<exists>u x u'. runs K w u \<and> call u = (Inr x, u') \<and> runs K u' w')"

lemma issued_after: "issued K call w1 w' \<Longrightarrow> runs K w w1 \<Longrightarrow> issued K call w w'"
  unfolding issued_def by (meson rtranclp_trans)

context cluster_api
begin

text \<open>A pass over a resource that is being deleted is one of \<open>reconcileDeletion\<close>.\<close>

lemma Reconcile_deletes:
  assumes "Reconcile K req w = (Inr res, w')" "v_dc (view w) req = Some cache" "DeletionTimestamp cache \<noteq> None"
  obtains w0 where "reconcileDeletion K cache w0 = (Inr res, w')" "view w0 = view w" "runs K w w0"
proof (cases "Get_DC K req w")
  case (Pair g w0)
  show thesis
  proof (cases g)
    case (Inl e)
    with Pair assms show thesis
      using get_dc_err [of req w e w0] by (auto simp: Reconcile_def split: if_splits)
  next
    case (Inr c)
    then have "view w0 = view w" "c = cache"
      using get_dc [of req w c w0] Pair assms(2) by simp_all
    moreover have "reconcileDeletion K c w0 = (Inr res, w')"
      using assms(1,3) Pair Inr \<open>c = cache\<close> by (simp add: Reconcile_def)
    ultimately show thesis
      using that request_runs(1) [OF Pair] by blast
  qed
qed

text \<open>A deletion pass that succeeds has marked every pod of the cell that had no mark.\<close>

lemma reconcileDeletion_marks:
  assumes run: "reconcileDeletion K cache w = (Inr res, w')" and srt: "member_sort (SortSlice K)"
    and wf: "wfCluster (view w)" and fin: "ContainsFinalizer K (Finalizers cache) drainFinalizer"
  shows "\<exists>now. clockIn K w w' now \<and> v_pods (view w') = v_pods (stampAll now
    {q \<in> set (cellPods cache (view w)). mapGet (Annotations q) drainAnnotation = None} (view w))"
proof -
  let ?S = "{q \<in> set (cellPods cache (view w)). mapGet (Annotations q) drainAnnotation = None}"
  obtain pods w1 now w2 b w3 q w4 where list: "List_Pods K (targetNamespace cache) (podLabels cache) w = (Inr pods, w1)"
    and now: "Now K w1 = (now, w2)" and loop: "deletionLoop K (graceDuration cache) now pods True w2 = (Inr b, w3)"
    and ring: "reconcileRing K cache w3 = (q, w4)" and tail: "sameWork (view w4) (view w')" "runs K w4 w'"
    using run fin
  proof (cases rule: reconcileDeletion_elim)
    case (waiting pods w1 now w2 w3 q)
    then show thesis
      using that [OF waiting(1-4)] by simp
  next
    case (drained pods w1 now w2 w3 q w4)
    have "runs K w4 w'"
      using drained(5) by (auto dest!: run_rules split: if_splits prod.splits sum.splits intro: rtranclp_trans)
    with drained show thesis
      using that reconcileDeletion_tail [OF drained(5)] by blast
  qed simp_all
  have v: "view w2 = view w" "pods = cellPods cache (view w2)"
    using list_pods [OF list] now_view [OF now] by (simp_all add: cellPods_def)
  have v3: "view w3 = stampAll now ?S (view w)"
    using deletionLoop_view [OF loop [unfolded v(2)]] wf v(1) by (auto simp: wfCluster_def)
  then have "v_pods (view w') = v_pods (stampAll now ?S (view w))"
    using deletion_ring_view [OF ring srt v3] wf tail(1) by (simp add: wfCluster_def sameWork_def)
  moreover have "clockIn K w w' now"
    using deletion_clockIn [OF list now loop] rtranclp_trans [OF reconcileRing_runs [OF ring] tail(2)] by blast
  ultimately show ?thesis by blast
qed

lemma deleteCellNamespace_progress:
  assumes "deleteCellNamespace K cache w = (Inr gone, w')"
  shows "if gone then v_ns (view w) (targetNamespace cache) = None
    else \<exists>ns. v_ns (view w) (targetNamespace cache) = Some ns \<and> (DeletionTimestamp ns \<noteq> None \<or> issued K (Delete_NS K ns) w w')"
proof (cases "Get_NS K (targetNamespace cache) w")
  case (Pair g w1)
  show ?thesis
  proof (cases g)
    case (Inl e)
    with Pair assms show ?thesis
      using get_ns_err [of "targetNamespace cache" w e w1] by (auto simp: deleteCellNamespace_def split: if_splits)
  next
    case (Inr ns)
    have v: "view w1 = view w" "v_ns (view w) (targetNamespace cache) = Some ns"
      using get_ns [of "targetNamespace cache" w ns w1] Pair Inr by simp_all
    obtain d w2 where d: "Delete_NS K ns w1 = (d, w2)"
      by (cases "Delete_NS K ns w1")
    have "\<not> IsNotFound e" if "d = Inl e" for e
      using delete_ns_gone [of ns w1 e w2 "targetNamespace cache"] d v that by auto
    moreover have "issued K (Delete_NS K ns) w w'" if "d = Inr x" "w' = Eventf K cache ev w2" for x ev
      using request_runs(6) [OF Pair] d that run_event [OF rtranclp.rtrancl_refl] by (auto simp: issued_def)
    ultimately show ?thesis
      using assms Pair Inr d v(2) by (auto simp: deleteCellNamespace_def Let_def split: sum.splits if_splits)
  qed
qed

text \<open>
  A deletion pass that succeeds with all pods drained releases the resource, or is waiting for the
  cell namespace, whose deletion it has asked for or found under way.
\<close>

lemma reconcileDeletion_progress:
  assumes run: "reconcileDeletion K cache w = (Inr res, w')" and srt: "member_sort (SortSlice K)"
    and wf: "wfCluster (view w)" and fin: "ContainsFinalizer K (Finalizers cache) drainFinalizer"
    and all: "\<And>now p. clockIn K w w' now \<Longrightarrow> p \<in> set (cellPods cache (view w)) \<Longrightarrow> drained now (graceDuration cache) p"
  shows "res = noRequeue \<and> issued K (Update_DC K (cache\<lparr>Finalizers := RemoveFinalizer K (Finalizers cache) drainFinalizer\<rparr>)) w w'
    \<or> res = requeueAfter 2 \<and> isCrossNamespaceChild cache \<and> (\<exists>ns. v_ns (view w) (targetNamespace cache) = Some ns
        \<and> (DeletionTimestamp ns \<noteq> None \<or> issued K (Delete_NS K ns) w w'))"
  using run fin
proof (cases rule: reconcileDeletion_elim)
  case (waiting pods w1 now w2 w3 q)
  have "clockIn K w w' now"
    by (rule deletion_clockIn [OF waiting(1-3) reconcileRing_runs [OF waiting(4)]])
  moreover have "pods = cellPods cache (view w)"
    using list_pods [OF waiting(1)] by (simp add: cellPods_def)
  ultimately show ?thesis
    using deletionLoop_result [OF waiting(3)] all by blast
next
  case (drained pods w1 now w2 w3 q w4)
  obtain S where "view w3 = stampAll now S (view w)"
    using deletion_drain_view [OF drained(1-3)] wf by (auto simp: wfCluster_def)
  from deletion_ring_view [OF drained(4) srt this] wf have ns: "v_ns (view w4) = v_ns (view w)"
    by (simp add: wfCluster_def)
  have w4: "runs K w w4"
    using drained(1-4) by (auto dest!: run_rules intro: rtranclp_trans)
  have release: ?thesis if "releaseFinalizer K cache u = (Inr res, w')" "runs K w u" for u
    using that run_event [OF rtranclp.rtrancl_refl]
    by (fastforce simp: releaseFinalizer_def issued_def split: prod.splits sum.splits)
  show ?thesis
  proof (cases "isCrossNamespaceChild cache")
    case True
    obtain b u where b: "deleteCellNamespace K cache w4 = (b, u)"
      by (cases "deleteCellNamespace K cache w4")
    have u: "runs K w u"
      using w4 deleteCellNamespace_runs [OF b] by (rule rtranclp_trans)
    show ?thesis
    proof (cases "b = Inr True")
      case gone: True
      then show ?thesis
        using release [OF _ u] True drained(5) b by simp
    next
      case False
      then have "b = Inr False" "res = requeueAfter 2" "u = w'"
        using True drained(5) b by (auto split: sum.splits if_splits)
      then show ?thesis
        using deleteCellNamespace_progress [of cache w4 False w'] True b ns issued_after [OF _ w4] by auto
    qed
  qed (use drained(5) release w4 in simp)
qed simp_all

end

text \<open>The resource is stored, being deleted, and still has its finalizer.\<close>

definition deleting :: "'w kube \<Rightarrow> DistributedCache \<Rightarrow> NamespacedName \<Rightarrow> cluster \<Rightarrow> bool" where
  "deleting K cache req v \<longleftrightarrow> v_dc v req = Some cache \<and> DeletionTimestamp cache \<noteq> None
     \<and> ContainsFinalizer K (Finalizers cache) drainFinalizer"

context cluster_time
begin

lemma Reconcile_marks_all:
  assumes run: "Reconcile K req w = (Inr res, w')" "member_sort (SortSlice K)" "wfCluster (view w)"
      "deleting K cache req (view w)" "goTimes K w w'"
    and past: "\<forall>p \<in> set (cellPods cache (view w)). mapGet (Annotations p) drainAnnotation = None \<or>
      \<not> needsStamp p \<and> markedBy (timeAt K w') p"
    and p: "p \<in> set (cellPods cache (view w'))"
  shows "\<not> needsStamp p \<and> markedBy (timeAt K w') p"
proof -
  let ?S = "{q \<in> set (cellPods cache (view w)). mapGet (Annotations q) drainAnnotation = None}"
  have fin: "ContainsFinalizer K (Finalizers cache) drainFinalizer"
    using run(4) by (simp add: deleting_def)
  obtain w0 where w0: "reconcileDeletion K cache w0 = (Inr res, w')" "view w0 = view w" "runs K w w0"
    using Reconcile_deletes [OF run(1)] run(4) by (auto simp: deleting_def)
  have "wfCluster (view w0)"
    using run(3) w0(2) by simp
  from reconcileDeletion_marks [OF w0(1) run(2) this fin]
  obtain now where now: "clockIn K w0 w' now" and pods: "v_pods (view w') = v_pods (stampAll now ?S (view w))"
    unfolding w0(2) by blast
  have "clockIn K w w' now"
    using now w0(3) by (rule clockIn_mono) simp
  then have stamp: "instant (time_Unix (Unix now)) \<le> timeAt K w'"
    using clockIn_bounds run(5) by (fastforce simp: instant_stamp goTimes_def)
  obtain q where q: "q \<in> set (cellPods cache (view w))" "p = (if q \<in> ?S then stamp now q else q)"
    using p unfolding cellPods_marked [OF pods] by blast
  then show ?thesis
    using past stamp by (auto simp: needsStamp_def markedBy_def stamp_annotations)
qed

lemma Reconcile_releases:
  assumes run: "Reconcile K req w = (Inr res, w')" "member_sort (SortSlice K)" "wfCluster (view w)"
      "deleting K cache req (view w)"
    and marked: "\<forall>p \<in> set (cellPods cache (view w)). \<not> needsStamp p \<and> markedBy t p"
    and wait: "t + sint (GracePeriodSeconds (Drain (Spec cache))) * Second \<le> timeAt K w"
  shows "res = noRequeue \<and> issued K (Update_DC K (cache\<lparr>Finalizers := RemoveFinalizer K (Finalizers cache) drainFinalizer\<rparr>)) w w'
    \<or> res = requeueAfter 2 \<and> isCrossNamespaceChild cache \<and> (\<exists>ns. v_ns (view w) (targetNamespace cache) = Some ns
        \<and> (DeletionTimestamp ns \<noteq> None \<or> issued K (Delete_NS K ns) w w'))"
proof -
  have fin: "ContainsFinalizer K (Finalizers cache) drainFinalizer"
    using run(4) by (simp add: deleting_def)
  obtain w0 where w0: "reconcileDeletion K cache w0 = (Inr res, w')" "view w0 = view w" "runs K w w0"
    using Reconcile_deletes [OF run(1)] run(4) by (auto simp: deleting_def)
  have "drained now (graceDuration cache) p" if "clockIn K w0 w' now" "p \<in> set (cellPods cache (view w0))" for now p
    using marked_drained marked wait clockIn_bounds [OF that(1)] runs_time [OF w0(3)] that(2) w0(2)
    by (metis order_trans)
  from reconcileDeletion_progress [OF w0(1) run(2) _ fin this] show ?thesis
    using run(3) w0(2) by (auto dest: issued_after [OF _ w0(3)])
qed

end

lemma sameTarget_cellPods: "sameTarget cache cache' \<Longrightarrow> cellPods cache' v = cellPods cache v"
  by (simp add: sameTarget_def cellPods_def targetNamespace_def isolated_def podLabels_def)

section \<open>An example\<close>

definition dyingCache :: DistributedCache where
  "dyingCache = (exampleCache 1)\<lparr>DeletionTimestamp := Some (time_Unix 90)\<rparr>"

definition dyingWorld :: memState where
  "dyingWorld = memUpdateView (\<lambda>v. v\<lparr>v_dc := (v_dc v)(exampleKey \<mapsto> dyingCache)\<rparr>)
     (exampleWorld 1 1 [cachePod ''c-0'' []] 100 [])"

lemma dyingCache_sel [simp]:
  "isolated dyingCache = False" "targetNamespace dyingCache = ''default''" "podLabels dyingCache = exampleLabels"
  "Finalizers dyingCache = [drainFinalizer]" "DeletionTimestamp dyingCache = Some (time_Unix 90)"
  "GracePeriodSeconds (Drain (Spec dyingCache)) = 30" "isCrossNamespaceChild dyingCache = False"
proof -
  show "isolated dyingCache = False"
    using exampleCache_sel(7) [of 1] by (simp add: isolated_def dyingCache_def)
  then show "targetNamespace dyingCache = ''default''" "isCrossNamespaceChild dyingCache = False"
    by (simp_all add: targetNamespace_def isCrossNamespaceChild_def dyingCache_def)
  show "podLabels dyingCache = exampleLabels"
    by (simp add: podLabels_def exampleLabels_def dyingCache_def)
qed (simp_all add: dyingCache_def)

lemma dyingWorld_sel [simp]:
  "v_dc (m_view dyingWorld) exampleKey = Some dyingCache" "v_pods (m_view dyingWorld) = [cachePod ''c-0'' []]"
  "m_clock dyingWorld = time_Unix 100" "m_faults dyingWorld = []" "cellPods dyingCache (m_view dyingWorld) = [cachePod ''c-0'' []]"
  by (simp_all add: dyingWorld_def memUpdateView_def exampleWorld_def cellPods_def podsIn_def)

lemma dyingWorld_calm: "calm dyingCache dyingWorld dyingWorld" "wfCluster (m_view dyingWorld)"
  "deleting memKube dyingCache exampleKey (m_view dyingWorld)"
  by (simp_all add: calm_def dyingWorld_def memUpdateView_def exampleWorld_def ownedBy_def exampleSet_def newMeta_def
      ObjectMeta.extend_def wfCluster_def asciiPods_def deleting_def memKube_sel)

section \<open>Properties\<close>

text \<open>
  C10: a deletion completes. Take a cluster that keeps the API server's contract and whose
  requests do not turn the clock back. If a pass over a resource that is being deleted succeeds,
  the pods that remain keep the marks they had after it, and the clock has moved on by the grace
  period, then the next pass that succeeds makes the last step: it ends with the accepted request
  that removes the finalizer, or, for a cell in its own namespace that still exists, with that
  namespace being deleted, and asks to be run again in two seconds. The marks found by the first
  pass must be readable and must not lie in the future.
\<close>

theorem deletion_completes:
  assumes "cluster_time K view" "member_sort (SortSlice K)"
    and "wfCluster (view w)" "deleting K cache req (view w)" "Reconcile K req w = (Inr res, w1)" "goTimes K w w1"
    and "\<forall>p \<in> set (cellPods cache (view w)). mapGet (Annotations p) drainAnnotation = None \<or>
      \<not> needsStamp p \<and> markedBy (timeAt K w1) p"
    and "wfCluster (view w2)" "deleting K cache' req (view w2)" "sameTarget cache cache'"
    and "\<forall>p \<in> set (cellPods cache (view w2)). \<exists>q \<in> set (cellPods cache (view w1)).
      mapGet (Annotations p) drainAnnotation = mapGet (Annotations q) drainAnnotation"
    and "timeAt K w1 + sint (GracePeriodSeconds (Drain (Spec cache))) * Second \<le> timeAt K w2"
    and "Reconcile K req w2 = (Inr res2, w3)"
  shows "res2 = noRequeue \<and>
      issued K (Update_DC K (cache'\<lparr>Finalizers := RemoveFinalizer K (Finalizers cache') drainFinalizer\<rparr>)) w2 w3
    \<or> res2 = requeueAfter 2 \<and> isCrossNamespaceChild cache' \<and> (\<exists>ns. v_ns (view w2) (targetNamespace cache') = Some ns
        \<and> (DeletionTimestamp ns \<noteq> None \<or> issued K (Delete_NS K ns) w2 w3))"
proof (rule cluster_time.Reconcile_releases [OF assms(1,13,2,8,9)])
  have "\<not> needsStamp p \<and> markedBy (timeAt K w1) p" if "p \<in> set (cellPods cache (view w1))" for p
    by (rule cluster_time.Reconcile_marks_all [OF assms(1,5,2,3,4,6,7) that])
  then show "\<forall>p \<in> set (cellPods cache' (view w2)). \<not> needsStamp p \<and> markedBy (timeAt K w1) p"
    using assms(11) marked_cong sameTarget_cellPods [OF assms(10)] by metis
  show "timeAt K w1 + sint (GracePeriodSeconds (Drain (Spec cache'))) * Second \<le> timeAt K w2"
    using assms(12) sameTarget_names(3) [OF assms(10)] by simp
qed

theorem deletion_completes_witness:
  "\<exists>res w1 w2 w3. Reconcile memKube exampleKey dyingWorld = (Inr res, w1) \<and> w2 = w1\<lparr>m_clock := time_Unix 130\<rparr>
     \<and> Reconcile memKube exampleKey w2 = (Inr noRequeue, w3)
     \<and> issued memKube (Update_DC memKube (dyingCache\<lparr>Finalizers := []\<rparr>)) w2 w3"
proof -
  obtain res w1 where 1: "Reconcile memKube exampleKey dyingWorld = (Inr res, w1)" "m_clock w1 = time_Unix 100"
    "calm dyingCache w1 w1"
    using calm_delete [OF dyingWorld_calm(1), of exampleKey] by auto
  have "v_dc (m_view w1) = v_dc (m_view dyingWorld)"
  proof -
    obtain w0 where "reconcileDeletion memKube dyingCache w0 = (Inr res, w1)" "m_view w0 = m_view dyingWorld"
      by (rule mem.Reconcile_deletes [OF 1(1)]) auto
    then have "deletionEffect memKube (clockIn memKube w0 w1) dyingCache (m_view dyingWorld) (m_view w1)"
      using mem.reconcileDeletion_view [of dyingCache w0 "Inr res" w1] mem_member_sort dyingWorld_calm(2)
      by (simp add: wfCluster_def)
    moreover have "\<not> drained now grace (cachePod ''c-0'' [])" for now grace
      by (simp add: drained_def)
    ultimately show ?thesis
      unfolding deletionEffect_def by auto
  qed
  then have dc: "v_dc (m_view w1) exampleKey = Some dyingCache"
    by simp
  let ?w2 = "w1\<lparr>m_clock := time_Unix 130\<rparr>"
  have "calm dyingCache ?w2 ?w2"
    using 1(3) by (simp add: calm_def)
  then obtain res2 w3 where 2: "Reconcile memKube exampleKey ?w2 = (Inr res2, w3)"
    using calm_delete [of dyingCache ?w2 exampleKey] dc by auto
  have wf: "wfCluster (m_view ?w2)"
    using mem.Reconcile_wf [OF 1(1) mem_member_sort dyingWorld_calm(2)] by simp
  have "deleting memKube dyingCache exampleKey (m_view ?w2)"
    using dc by (simp add: deleting_def memKube_sel)
  moreover have "goTimes memKube dyingWorld w1"
    by (auto simp: goTimes_def time_Unix_def Second_def dest!: mem_clockIn)
  moreover have "timeAt memKube w1 + 30 * Second \<le> timeAt memKube ?w2"
    by (simp add: mem_timeAt 1(2) instant_def time_Unix_def unixToInternal_def Second_def)
  ultimately have "res2 = noRequeue \<and> issued memKube (Update_DC memKube (dyingCache\<lparr>Finalizers := []\<rparr>)) ?w2 w3"
    using deletion_completes [OF mem_time.cluster_time_axioms mem_member_sort dyingWorld_calm(2,3) 1(1) _ _ wf _ _ _ _ 2,
        of dyingCache]
    by (auto simp: sameTarget_def memKube_sel(3))
  with 1(1) 2 show ?thesis by blast
qed

end
