(* ===== verification/Confinement.thy ===== *)
theory Confinement
  imports Operator
begin

text \<open>
  Tenant isolation on the control plane: a pass of \<open>Reconcile\<close> changes pods, StatefulSets, ring
  ConfigMaps, quotas, network policies and Services only in the namespace of its own cell.
\<close>

section \<open>What lies outside a namespace\<close>

definition outside :: "string \<Rightarrow> cluster \<Rightarrow> cluster \<Rightarrow> bool" where
  "outside ns v v' \<longleftrightarrow>
     (\<forall>k. nn_Namespace k \<noteq> ns \<longrightarrow> v_sts v' k = v_sts v k \<and> v_cm v' k = v_cm v k
        \<and> v_rq v' k = v_rq v k \<and> v_np v' k = v_np v k \<and> v_svc v' k = v_svc v k)
     \<and> filter (\<lambda>p. Namespace p \<noteq> ns) (v_pods v') = filter (\<lambda>p. Namespace p \<noteq> ns) (v_pods v)"

lemma outside_refl [simp]: "outside ns v v"
  by (simp add: outside_def)

lemma outside_trans: "outside ns u v \<Longrightarrow> outside ns v w \<Longrightarrow> outside ns u w"
  by (simp add: outside_def)

lemma outside_update [simp]:
  "outside ns v (v\<lparr>v_dc := f\<rparr>)" "outside ns v (v\<lparr>v_ns := g\<rparr>)"
  "nn_Namespace k = ns \<Longrightarrow> outside ns v (v\<lparr>v_sts := (v_sts v)(k \<mapsto> s)\<rparr>)"
  "nn_Namespace k = ns \<Longrightarrow> outside ns v (v\<lparr>v_cm := (v_cm v)(k \<mapsto> m)\<rparr>)"
  "nn_Namespace k = ns \<Longrightarrow> outside ns v (v\<lparr>v_rq := (v_rq v)(k \<mapsto> q)\<rparr>)"
  "nn_Namespace k = ns \<Longrightarrow> outside ns v (v\<lparr>v_np := (v_np v)(k \<mapsto> p)\<rparr>)"
  "nn_Namespace k = ns \<Longrightarrow> outside ns v (v\<lparr>v_svc := (v_svc v)(k \<mapsto> c)\<rparr>)"
  by (auto simp: outside_def)

lemma outside_stampAll:
  assumes "S \<subseteq> set (cellPods cache v)"
  shows "outside (targetNamespace cache) v (stampAll now S v)"
proof -
  have "Namespace (stamp now p) = Namespace p" for p
    by (simp add: stamp_def)
  moreover have "p \<in> S \<Longrightarrow> Namespace p = targetNamespace cache" for p
    using assms by (auto simp: cellPods_def podsIn_def)
  ultimately have "filter (\<lambda>p. Namespace p \<noteq> targetNamespace cache) (map (\<lambda>q. if q \<in> S then stamp now q else q) ps) =
      filter (\<lambda>p. Namespace p \<noteq> targetNamespace cache) ps" for ps
    by (induction ps) auto
  then show ?thesis
    by (simp add: outside_def stampAll_def)
qed

lemma cell_keys [simp]:
  "nn_Namespace (cacheKey cache) = targetNamespace cache" "nn_Namespace (ringKey cache) = targetNamespace cache"
  "nn_Namespace (cellKey cache name) = targetNamespace cache"
  by (simp_all add: cacheKey_def ringKey_def cellKey_def)

section \<open>The stages\<close>

context cluster_api
begin

lemma reconcileCell_outside:
  assumes "reconcileCell K cache w = (r, w')"
  shows "outside (targetNamespace cache) (view w) (view w')"
proof -
  have 1: "outside (targetNamespace cache) (view u) (view u')" if "reconcileCellNamespace K cache u = (r, u')" for u r u'
    using reconcileCellNamespace_view [OF that] by auto
  have 2: "outside (targetNamespace cache) (view u) (view u')" if "reconcileResourceQuota K cache u = (r, u')" for u r u'
    using reconcileResourceQuota_view [OF that] by auto
  have 3: "outside (targetNamespace cache) (view u) (view u')" if "reconcileNetworkPolicy K cache u = (r, u')" for u r u'
    using reconcileNetworkPolicy_view [OF that] by auto
  show ?thesis
    using assms by (auto simp: reconcileCell_def split: prod.splits option.splits if_splits
        dest!: 1 2 3 intro: outside_trans)
qed

lemma reconcileService_outside:
  "reconcileService K cache w = (r, w') \<Longrightarrow> outside (targetNamespace cache) (view w) (view w')"
  by (auto dest!: reconcileService_view)

lemma failStage_outside: "failStage K cache reason what err w = (r, w') \<Longrightarrow> outside ns (view w) (view w')"
  using status_dc by (fastforce simp: failStage_def markDegraded_def dest!: setCondition_view split: prod.splits)

lemma finishReconcile_outside: "finishReconcile K cache complete ring w = (r, w') \<Longrightarrow> outside ns (view w) (view w')"
  using status_dc by (fastforce simp: finishReconcile_def dest!: setObservedConditions_view split: prod.splits sum.splits if_splits)

lemma reconcileStatefulSet_outside:
  "reconcileStatefulSet K cache can w = (r, w') \<Longrightarrow> outside (targetNamespace cache) (view w) (view w')"
  by (auto dest!: reconcileStatefulSet_view)

lemma reconcileRing_outside:
  assumes "reconcileRing K cache w = (r, w')" "member_sort (SortSlice K)" "asciiPods (view w)"
  shows "outside (targetNamespace cache) (view w) (view w')"
  using reconcileRing_view [OF assms] by auto

lemma drainScaleDown_outside:
  assumes "drainScaleDown K cache w = (r, w')" "distinct (map keyOf (v_pods (view w)))"
  shows "outside (targetNamespace cache) (view w) (view w') \<and> asciiPods (view w') = asciiPods (view w)"
proof -
  obtain now S where "view w' = stampAll now S (view w)" "S \<subseteq> {q \<in> doomedIn cache (view w). needsStamp q}"
    using drainScaleDown_view [OF assms] by blast
  moreover have "doomedIn cache (view w) \<subseteq> set (cellPods cache (view w))"
    by (auto simp: doomedIn_def split: option.splits)
  ultimately show ?thesis
    using outside_stampAll [of S cache "view w" now] by auto
qed

lemma reconcileStages_outside:
  assumes run: "reconcileStages K cache w = (r, w')" and srt: "member_sort (SortSlice K)" and wf: "wfCluster (view w)"
  shows "outside (targetNamespace cache) (view w) (view w')"
proof -
  let ?out = "outside (targetNamespace cache)"
  obtain d w1 where d: "drainScaleDown K cache w = (d, w1)"
    by (cases "drainScaleDown K cache w")
  have o1: "?out (view w) (view w1)" and ascii: "asciiPods (view w1)"
    using drainScaleDown_outside [OF d] wf by (auto simp: wfCluster_def)
  show ?thesis
  proof (cases d)
    case (Inl e)
    then show ?thesis
      using run d o1 failStage_outside outside_trans by (fastforce simp: reconcileStages_def)
  next
    case (Inr complete)
    obtain u w2 where u: "reconcileStatefulSet K cache complete w1 = (u, w2)"
      by (cases "reconcileStatefulSet K cache complete w1")
    have o2: "?out (view w) (view w2)"
      using outside_trans [OF o1 reconcileStatefulSet_outside [OF u]] .
    have "v_pods (view w2) = v_pods (view w1)"
      using reconcileStatefulSet_view [OF u] by auto
    then have ascii2: "asciiPods (view w2)"
      using ascii asciiPods_cong by blast
    obtain q w3 where q: "reconcileRing K cache w2 = (q, w3)"
      by (cases "reconcileRing K cache w2")
    have o3: "?out (view w) (view w3)"
      using outside_trans [OF o2 reconcileRing_outside [OF q srt ascii2]] .
    have "?out (view w2) (view w') \<or> ?out (view w3) (view w')"
      using run d Inr u q failStage_outside finishReconcile_outside
      by (auto simp: reconcileStages_def split: option.splits sum.splits)
    then show ?thesis
      using o2 o3 outside_trans by blast
  qed
qed

lemma deletionTail_outside:
  assumes "(if isCrossNamespaceChild cache
        then case deleteCellNamespace K cache w of
               (Inl e, w) \<Rightarrow> (Inl (Wrapped ''delete cell namespace'' e), w)
             | (Inr gone, w) \<Rightarrow> if \<not> gone then (Inr (requeueAfter 2), w) else releaseFinalizer K cache w
        else releaseFinalizer K cache w) = (r, w')"
  shows "outside ns (view w) (view w')"
proof -
  have release: "outside ns (view u) (view w')" if "releaseFinalizer K cache u = (r, w')" for u
    using releaseFinalizer_view [OF that] by auto
  obtain d w1 where d: "deleteCellNamespace K cache w = (d, w1)"
    by (cases "deleteCellNamespace K cache w")
  have "outside ns (view w) (view w1)"
    using deleteCellNamespace_view [OF d] by auto
  then show ?thesis
    using assms d release outside_trans by (cases d) (auto split: if_splits)
qed

lemma reconcileDeletion_outside:
  assumes run: "reconcileDeletion K cache w = (r, w')" and srt: "member_sort (SortSlice K)" and wf: "wfCluster (view w)"
  shows "outside (targetNamespace cache) (view w) (view w')"
proof (cases "ContainsFinalizer K (Finalizers cache) drainFinalizer")
  case False
  then show ?thesis
    using run by (simp add: reconcileDeletion_def)
next
  case True
  let ?out = "outside (targetNamespace cache)"
  have keys: "distinct (map keyOf (v_pods (view w)))" and ascii: "asciiPods (view w)"
    using wf by (simp_all add: wfCluster_def)
  have drain: "?out (view w) (view w3) \<and> asciiPods (view w3)"
    if "List_Pods K (targetNamespace cache) (podLabels cache) w = (Inr pods, w1)" "Now K w1 = (now, w2)"
      "deletionLoop K (graceDuration cache) now pods True w2 = (b, w3)" for pods w1 now w2 b w3
  proof -
    note v = deletion_drain_view [OF that keys]
    obtain S where "S \<subseteq> {q \<in> set (cellPods cache (view w)). mapGet (Annotations q) drainAnnotation = None}"
      "view w3 = stampAll now S (view w)"
      using v by blast
    then show ?thesis
      using outside_stampAll [of S cache "view w" now] ascii by auto
  qed
  show ?thesis
    using run True
  proof (cases rule: reconcileDeletion_elim)
    case (no_list e)
    then show ?thesis
      using list_pods_err by fastforce
  next
    case (no_stamp pods w1 now w2 e)
    then show ?thesis
      using drain by blast
  next
    case (waiting pods w1 now w2 w3 q)
    then show ?thesis
      using drain [OF waiting(1-3)] reconcileRing_outside [OF waiting(4) srt] outside_trans by blast
  next
    case (drained pods w1 now w2 w3 q w4)
    have "?out (view w4) (view w')"
      by (rule deletionTail_outside [OF drained(5)])
    then show ?thesis
      using drain [OF drained(1-3)] reconcileRing_outside [OF drained(4) srt] outside_trans by blast
  qed
qed

end

context cluster_api
begin

lemma Reconcile_outside:
  assumes run: "Reconcile K req w = (r, w')" and srt: "member_sort (SortSlice K)" and wf: "wfCluster (view w)"
    and dc: "v_dc (view w) req = Some cache"
  shows "outside (targetNamespace cache) (view w) (view w')"
proof -
  let ?out = "outside (targetNamespace cache)"
  obtain g w1 where g: "Get_DC K req w = (g, w1)" by (cases "Get_DC K req w")
  show ?thesis
  proof (cases g)
    case (Inl e)
    then have "view w1 = view w" "w' = w1"
      using run g get_dc_err by (auto simp: Reconcile_def split: if_splits)
    then show ?thesis by simp
  next
    case (Inr c)
    then have v1: "view w1 = view w" and c: "Get_DC K req w = (Inr cache, w1)"
      using get_dc [of req w c w1] g dc by auto
    obtain d w2 s w3 t w4 where d: "reconcileCell K cache w1 = (d, w2)" and s: "reconcileService K cache w2 = (s, w3)"
      and t: "reconcileService K cache w3 = (t, w4)"
      by (metis surj_pair)
    note o2 = reconcileCell_outside [OF d, unfolded v1]
    note o3 = outside_trans [OF o2 reconcileService_outside [OF s]]
    note o4 = outside_trans [OF o3 reconcileService_outside [OF t]]
    have "sameWork (view w) (view w3)" "sameWork (view w) (view w4)"
      using reconcileCell_view [OF d] reconcileService_work [OF s] reconcileService_work [OF t] v1
      by (simp_all add: sameWork_def)
    then have wfs: "wfCluster (view w3)" "wfCluster (view w4)"
      using wf by (simp_all add: wfCluster_def sameWork_def asciiPods_def)
    have stages: "?out (view w) (view w')" if "reconcileStages K cache u = (r, w')" "u = w3 \<or> u = w4" for u
      using reconcileStages_outside [OF that(1) srt] that(2) wfs o3 o4 outside_trans by blast
    have fail: "?out (view w) (view w')" if "failStage K cache reason what e u = (r, w')" "u = w2 \<or> u = w4" for reason what e u
      using failStage_outside [OF that(1), of "targetNamespace cache"] that(2) o2 o4 outside_trans by blast
    have update: "?out (view w) (view u')" if "Update_DC K x w1 = (q, u')" for x q u'
      using update_dc [OF that] v1 by auto
    have deletion: "?out (view w) (view w')" if "reconcileDeletion K cache w1 = (r, w')"
      using reconcileDeletion_outside [OF that srt] wf v1 by simp
    show ?thesis
      using run c d s t
      by (auto simp: Reconcile_def split: if_splits prod.splits sum.splits option.splits
          intro: deletion stages fail dest: update)
  qed
qed

end

section \<open>Properties\<close>

text \<open>
  C15: a pass stays in its cell. On a cluster that keeps the API server's contract, a pass of
  \<open>Reconcile\<close> over a resource, live or being deleted, whichever requests fail, changes no pod,
  StatefulSet, ConfigMap, quota, network policy or Service outside the namespace of its cell. The
  cells of two isolated resources are the same namespace exactly when the resources have the
  same name: those of resources with different names are disjoint, but two of the same name in
  different namespaces share one.
\<close>

theorem passes_stay_in_their_cell:
  assumes "cluster_api K view" "member_sort (SortSlice K)" "wfCluster (view w)"
    and "Reconcile K req w = (r, w')" "v_dc (view w) req = Some cache"
  shows "outside (targetNamespace cache) (view w) (view w')
    \<and> (isolated cache \<longrightarrow> isolated other \<longrightarrow> (targetNamespace other = targetNamespace cache \<longleftrightarrow> Name other = Name cache))"
  using cluster_api.Reconcile_outside [OF assms(1,4,2,3,5)] by (auto simp: targetNamespace_def)

theorem passes_stay_in_their_cell_witness:
  "let w = exampleWorld 1 2 [cachePod ''c-1'' []] 130 []; w' = snd (Reconcile memKube exampleKey w)
   in outside ''default'' (m_view w) (m_view w')"
proof -
  let ?w = "exampleWorld 1 2 [cachePod ''c-1'' []] 130 []"
  have "wfCluster (m_view ?w)"
    by (simp add: example_wf keyOf_def)
  from passes_stay_in_their_cell [OF mem.cluster_api_axioms mem_member_sort this prod.collapse [symmetric] example_stored(1)]
  show ?thesis
    by (simp add: Let_def)
qed

end
