(* ===== verification/Sha1.thy ===== *)
theory Sha1
  imports Prelude
begin

text \<open>
  \<open>crypto/sha1.Sum\<close>, which \<open>cacheclient.hashString\<close> truncates: padding, the message schedule and
  the compression function over 32-bit words, and the digest as twenty bytes.
\<close>

unbundle bit_operations_syntax

type_synonym sha_state = "uint32 \<times> uint32 \<times> uint32 \<times> uint32 \<times> uint32"

definition be64 :: "64 word \<Rightarrow> byte list" where
  "be64 w = map (\<lambda>k. ucast (drop_bit k w)) [56, 48, 40, 32, 24, 16, 8, 0]"

definition shaPad :: "byte list \<Rightarrow> byte list" where
  "shaPad m = m @ [0x80] @ replicate ((119 - length m mod 64) mod 64) 0 @ be64 (8 * word_of_nat (length m))"

definition rotl32 :: "nat \<Rightarrow> uint32 \<Rightarrow> uint32" where
  "rotl32 k w = push_bit k w OR drop_bit (32 - k) w"

fun beWords :: "byte list \<Rightarrow> uint32 list" where
  "beWords (a # b # c # d # bs) =
     (push_bit 24 (ucast a) OR push_bit 16 (ucast b) OR push_bit 8 (ucast c) OR ucast d) # beWords bs"
| "beWords _ = []"

text \<open>The schedule, newest word first.\<close>

fun shaExtend :: "nat \<Rightarrow> uint32 list \<Rightarrow> uint32 list" where
  "shaExtend 0 ws = ws"
| "shaExtend (Suc k) ws =
     shaExtend k (rotl32 1 (ws ! 2 XOR ws ! 7 XOR ws ! 13 XOR ws ! 15) # ws)"

definition shaF :: "nat \<Rightarrow> uint32 \<Rightarrow> uint32 \<Rightarrow> uint32 \<Rightarrow> uint32" where
  "shaF t b c d =
     (if t < 20 then (b AND c) OR (NOT b AND d)
      else if t < 40 then b XOR c XOR d
      else if t < 60 then (b AND c) OR (b AND d) OR (c AND d)
      else b XOR c XOR d)"

definition shaK :: "nat \<Rightarrow> uint32" where
  "shaK t = (if t < 20 then 0x5A827999 else if t < 40 then 0x6ED9EBA1
     else if t < 60 then 0x8F1BBCDC else 0xCA62C1D6)"

fun shaRounds :: "nat \<Rightarrow> uint32 list \<Rightarrow> sha_state \<Rightarrow> sha_state" where
  "shaRounds t [] st = st"
| "shaRounds t (w # ws) (a, b, c, d, e) =
     shaRounds (Suc t) ws
       (rotl32 5 a + shaF t b c d + e + w + shaK t, a, rotl32 30 b, c, d)"

definition shaBlock :: "sha_state \<Rightarrow> uint32 list \<Rightarrow> sha_state" where
  "shaBlock st ws =
     (case st of (a, b, c, d, e) \<Rightarrow>
        (case shaRounds 0 (rev (shaExtend 64 (rev ws))) st of
           (a', b', c', d', e') \<Rightarrow> (a + a', b + b', c + c', d + d', e + e')))"

fun shaBlocks :: "nat \<Rightarrow> sha_state \<Rightarrow> uint32 list \<Rightarrow> sha_state" where
  "shaBlocks 0 st ws = st"
| "shaBlocks (Suc k) st ws = shaBlocks k (shaBlock st (take 16 ws)) (drop 16 ws)"

definition word32Bytes :: "uint32 \<Rightarrow> byte list" where
  "word32Bytes w = [ucast (drop_bit 24 w), ucast (drop_bit 16 w), ucast (drop_bit 8 w), ucast w]"

definition sha1_Sum :: "string \<Rightarrow> byte list" where
  "sha1_Sum s =
     (let ws = beWords (shaPad (map of_char s))
      in case shaBlocks (length ws div 16) (0x67452301, 0xEFCDAB89, 0x98BADCFE, 0x10325476, 0xC3D2E1F0) ws of
           (a, b, c, d, e) \<Rightarrow>
             word32Bytes a @ word32Bytes b @ word32Bytes c @ word32Bytes d @ word32Bytes e)"

lemma length_sha1_Sum: "length (sha1_Sum s) = 20"
  by (simp add: sha1_Sum_def word32Bytes_def Let_def split: prod.splits)

end
