(* ===== verification/Client.thy ===== *)
theory Client
  imports Go_Json Sha1
begin

text \<open>
  \<open>internal/cacheclient/client.go\<close>: the reference client. \<open>buildRing\<close> turns a published ring into
  sorted virtual-node hashes, \<open>Lookup\<close> finds the owner of a key by binary search, \<open>pollOnce\<close>
  refreshes the ring from the ConfigMap and \<open>Run\<close> polls until it is cancelled.

  \<open>hash\<close> is the argument for \<open>hashString\<close>, so that the lemmas hold for every hash function; the
  code's own is \<open>hashString\<close> below. \<open>srt\<close> is \<open>sort.Slice\<close>. A ConfigMap read is the argument \<open>get\<close>.

  The abstract specification of routing is \<open>owns\<close>: the owner of a key is the member with the
  virtual node at the least clockwise distance from the key's hash. \<open>Lookup\<close> implements it, and
  from it follow that a lookup does not depend on the order of the members, and that a change
  of membership moves only the keys it must.
\<close>

section \<open>The client\<close>

definition vnodeCount :: nat where
  "vnodeCount = 128"

record hashRing =
  hr_version :: int64
  hr_hashes :: "uint32 list"
  hr_positions :: "string list"

text \<open>The fields of \<open>Client\<close>; \<open>cl_ring\<close> is the atomic pointer, \<open>None\<close> while it is nil.\<close>

record Client =
  cl_ringConfigMap :: NamespacedName
  cl_pollInterval :: Duration
  cl_ring :: "hashRing option"
  cl_serviceFQDN :: string

record ClientConfig =
  cf_RingConfigMap :: NamespacedName
  cf_ServiceFQDN :: string
  cf_PollInterval :: Duration

definition New :: "ClientConfig \<Rightarrow> Client" where
  "New cfg =
     \<lparr>cl_ringConfigMap = cf_RingConfigMap cfg,
      cl_pollInterval = (if cf_PollInterval cfg = 0 then 10 * word_of_int Second else cf_PollInterval cfg),
      cl_ring = None,
      cl_serviceFQDN = cf_ServiceFQDN cfg\<rparr>"

definition bigEndianUint32 :: "byte list \<Rightarrow> uint32" where
  "bigEndianUint32 bs = (case beWords (take 4 bs) of w # _ \<Rightarrow> w | [] \<Rightarrow> 0)"

definition hashString :: "string \<Rightarrow> uint32" where
  "hashString s = bigEndianUint32 (sha1_Sum s)"

type_synonym hashfun = "string \<Rightarrow> uint32"
type_synonym sort_index = "(nat \<Rightarrow> nat \<Rightarrow> bool) \<Rightarrow> nat list \<Rightarrow> nat list"

text \<open>\<open>fmt.Sprintf("%s#%d", member, i)\<close>.\<close>

definition vnodeKey :: "string \<Rightarrow> nat \<Rightarrow> string" where
  "vnodeKey member i = member @ ''#'' @ fmtNat i"

definition buildRing :: "hashfun \<Rightarrow> sort_index \<Rightarrow> Ring \<Rightarrow> hashRing" where
  "buildRing hash srt r =
     (let hashes = concat (map (\<lambda>member. map (\<lambda>i. hash (vnodeKey member i)) [0..<vnodeCount]) (Members r));
          positions = concat (map (\<lambda>member. map (\<lambda>i. member) [0..<vnodeCount]) (Members r));
          idx = srt (\<lambda>a b. hashes ! a < hashes ! b) [0..<length hashes]
      in \<lparr>hr_version = Version r,
          hr_hashes = map (\<lambda>j. hashes ! j) idx,
          hr_positions = map (\<lambda>j. positions ! j) idx\<rparr>)"

definition clientRingKey :: string where
  "clientRingKey = ''ring.json''"

definition pollOnce ::
  "hashfun \<Rightarrow> sort_index \<Rightarrow> (NamespacedName \<Rightarrow> goerr + ConfigMap) \<Rightarrow> Client \<Rightarrow> goerr option \<times> Client" where
  "pollOnce hash srt get c =
     (case get (cl_ringConfigMap c) of
        Inl e \<Rightarrow> (Some (Wrapped ''get ring ConfigMap'' e), c)
      | Inr cm \<Rightarrow>
          (case mapGet (Data cm) clientRingKey of
             None \<Rightarrow> (Some (OtherErr ''ring ConfigMap missing ring.json''), c)
           | Some raw \<Rightarrow>
               (case unmarshalRing raw of
                  Inl e \<Rightarrow> (Some (Wrapped ''unmarshal ring'' e), c)
                | Inr r \<Rightarrow>
                    (case cl_ring c of
                       Some cur \<Rightarrow>
                         if hr_version cur = Version r then (None, c)
                         else (None, c\<lparr>cl_ring := Some (buildRing hash srt r)\<rparr>)
                     | None \<Rightarrow> (None, c\<lparr>cl_ring := Some (buildRing hash srt r)\<rparr>)))))"

text \<open>
  \<open>Run\<close>: one synchronous poll, then one per tick until the context is cancelled. The first argument
  and the list are the API server's answers, one per poll; the errors of the polls are dropped and
  \<open>Run\<close> returns nil. \<open>None\<close> is the panic of \<open>time.NewTicker\<close> on an interval that is not positive.
\<close>

fun runTicks ::
  "hashfun \<Rightarrow> sort_index \<Rightarrow> (NamespacedName \<Rightarrow> goerr + ConfigMap) list \<Rightarrow> Client \<Rightarrow> Client" where
  "runTicks hash srt [] c = c"
| "runTicks hash srt (g # gs) c = runTicks hash srt gs (snd (pollOnce hash srt g c))"

definition Run ::
  "hashfun \<Rightarrow> sort_index \<Rightarrow> (NamespacedName \<Rightarrow> goerr + ConfigMap) \<Rightarrow>
   (NamespacedName \<Rightarrow> goerr + ConfigMap) list \<Rightarrow> Client \<Rightarrow> (goerr option \<times> Client) option" where
  "Run hash srt first ticks c =
     (let c = snd (pollOnce hash srt first c)
      in if sint (cl_pollInterval c) \<le> 0 then None else Some (None, runTicks hash srt ticks c))"

definition ErrRingEmpty :: goerr where
  "ErrRingEmpty = OtherErr ''ring is empty''"

definition Lookup :: "hashfun \<Rightarrow> Client \<Rightarrow> string \<Rightarrow> goerr + string" where
  "Lookup hash c key =
     (case cl_ring c of
        None \<Rightarrow> Inl ErrRingEmpty
      | Some r \<Rightarrow>
          if length (hr_hashes r) = 0 then Inl ErrRingEmpty
          else
            (let h = hash key;
                 i = Search (length (hr_hashes r)) (\<lambda>i. h \<le> hr_hashes r ! i);
                 i' = (if i = length (hr_hashes r) then 0 else i);
                 pod = hr_positions r ! i'
             in Inr (pod @ ''.'' @ cl_serviceFQDN c)))"

definition RingVersion :: "Client \<Rightarrow> int64" where
  "RingVersion c = (case cl_ring c of None \<Rightarrow> 0 | Some r \<Rightarrow> hr_version r)"

section \<open>Clockwise distance\<close>

text \<open>The distance from \<open>h\<close> to \<open>x\<close> going up the circle of 32-bit values: word subtraction.\<close>

definition clockwise :: "uint32 \<Rightarrow> uint32 \<Rightarrow> uint32" where
  "clockwise h x = x - h"

lemma clockwise_above: "h \<le> x \<Longrightarrow> x \<le> y \<Longrightarrow> clockwise h x \<le> clockwise h y"
  unfolding clockwise_def by (simp add: word_le_nat_alt unat_sub_if')

lemma clockwise_wrap: "h \<le> x \<Longrightarrow> y < h \<Longrightarrow> clockwise h x \<le> clockwise h y"
proof -
  assume "h \<le> x" "y < h"
  moreover have "unat x < 2 ^ 32"
    by (rule order_less_le_trans [OF unsigned_less]) simp
  ultimately show ?thesis
    unfolding clockwise_def by (simp add: word_le_nat_alt word_less_nat_alt unat_sub_if')
qed

lemma clockwise_below: "x \<le> y \<Longrightarrow> y < h \<Longrightarrow> clockwise h x \<le> clockwise h y"
  unfolding clockwise_def by (simp add: word_le_nat_alt word_less_nat_alt unat_sub_if')

lemma clockwise_inject: "clockwise h x = clockwise h y \<longleftrightarrow> x = y"
  by (simp add: clockwise_def)

section \<open>The built ring\<close>

text \<open>The virtual nodes of a member list, each with its owner, in the order the code appends them.\<close>

definition vnodes :: "hashfun \<Rightarrow> string list \<Rightarrow> (uint32 \<times> string) list" where
  "vnodes hash ms = concat (map (\<lambda>m. map (\<lambda>i. (hash (vnodeKey m i), m)) [0..<vnodeCount]) ms)"

lemma vnodes_fst: "map fst (vnodes hash ms)
    = concat (map (\<lambda>m. map (\<lambda>i. hash (vnodeKey m i)) [0..<vnodeCount]) ms)"
  by (simp add: vnodes_def map_concat comp_def)

lemma vnodes_snd: "map snd (vnodes hash ms) = concat (map (\<lambda>m. map (\<lambda>i. m) [0..<vnodeCount]) ms)"
  by (simp add: vnodes_def map_concat comp_def)

lemma set_vnodes: "set (vnodes hash ms) = {(hash (vnodeKey m i), m) | m i. m \<in> set ms \<and> i < vnodeCount}"
  by (auto simp: vnodes_def)

lemma length_vnodes: "length (vnodes hash ms) = length ms * vnodeCount"
  by (induction ms) (simp_all add: vnodes_def)

text \<open>The specification of routing, over the set of members.\<close>

definition owns :: "hashfun \<Rightarrow> string set \<Rightarrow> string \<Rightarrow> string \<Rightarrow> bool" where
  "owns hash ms key m \<longleftrightarrow> m \<in> ms \<and> (\<exists>i < vnodeCount. \<forall>m' \<in> ms. \<forall>j < vnodeCount.
     clockwise (hash key) (hash (vnodeKey m i)) \<le> clockwise (hash key) (hash (vnodeKey m' j)))"

text \<open>No two virtual nodes of the members share a position.\<close>

definition noCollisions :: "hashfun \<Rightarrow> string set \<Rightarrow> bool" where
  "noCollisions hash ms \<longleftrightarrow> inj_on (\<lambda>(m, i). hash (vnodeKey m i)) (ms \<times> {..<vnodeCount})"

lemma owns_unique:
  assumes "noCollisions hash ms" "owns hash ms key m" "owns hash ms key m'"
  shows "m = m'"
proof -
  from assms(2,3) obtain i j where ij: "i < vnodeCount" "j < vnodeCount" "m \<in> ms" "m' \<in> ms"
    and "clockwise (hash key) (hash (vnodeKey m i)) = clockwise (hash key) (hash (vnodeKey m' j))"
    unfolding owns_def by (metis order_antisym)
  then have "hash (vnodeKey m i) = hash (vnodeKey m' j)"
    by (simp add: clockwise_inject)
  then show ?thesis
    using inj_onD [OF assms(1) [unfolded noCollisions_def], of "(m, i)" "(m', j)"] ij by simp
qed

lemma owns_subset: "owns hash ms key m \<Longrightarrow> ms' \<subseteq> ms \<Longrightarrow> m \<in> ms' \<Longrightarrow> owns hash ms' key m"
  unfolding owns_def by blast

text \<open>The index \<open>Lookup\<close> computes over a sorted array is at the least clockwise distance.\<close>

lemma search_nearest:
  fixes H :: "uint32 list" and h :: uint32
  assumes "sorted H" "H \<noteq> []"
  defines "i \<equiv> Search (length H) (\<lambda>i. h \<le> H ! i)"
  defines "k \<equiv> if i = length H then 0 else i"
  shows "k < length H \<and> (\<forall>j < length H. clockwise h (H ! k) \<le> clockwise h (H ! j))"
proof -
  have mono: "h \<le> H ! b" if "a \<le> b" "b < length H" "h \<le> H ! a" for a b
    using sorted_nth_mono [OF assms(1) that(1,2)] that(3) by (rule order_trans [rotated])
  have le: "i \<le> length H"
    unfolding i_def by (rule Search_le) (rule mono)
  have below: "\<not> h \<le> H ! j" if "j < i" for j
    by (rule Search_below [OF _ that [unfolded i_def]]) (rule mono)
  have above: "h \<le> H ! j" if "i \<le> j" "j < length H" for j
    by (rule Search_above [OF _ that [unfolded i_def]]) (rule mono)
  show ?thesis
  proof (cases "i = length H")
    case True
    have "H ! j < h" if "j < length H" for j
      using below [of j] that True by simp
    then show ?thesis
      using True assms(1,2) by (auto simp: k_def intro!: clockwise_below sorted_nth_mono)
  next
    case False
    then have i: "i < length H"
      using le by simp
    have hi: "h \<le> H ! i"
      using above [of i] i by simp
    have "clockwise h (H ! i) \<le> clockwise h (H ! j)" if j: "j < length H" for j
    proof (cases "j < i")
      case True
      then have "H ! j < h"
        using below [of j] by simp
      then show ?thesis
        by (rule clockwise_wrap [OF hi])
    next
      case False
      then show ?thesis
        using hi j by (intro clockwise_above) (simp_all add: sorted_nth_mono [OF assms(1)])
    qed
    then show ?thesis
      using False i by (simp add: k_def)
  qed
qed

locale index_sort = sort_slice srt for srt :: sort_index
begin

text \<open>The parallel arrays of the built ring are the virtual nodes, reordered together.\<close>

lemma buildRing_zip:
  "mset (zip (hr_hashes (buildRing hash srt r)) (hr_positions (buildRing hash srt r)))
    = mset (vnodes hash (Members r))"
proof -
  let ?v = "vnodes hash (Members r)"
  let ?idx = "srt (\<lambda>a b. map fst ?v ! a < map fst ?v ! b) [0..<length ?v]"
  have idx: "j < length ?v" if "j \<in> set ?idx" for j
    using that by simp
  have "zip (map (\<lambda>j. map fst ?v ! j) ?idx) (map (\<lambda>j. map snd ?v ! j) ?idx) = map (\<lambda>j. ?v ! j) ?idx"
    using idx by (simp add: zip_map_map zip_same_conv_map comp_def cong: map_cong)
  moreover have "mset (map (\<lambda>j. ?v ! j) ?idx) = mset (map (\<lambda>j. ?v ! j) [0..<length ?v])"
    by (simp add: mset_srt)
  ultimately show ?thesis
    by (simp add: buildRing_def Let_def map_nth flip: vnodes_fst [of hash] vnodes_snd [of hash])
qed

lemma buildRing_lengths:
  "length (hr_hashes (buildRing hash srt r)) = length (Members r) * vnodeCount"
  "length (hr_positions (buildRing hash srt r)) = length (Members r) * vnodeCount"
  by (simp_all add: buildRing_def Let_def length_vnodes flip: vnodes_fst)

lemma buildRing_sorted: "sorted (hr_hashes (buildRing hash srt r))"
  by (simp add: buildRing_def Let_def sorted_key_srt)

lemma buildRing_point:
  assumes "j < length (hr_hashes (buildRing hash srt r))"
  shows "\<exists>i < vnodeCount. hr_positions (buildRing hash srt r) ! j \<in> set (Members r)
    \<and> hr_hashes (buildRing hash srt r) ! j = hash (vnodeKey (hr_positions (buildRing hash srt r) ! j) i)"
proof -
  let ?R = "buildRing hash srt r"
  have "(hr_hashes ?R ! j, hr_positions ?R ! j) \<in> set (zip (hr_hashes ?R) (hr_positions ?R))"
    using assms by (auto simp: in_set_zip buildRing_lengths)
  then have "(hr_hashes ?R ! j, hr_positions ?R ! j) \<in> set (vnodes hash (Members r))"
    using mset_eq_setD [OF buildRing_zip] by metis
  then show ?thesis
    by (auto simp: set_vnodes)
qed

lemma buildRing_covers:
  assumes "m \<in> set (Members r)" "i < vnodeCount"
  shows "\<exists>j < length (hr_hashes (buildRing hash srt r)).
    hr_hashes (buildRing hash srt r) ! j = hash (vnodeKey m i)"
proof -
  let ?R = "buildRing hash srt r"
  have "(hash (vnodeKey m i), m) \<in> set (vnodes hash (Members r))"
    using assms by (auto simp: set_vnodes)
  then have "(hash (vnodeKey m i), m) \<in> set (zip (hr_hashes ?R) (hr_positions ?R))"
    using mset_eq_setD [OF buildRing_zip] by metis
  then show ?thesis
    by (auto simp: in_set_zip)
qed

lemma Lookup_owns:
  assumes "cl_ring c = Some (buildRing hash srt r)" "Members r \<noteq> []"
  shows "\<exists>m. Lookup hash c key = Inr (m @ ''.'' @ cl_serviceFQDN c) \<and> owns hash (set (Members r)) key m"
proof -
  let ?R = "buildRing hash srt r"
  let ?i = "Search (length (hr_hashes ?R)) (\<lambda>i. hash key \<le> hr_hashes ?R ! i)"
  let ?k = "if ?i = length (hr_hashes ?R) then 0 else ?i"
  let ?m = "hr_positions ?R ! ?k"
  have "0 < length (hr_hashes ?R)"
    unfolding buildRing_lengths using assms(2) by (simp add: vnodeCount_def)
  then have ne: "hr_hashes ?R \<noteq> []"
    by simp
  have k: "?k < length (hr_hashes ?R)"
    and near: "\<forall>j < length (hr_hashes ?R).
      clockwise (hash key) (hr_hashes ?R ! ?k) \<le> clockwise (hash key) (hr_hashes ?R ! j)"
    using search_nearest [OF buildRing_sorted ne, of "hash key"] by blast+
  obtain i where i: "i < vnodeCount" "?m \<in> set (Members r)" "hr_hashes ?R ! ?k = hash (vnodeKey ?m i)"
    using buildRing_point [OF k] by blast
  have "owns hash (set (Members r)) key ?m"
    unfolding owns_def
  proof (intro conjI exI ballI allI impI)
    fix m' j assume "m' \<in> set (Members r)" "j < vnodeCount"
    then obtain j' where "j' < length (hr_hashes ?R)" "hr_hashes ?R ! j' = hash (vnodeKey m' j)"
      using buildRing_covers by blast
    then show "clockwise (hash key) (hash (vnodeKey ?m i)) \<le> clockwise (hash key) (hash (vnodeKey m' j))"
      using near i(3) by metis
  qed (use i in auto)
  moreover have "Lookup hash c key = Inr (?m @ ''.'' @ cl_serviceFQDN c)"
    using assms(1) ne by (simp add: Lookup_def Let_def)
  ultimately show ?thesis by blast
qed

lemma Lookup_empty:
  "cl_ring c = Some (buildRing hash srt r) \<Longrightarrow> Members r = [] \<Longrightarrow> Lookup hash c key = Inl ErrRingEmpty"
  using buildRing_lengths(1) [of hash r] by (simp add: Lookup_def)

lemma Lookup_iff_owns:
  assumes "cl_ring c = Some (buildRing hash srt r)" "noCollisions hash (set (Members r))"
  shows "Lookup hash c key = Inr (m @ ''.'' @ cl_serviceFQDN c) \<longleftrightarrow> owns hash (set (Members r)) key m"
proof (cases "Members r = []")
  case True
  then show ?thesis
    using Lookup_empty [OF assms(1) True] by (simp add: owns_def)
next
  case False
  then obtain m' where m': "Lookup hash c key = Inr (m' @ ''.'' @ cl_serviceFQDN c)"
      "owns hash (set (Members r)) key m'"
    using Lookup_owns [OF assms(1)] by blast
  then show ?thesis
    using owns_unique [OF assms(2) m'(2), of m] by auto
qed

end

interpretation ix: index_sort insertionSort
  by unfold_locales

section \<open>Polling\<close>

lemma pollOnce_error: "fst (pollOnce hash srt get c) = Some e \<Longrightarrow> snd (pollOnce hash srt get c) = c"
  by (auto simp: pollOnce_def split: sum.splits option.splits if_splits)

lemma pollOnce_fields:
  "cl_ringConfigMap (snd (pollOnce hash srt get c)) = cl_ringConfigMap c"
  "cl_serviceFQDN (snd (pollOnce hash srt get c)) = cl_serviceFQDN c"
  "cl_pollInterval (snd (pollOnce hash srt get c)) = cl_pollInterval c"
  by (auto simp: pollOnce_def split: sum.splits option.splits)

lemma pollOnce_ok:
  assumes "get (cl_ringConfigMap c) = Inr cm" "mapGet (Data cm) clientRingKey = Some raw"
    and "unmarshalRing raw = Inr r"
  shows "pollOnce hash srt get c =
    (None, if (\<exists>cur. cl_ring c = Some cur \<and> hr_version cur = Version r) then c
           else c\<lparr>cl_ring := Some (buildRing hash srt r)\<rparr>)"
  using assms by (auto simp: pollOnce_def split: option.splits)

lemma buildRing_version [simp]: "hr_version (buildRing hash srt r) = Version r"
  by (simp add: buildRing_def Let_def)

text \<open>Whether a poll fails depends on the answer and not on the ring the client has.\<close>

lemma pollOnce_fails:
  "cl_ringConfigMap d = cl_ringConfigMap c \<Longrightarrow>
   fst (pollOnce hash srt g d) = None \<longleftrightarrow> fst (pollOnce hash srt g c) = None"
  by (auto simp: pollOnce_def split: sum.splits option.splits if_splits)

lemma runTicks_filter:
  "cl_ringConfigMap d = cl_ringConfigMap c \<Longrightarrow>
   runTicks hash srt gs d = runTicks hash srt (filter (\<lambda>g. fst (pollOnce hash srt g c) = None) gs) d"
proof (induction gs arbitrary: d)
  case (Cons g gs)
  then show ?case
    using pollOnce_error [of hash srt g d] pollOnce_fails [of d c hash srt g] pollOnce_fields [of hash srt g d] by fastforce
qed simp

section \<open>Properties\<close>

text \<open>
  C27: the built ring has \<open>vnodeCount\<close> entries per member, its hashes are sorted, and its parallel
  arrays hold exactly the virtual nodes of the members, each hash beside its own owner.
\<close>

theorem buildRing_wellformed:
  assumes "index_sort srt"
  shows "sorted (hr_hashes (buildRing hash srt r))
    \<and> length (hr_hashes (buildRing hash srt r)) = length (Members r) * 128
    \<and> length (hr_positions (buildRing hash srt r)) = length (Members r) * 128
    \<and> mset (zip (hr_hashes (buildRing hash srt r)) (hr_positions (buildRing hash srt r)))
      = mset (concat (map (\<lambda>m. map (\<lambda>i. (hash (m @ ''#'' @ fmtNat i), m)) [0..<128]) (Members r)))"
  using index_sort.buildRing_sorted [OF assms] index_sort.buildRing_lengths [OF assms]
    index_sort.buildRing_zip [OF assms, of hash r]
  by (simp add: vnodes_def vnodeCount_def vnodeKey_def)

theorem buildRing_wellformed_witness:
  "let R = buildRing hashString insertionSort \<lparr>Version = 1, Members = [''c-0'', ''c-1'']\<rparr>
   in sorted (hr_hashes R) \<and> length (hr_hashes R) = 256 \<and> length (hr_positions R) = 256"
  using buildRing_wellformed [OF ix.index_sort_axioms, of hashString "\<lparr>Version = 1, Members = [''c-0'', ''c-1'']\<rparr>"]
  by (simp add: Let_def)

text \<open>
  With a loaded ring that has members, \<open>Lookup\<close> always succeeds, and returns the address of a
  member with a virtual node at the least clockwise distance from the key's hash, wrapping past
  the end of the array included; this holds with hash collisions too.
\<close>

lemma lookup_returns_nearest:
  assumes "index_sort srt" and "cl_ring c = Some (buildRing hash srt r)" and "Members r \<noteq> []"
  shows "\<exists>m \<in> set (Members r). \<exists>i < 128. Lookup hash c key = Inr (m @ ''.'' @ cl_serviceFQDN c)
    \<and> (\<forall>m' \<in> set (Members r). \<forall>j < 128.
        hash (vnodeKey m i) - hash key \<le> hash (vnodeKey m' j) - hash key)"
  using index_sort.Lookup_owns [OF assms, of key]
  by (auto simp: owns_def vnodeCount_def clockwise_def)

text \<open>
  C7: \<open>Lookup\<close> implements consistent hashing: when no two virtual nodes collide, it answers a
  member exactly when that member owns the key, and so two clients whose rings have the same
  members in any order route every key alike.
\<close>

theorem lookup_implements_ownership:
  assumes "index_sort srt" and "cl_ring c = Some (buildRing hash srt r)"
    and "noCollisions hash (set (Members r))"
  shows "Lookup hash c key = Inr (m @ ''.'' @ cl_serviceFQDN c) \<longleftrightarrow> owns hash (set (Members r)) key m"
  by (rule index_sort.Lookup_iff_owns [OF assms])

text \<open>A hash function without collisions on one-letter member names, for the witnesses.\<close>

definition sampleHash :: hashfun where
  "sampleHash s = word_of_nat (1000 * byteOf (hd s) + (case parseNat (drop 2 s) of None \<Rightarrow> 0 | Some n \<Rightarrow> n))"

lemma sampleHash_vnodeKey: "sampleHash (vnodeKey [ch] i) = word_of_nat (1000 * byteOf ch + i)"
  by (simp add: sampleHash_def vnodeKey_def)

lemma sampleHash_noCollisions:
  assumes "ms \<subseteq> {[ch] | ch. True}"
  shows "noCollisions sampleHash ms"
  unfolding noCollisions_def
proof (rule inj_onI, clarify)
  fix m i m' j
  assume mem: "m \<in> ms" "m' \<in> ms" "i < vnodeCount" "j < vnodeCount"
    and eq: "sampleHash (vnodeKey m i) = sampleHash (vnodeKey m' j)"
  obtain ch ch' where ch: "m = [ch]" "m' = [ch']"
    using mem assms by blast
  have b: "byteOf ch < 256" "byteOf ch' < 256"
    by simp_all
  have "1000 * byteOf ch + i < 256000 + 128" "1000 * byteOf ch' + j < 256000 + 128"
    using b mem(3,4) unfolding vnodeCount_def by linarith+
  then have "1000 * byteOf ch + i < 2 ^ 32" "1000 * byteOf ch' + j < 2 ^ 32"
    by simp_all
  moreover have "(word_of_nat (1000 * byteOf ch + i) :: uint32) = word_of_nat (1000 * byteOf ch' + j)"
    using eq by (simp only: ch sampleHash_vnodeKey)
  ultimately have sum: "1000 * byteOf ch + i = 1000 * byteOf ch' + j"
    by (simp only: word_of_nat_eq_iff) (simp add: take_bit_nat_eq_self)
  moreover have "(1000 * a + k) div 1000 = a" if "k < vnodeCount" for a k :: nat
    using that by (simp add: vnodeCount_def)
  ultimately have "byteOf ch = byteOf ch'"
    using mem(3,4) by metis
  with sum have "byteOf ch = byteOf ch' \<and> i = j"
    by simp
  then show "m = m' \<and> i = j"
    by (simp add: ch)
qed

theorem lookup_implements_ownership_witness:
  "let r = \<lparr>Version = 1, Members = [''a'', ''b'']\<rparr>;
       c = (New \<lparr>cf_RingConfigMap = \<lparr>nn_Namespace = ''d'', nn_Name = ''c-ring''\<rparr>,
                cf_ServiceFQDN = ''svc'', cf_PollInterval = 0\<rparr>)
            \<lparr>cl_ring := Some (buildRing sampleHash insertionSort r)\<rparr>
   in (Lookup sampleHash c ''a#7'' = Inr ''a.svc'') = owns sampleHash {''a'', ''b''} ''a#7'' ''a''
      \<and> owns sampleHash {''a'', ''b''} ''a#7'' ''a''"
proof -
  let ?r = "\<lparr>Version = 1, Members = [''a'', ''b'']\<rparr> :: Ring"
  let ?c = "(New \<lparr>cf_RingConfigMap = \<lparr>nn_Namespace = ''d'', nn_Name = ''c-ring''\<rparr>,
                cf_ServiceFQDN = ''svc'', cf_PollInterval = 0\<rparr>)
            \<lparr>cl_ring := Some (buildRing sampleHash insertionSort ?r)\<rparr>"
  have "(Lookup sampleHash ?c ''a#7'' = Inr (''a'' @ ''.'' @ cl_serviceFQDN ?c))
      = owns sampleHash (set (Members ?r)) ''a#7'' ''a''"
    by (rule lookup_implements_ownership [OF ix.index_sort_axioms])
      (auto intro!: sampleHash_noCollisions)
  moreover have "owns sampleHash {''a'', ''b''} ''a#7'' ''a''"
    unfolding owns_def
  proof (intro conjI exI [of _ 7] ballI allI impI)
    have "fmtNat 7 = ''7''"
      by code_simp
    then have "''a#7'' = vnodeKey ''a'' 7"
      by (simp add: vnodeKey_def)
    then show "clockwise (sampleHash ''a#7'') (sampleHash (vnodeKey ''a'' 7))
        \<le> clockwise (sampleHash ''a#7'') (sampleHash (vnodeKey m j))" for m j
      by (simp add: clockwise_def)
  qed (simp_all add: vnodeCount_def)
  ultimately show ?thesis
    by (simp add: Let_def New_def)
qed



text \<open>
  C29: an API server that cannot be reached costs the client nothing but freshness. With a
  positive poll interval \<open>Run\<close> ends with the client that the successful polls alone would have
  made: failed ones, of whatever kind and however many, leave no trace, and if all fail every lookup
  keeps its answer. \<open>Run\<close> panics exactly if the interval is not positive.
\<close>

theorem unreachable_api_keeps_routing:
  shows "(Run hash srt first ticks c = None \<longleftrightarrow> sint (cl_pollInterval c) \<le> 0)
    \<and> (0 < sint (cl_pollInterval c) \<longrightarrow> (\<exists>c'. Run hash srt first ticks c = Some (None, c')
        \<and> c' = runTicks hash srt (filter (\<lambda>g. fst (pollOnce hash srt g c) = None) (first # ticks)) c
        \<and> ((\<forall>g \<in> set (first # ticks). fst (pollOnce hash srt g c) \<noteq> None) \<longrightarrow>
              (\<forall>key. Lookup hash c' key = Lookup hash c key))))"
proof -
  let ?good = "filter (\<lambda>g. fst (pollOnce hash srt g c) = None) (first # ticks)"
  have "Run hash srt first ticks c =
      (if sint (cl_pollInterval c) \<le> 0 then None else Some (None, runTicks hash srt ?good c))"
    using runTicks_filter [of c c hash srt "first # ticks"] by (simp add: Run_def Let_def pollOnce_fields(3))
  moreover have "?good = []" if "\<forall>g \<in> set (first # ticks). fst (pollOnce hash srt g c) \<noteq> None"
    using that by (intro filter_False) blast
  ultimately show ?thesis
    by (cases "sint (cl_pollInterval c) \<le> 0") (simp_all only: if_True if_False not_le, auto)
qed

theorem unreachable_api_keeps_routing_witness:
  "let c = New \<lparr>cf_RingConfigMap = \<lparr>nn_Namespace = ''d'', nn_Name = ''c-ring''\<rparr>,
                cf_ServiceFQDN = ''svc'', cf_PollInterval = 0\<rparr>;
       down = (\<lambda>k. Inl (OtherErr ''timeout''))
   in \<exists>c'. Run sampleHash insertionSort down [down, down] c = Some (None, c') \<and> Lookup sampleHash c' ''k'' = Lookup sampleHash c ''k''"
  using unreachable_api_keeps_routing [of sampleHash insertionSort "\<lambda>k. Inl (OtherErr ''timeout'')"
      "[\<lambda>k. Inl (OtherErr ''timeout''), \<lambda>k. Inl (OtherErr ''timeout'')]"
      "New \<lparr>cf_RingConfigMap = \<lparr>nn_Namespace = ''d'', nn_Name = ''c-ring''\<rparr>,
                cf_ServiceFQDN = ''svc'', cf_PollInterval = 0\<rparr>"]
  by (auto simp: Let_def New_def Second_def pollOnce_def)

end
