(* ===== verification/Http.thy ===== *)
theory Http
  imports Go_Std
begin

text \<open>
  The parts of \<open>net/http\<close>, \<open>net/url\<close>, \<open>path\<close> and \<open>io\<close> the cache server and its command line
  client use: percent-encoding, path cleaning, the dispatch of \<open>http.ServeMux\<close>, bounded reads of a
  request body and the error replies.

  A request is given by the escaped path of its target (\<open>r.URL.EscapedPath()\<close>), from which
  \<open>r.URL.Path\<close> is its unescaped form. Only targets that are paths are considered, so the special
  target of \<open>OPTIONS *\<close> and the authority form of \<open>CONNECT\<close> are left out.
\<close>

section \<open>Percent-encoding\<close>

definition hexVal :: "char \<Rightarrow> nat option" where
  "hexVal c = (let n = of_char c :: nat in
     if 48 \<le> n \<and> n \<le> 57 then Some (n - 48)
     else if 97 \<le> n \<and> n \<le> 102 then Some (n - 97 + 10)
     else if 65 \<le> n \<and> n \<le> 70 then Some (n - 65 + 10) else None)"

definition upperHex :: "nat \<Rightarrow> char" where
  "upperHex n = (if n < 10 then char_of (48 + n) else char_of (55 + n))"

text \<open>\<open>url.PathUnescape\<close>; \<open>None\<close> is an \<open>EscapeError\<close>.\<close>

fun pathUnescape :: "string \<Rightarrow> string option" where
  "pathUnescape [] = Some []"
| "pathUnescape (c # cs) =
     (if c = CHR ''%'' then
        (case cs of
           h # l # rest \<Rightarrow>
             (case (hexVal h, hexVal l) of
                (Some a, Some b) \<Rightarrow> map_option ((#) (char_of (16 * a + b))) (pathUnescape rest)
              | _ \<Rightarrow> None)
         | _ \<Rightarrow> None)
      else map_option ((#) c) (pathUnescape cs))"

text \<open>\<open>shouldEscape\<close> in the mode of paths.\<close>

definition unreserved :: "char \<Rightarrow> bool" where
  "unreserved c \<longleftrightarrow> (let n = of_char c :: nat in 97 \<le> n \<and> n \<le> 122 \<or> 65 \<le> n \<and> n \<le> 90 \<or> 48 \<le> n \<and> n \<le> 57)"

definition shouldEscape :: "char \<Rightarrow> bool" where
  "shouldEscape c \<longleftrightarrow> \<not> (unreserved c \<or> c \<in> set ''-_.~$&+,/:;=@'')"

definition escapeByte :: "char \<Rightarrow> string" where
  "escapeByte c = [CHR ''%'', upperHex (of_char c div 16), upperHex (of_char c mod 16)]"

definition escapePath :: "string \<Rightarrow> string" where
  "escapePath s = concat (map (\<lambda>c. if shouldEscape c then escapeByte c else [c]) s)"

text \<open>\<open>validEncoded\<close>: the bytes a path may keep as they were written.\<close>

definition validEncoded :: "string \<Rightarrow> bool" where
  "validEncoded s \<longleftrightarrow> list_all (\<lambda>c. c \<in> set ''!$&()*+,;=:@[]%'' \<or> of_char c = (39::nat) \<or> \<not> shouldEscape c) s"

text \<open>\<open>URL.EscapedPath\<close> of a URL whose path was written as \<open>p\<close>.\<close>

definition writtenPath :: "string \<Rightarrow> string option" where
  "writtenPath p = (case pathUnescape p of
     None \<Rightarrow> None
   | Some path \<Rightarrow> Some (if validEncoded p then p else escapePath path))"

lemma hexVal_upperHex [simp]: "n < 16 \<Longrightarrow> hexVal (upperHex n) = Some n"
  by (auto simp: hexVal_def upperHex_def Let_def)

lemma pathUnescape_escapeByte [simp]: "pathUnescape (escapeByte c @ cs) = map_option ((#) c) (pathUnescape cs)"
proof -
  have "of_char c div 16 < (16::nat)"
    by (rule less_mult_imp_div_less) simp
  then show ?thesis
    by (simp add: escapeByte_def)
qed

lemma hexVal_slash: "hexVal (CHR ''/'') = None"
  by (simp add: hexVal_def)

text \<open>Unescaping undoes escaping.\<close>

lemma pathUnescape_escapePath [simp]: "pathUnescape (escapePath s) = Some s"
proof (induction s)
  case (Cons c s)
  have "c = CHR ''%'' \<Longrightarrow> shouldEscape c"
    by (simp add: shouldEscape_def unreserved_def Let_def)
  with Cons show ?case
    by (auto simp: escapePath_def)
qed (simp add: escapePath_def)

lemma pathUnescape_plain: "CHR ''%'' \<notin> set s \<Longrightarrow> pathUnescape s = Some s"
  by (induction s) auto

lemma writtenPath_unescapes: "writtenPath p = Some e \<Longrightarrow> pathUnescape e = pathUnescape p"
  by (auto simp: writtenPath_def split: option.splits if_splits)

section \<open>Path cleaning\<close>

fun splitSlash :: "string \<Rightarrow> string list" where
  "splitSlash [] = [[]]"
| "splitSlash (c # cs) =
     (if c = CHR ''/'' then [] # splitSlash cs
      else case splitSlash cs of [] \<Rightarrow> [[c]] | s # ss \<Rightarrow> (c # s) # ss)"

text \<open>The elements \<open>path.Clean\<close> keeps of a rooted path; the accumulator is reversed.\<close>

fun cleanElems :: "string list \<Rightarrow> string list \<Rightarrow> string list" where
  "cleanElems out [] = rev out"
| "cleanElems out (s # ss) =
     (if s = [] \<or> s = ''.'' then cleanElems out ss
      else if s = ''..'' then cleanElems (tl out) ss
      else cleanElems (s # out) ss)"

definition pathClean :: "string \<Rightarrow> string" where
  "pathClean p = (let elems = cleanElems [] (splitSlash p)
     in if elems = [] then ''/'' else concat (map ((#) (CHR ''/'')) elems))"

text \<open>\<open>cleanPath\<close> of \<open>net/http\<close>: the trailing slash is kept.\<close>

definition cleanPath :: "string \<Rightarrow> string" where
  "cleanPath p =
     (if p = [] then ''/''
      else let p = (if hd p \<noteq> CHR ''/'' then CHR ''/'' # p else p); np = pathClean p
           in if last p = CHR ''/'' \<and> np \<noteq> ''/'' then np @ ''/'' else np)"

section \<open>Requests and replies\<close>

text \<open>
  A body yields some bytes and then its end, or an error in a read of its own. Header fields are
  those the handlers set.
\<close>

record bodyReader =
  br_Bytes :: string
  br_Err :: "goerr option"

record Request =
  rq_Method :: string
  rq_EscapedPath :: string
  rq_RawQuery :: string
  rq_Body :: bodyReader

record Response =
  rs_Status :: int
  rs_Header :: strmap
  rs_Body :: string

text \<open>\<open>io.ReadAll(io.LimitReader(r, n))\<close>: an error beyond the limit is not met.\<close>

definition readLimited :: "bodyReader \<Rightarrow> int64 \<Rightarrow> goerr + string" where
  "readLimited r n =
     (if sint n \<le> int (length (br_Bytes r)) then Inr (take (nat (sint n)) (br_Bytes r))
      else case br_Err r of Some e \<Rightarrow> Inl e | None \<Rightarrow> Inr (br_Bytes r))"

text \<open>\<open>http.Error\<close> on top of the header fields set so far, and \<open>http.NotFound\<close>.\<close>

definition httpError :: "strmap \<Rightarrow> string \<Rightarrow> int \<Rightarrow> Response" where
  "httpError h msg code = \<lparr>rs_Status = code,
     rs_Header = mapPut ''X-Content-Type-Options'' ''nosniff'' (mapPut ''Content-Type'' ''text/plain; charset=utf-8'' h),
     rs_Body = msg @ [char_of (10::nat)]\<rparr>"

definition httpNotFound :: Response where
  "httpNotFound = httpError [] ''404 page not found'' 404"

lemma httpError_sel [simp]: "rs_Status (httpError h msg code) = code"
  by (simp add: httpError_def)

lemma httpNotFound_sel [simp]: "rs_Status httpNotFound = 404"
  by (simp add: httpNotFound_def)

section \<open>http.ServeMux\<close>

text \<open>
  The patterns in use are \<open>/name\<close> and \<open>/name/\<close>: one literal segment, and whether everything below
  it is meant too.
\<close>

record pattern =
  pat_Segment :: string
  pat_Subtree :: bool

definition firstSegment :: "string \<Rightarrow> string \<times> string" where
  "firstSegment path =
     (if path = ''/'' then (''/'', '''')
      else let seg = takeWhile (\<lambda>c. c \<noteq> CHR ''/'') (tl path); rest = dropWhile (\<lambda>c. c \<noteq> CHR ''/'') (tl path)
           in (case pathUnescape seg of None \<Rightarrow> seg | Some u \<Rightarrow> u, rest))"

definition matches :: "string \<Rightarrow> pattern \<Rightarrow> bool" where
  "matches path p \<longleftrightarrow> (case firstSegment path of (seg, rest) \<Rightarrow>
     seg = pat_Segment p \<and> (pat_Subtree p \<longleftrightarrow> rest \<noteq> ''''))"

definition muxMatch :: "(pattern \<times> 'h) list \<Rightarrow> string \<Rightarrow> (pattern \<times> 'h) option" where
  "muxMatch pats path = List.find (\<lambda>(p, h). matches path p) pats"

definition hasTrailingSlash :: "string \<Rightarrow> bool" where
  "hasTrailingSlash path \<longleftrightarrow> path \<noteq> [] \<and> last path = CHR ''/''"

definition exactMatch :: "(pattern \<times> 'h) option \<Rightarrow> string \<Rightarrow> bool" where
  "exactMatch n path = (case n of
     None \<Rightarrow> False
   | Some (p, h) \<Rightarrow> if \<not> pat_Subtree p then True
       else hasTrailingSlash path \<and> count_list path (CHR ''/'') = 2)"

datatype 'h dispatch = Handler 'h | MovedTo string | NoHandler

text \<open>\<open>findHandler\<close>, with the redirects to the subtree and to the cleaned path.\<close>

definition findHandler :: "(pattern \<times> 'h) list \<Rightarrow> Request \<Rightarrow> string \<Rightarrow> 'h dispatch" where
  "findHandler pats r urlPath =
     (let path = (if rq_Method r = ''CONNECT'' then rq_EscapedPath r else cleanPath (rq_EscapedPath r));
          n = muxMatch pats path
      in if \<not> exactMatch n path \<and> \<not> hasTrailingSlash path \<and> exactMatch (muxMatch pats (path @ ''/'')) (path @ ''/'')
         then MovedTo (cleanPath urlPath @ ''/'')
         else if path \<noteq> rq_EscapedPath r then MovedTo path
         else case n of None \<Rightarrow> NoHandler | Some (p, h) \<Rightarrow> Handler h)"

text \<open>\<open>RedirectHandler\<close> without the HTML text it adds for a GET.\<close>

definition movedPermanently :: "string \<Rightarrow> string \<Rightarrow> Response" where
  "movedPermanently path query = \<lparr>rs_Status = 301,
     rs_Header = [(''Location'', escapePath path @ (if query = '''' then '''' else ''?'' @ query))], rs_Body = ''''\<rparr>"

lemma movedPermanently_sel [simp]: "rs_Status (movedPermanently path query) = 301"
  by (simp add: movedPermanently_def)

section \<open>Plain segments\<close>

text \<open>A path of two plain elements is clean, and the first is its first segment.\<close>

lemma splitSlash_plain: "CHR ''/'' \<notin> set s \<Longrightarrow> splitSlash s = [s]"
  by (induction s) auto

lemma splitSlash_append: "CHR ''/'' \<notin> set s \<Longrightarrow> splitSlash (s @ CHR ''/'' # t) = s # splitSlash t"
  by (induction s) auto

definition plainElem :: "string \<Rightarrow> bool" where
  "plainElem s \<longleftrightarrow> s \<notin> {'''', ''.'', ''..''} \<and> CHR ''/'' \<notin> set s"

lemma cleanPath_plain:
  assumes "plainElem a" "plainElem b"
  shows "cleanPath (CHR ''/'' # a @ CHR ''/'' # b) = CHR ''/'' # a @ CHR ''/'' # b"
proof -
  have "splitSlash (CHR ''/'' # a @ CHR ''/'' # b) = ['''', a, b]"
    using assms splitSlash_append [of a b] splitSlash_plain [of b] by (simp add: plainElem_def)
  then have "pathClean (CHR ''/'' # a @ CHR ''/'' # b) = CHR ''/'' # a @ CHR ''/'' # b"
    using assms by (simp add: pathClean_def plainElem_def)
  moreover have "last b \<noteq> CHR ''/''"
    using assms(2) by (metis insertCI last_in_set plainElem_def)
  ultimately show ?thesis
    using assms(2) by (simp add: cleanPath_def plainElem_def)
qed

lemma firstSegment_plain:
  assumes "CHR ''/'' \<notin> set a" "CHR ''%'' \<notin> set a" "a \<noteq> ''''"
  shows "firstSegment (CHR ''/'' # a @ CHR ''/'' # b) = (a, CHR ''/'' # b)"
proof -
  have "takeWhile (\<lambda>c. c \<noteq> CHR ''/'') (a @ CHR ''/'' # b) = a"
    "dropWhile (\<lambda>c. c \<noteq> CHR ''/'') (a @ CHR ''/'' # b) = CHR ''/'' # b"
    using assms(1) by (auto simp: takeWhile_append dropWhile_append)
  then show ?thesis
    using assms(2,3) by (simp add: firstSegment_def pathUnescape_plain Let_def)
qed

lemma escapePath_append: "escapePath (s @ t) = escapePath s @ escapePath t"
  by (simp add: escapePath_def)

lemma upperHex_not_slash: "n < 16 \<Longrightarrow> upperHex n \<noteq> CHR ''/''"
  by (metis hexVal_upperHex hexVal_slash option.distinct(1))

lemma escapePath_slash: "CHR ''/'' \<in> set (escapePath s) \<longleftrightarrow> CHR ''/'' \<in> set s"
proof -
  have "of_char c div 16 < (16::nat)" for c
    by (rule less_mult_imp_div_less) simp
  then have "CHR ''/'' \<notin> set (escapeByte c)" for c
    using upperHex_not_slash by (simp add: escapeByte_def) (metis mod_less_divisor zero_less_numeral)
  moreover have "\<not> shouldEscape (CHR ''/'')"
    by (simp add: shouldEscape_def)
  ultimately show ?thesis
    by (auto simp: escapePath_def)
qed

lemma plainElem_escapePath: "plainElem s \<Longrightarrow> plainElem (escapePath s)"
  unfolding plainElem_def escapePath_slash by (auto dest: arg_cong [where f = pathUnescape])

end
