(* ===== verification/Cli.thy ===== *)
theory Cli
  imports Client Http
begin

text \<open>
  The command line client (\<open>cmd/cache-cli\<close>). The Kubernetes configuration, the clock, the
  goroutine that polls the ring and the HTTP transport are the fields of the record \<open>cliEnv\<close>, on a
  world \<open>'w\<close>. Reading the client is a request to the world, because the poller may have replaced
  the ring before each read. A run that never leaves the waiting loop is \<open>None\<close>.
\<close>

section \<open>URLs\<close>

text \<open>\<open>strings.Cut\<close> at a byte.\<close>

definition cutAt :: "char \<Rightarrow> string \<Rightarrow> string \<times> string" where
  "cutAt c s = (takeWhile (\<lambda>x. x \<noteq> c) s, tl (dropWhile (\<lambda>x. x \<noteq> c) s))"

definition isControl :: "char \<Rightarrow> bool" where
  "isControl c \<longleftrightarrow> (let n = of_char c :: nat in n < 32 \<or> n = 127)"

record URL =
  url_Host :: string
  url_EscapedPath :: string
  url_RawQuery :: string

definition httpScheme :: string where
  "httpScheme = ''http://''"

text \<open>
  \<open>url.Parse\<close> of a text that starts with \<open>http://\<close>: the fragment and the query are cut off, and
  control bytes, bad escapes and a bad authority are refused. What counts as a good authority is an
  argument.
\<close>

definition urlParse :: "(string \<Rightarrow> bool) \<Rightarrow> string \<Rightarrow> URL option" where
  "urlParse goodHost s =
     (let (u, frag) = cutAt (CHR ''#'') s; (rest, query) = cutAt (CHR ''?'') (drop (length httpScheme) u);
          host = takeWhile (\<lambda>c. c \<noteq> CHR ''/'') rest; path = dropWhile (\<lambda>c. c \<noteq> CHR ''/'') rest
      in if list_ex isControl u \<or> pathUnescape frag = None \<or> \<not> goodHost host then None
         else case writtenPath path of
           None \<Rightarrow> None
         | Some e \<Rightarrow> Some \<lparr>url_Host = host, url_EscapedPath = e, url_RawQuery = query\<rparr>)"

section \<open>The environment\<close>

record ('w, 'c) cliEnv =
  env_InClusterConfig :: "goerr + 'c"
  env_UserHomeDir :: "goerr + string"
  env_BuildConfig :: "string \<Rightarrow> goerr + 'c"
  env_NewClient :: "'c \<Rightarrow> goerr option"
  env_GoRun :: "Client \<Rightarrow> 'w \<Rightarrow> 'w"
  env_Client :: "'w \<Rightarrow> Client \<times> 'w"
  env_Now :: "'w \<Rightarrow> Time \<times> 'w"
  env_Sleep :: "Duration \<Rightarrow> 'w \<Rightarrow> 'w"
  env_GoodHost :: "string \<Rightarrow> bool"
  env_ParseError :: "string \<Rightarrow> goerr"
  env_Do :: "string \<Rightarrow> URL \<Rightarrow> string \<Rightarrow> 'w \<Rightarrow> (goerr + Response) \<times> 'w"

record cliFlags =
  fl_ns :: string
  fl_name :: string
  fl_kubeconfig :: string
  fl_port :: int64
  fl_poll :: Duration

section \<open>The command\<close>

datatype exit = Exited int | Panicked

record cliResult =
  cr_Exit :: exit
  cr_Stdout :: string
  cr_Stderr :: string

definition nl :: string where
  "nl = [char_of (10::nat)]"

definition fatalf :: "string \<Rightarrow> cliResult" where
  "fatalf msg = \<lparr>cr_Exit = Exited 2, cr_Stdout = '''', cr_Stderr = msg @ nl\<rparr>"

definition printed :: "string \<Rightarrow> cliResult" where
  "printed out = \<lparr>cr_Exit = Exited 0, cr_Stdout = out, cr_Stderr = ''''\<rparr>"

definition loadRestConfig :: "('w, 'c) cliEnv \<Rightarrow> string \<Rightarrow> goerr + 'c" where
  "loadRestConfig E kubeconfigPath =
     (case env_InClusterConfig E of
        Inr cfg \<Rightarrow> Inr cfg
      | Inl _ \<Rightarrow>
          (case (if kubeconfigPath = '''' then
                   (case env_UserHomeDir E of
                      Inl e \<Rightarrow> Inl (Wrapped ''home dir'' e)
                    | Inr home \<Rightarrow> Inr (home @ ''/.kube/config''))
                 else Inr kubeconfigPath) of
             Inl e \<Rightarrow> Inl e
           | Inr path \<Rightarrow>
               (case env_BuildConfig E path of
                  Inl e \<Rightarrow> Inl (Wrapped (''kubeconfig '' @ path) e)
                | Inr cfg \<Rightarrow> Inr cfg)))"

definition cliRingKey :: "cliFlags \<Rightarrow> NamespacedName" where
  "cliRingKey f = \<lparr>nn_Namespace = fl_ns f, nn_Name = fl_name f @ ''-ring''\<rparr>"

definition svcFQDN :: "cliFlags \<Rightarrow> string" where
  "svcFQDN f = fl_name f @ ''.'' @ fl_ns f @ ''.svc.cluster.local''"

definition cliConfig :: "cliFlags \<Rightarrow> ClientConfig" where
  "cliConfig f = \<lparr>cf_RingConfigMap = cliRingKey f, cf_ServiceFQDN = svcFQDN f, cf_PollInterval = fl_poll f\<rparr>"

text \<open>\<open>time.Time.Add\<close> and \<open>Before\<close>.\<close>

definition time_Add :: "Time \<Rightarrow> int \<Rightarrow> Time" where
  "time_Add t d = \<lparr>t_sec = t_sec t + word_of_int ((t_nsec t + d) div Second), t_nsec = (t_nsec t + d) mod Second\<rparr>"

definition Before :: "Time \<Rightarrow> Time \<Rightarrow> bool" where
  "Before t u \<longleftrightarrow> instant t < instant u"

definition waitStep :: Duration where
  "waitStep = 50 * 1000000"

partial_function (option) waitRing :: "('w, 'c) cliEnv \<Rightarrow> Time \<Rightarrow> 'w \<Rightarrow> 'w option" where
  "waitRing E deadline w =
     (case env_Client E w of (c, w) \<Rightarrow>
        if RingVersion c \<noteq> 0 then Some w
        else case env_Now E w of (now, w) \<Rightarrow>
          if Before now deadline then waitRing E deadline (env_Sleep E waitStep w) else Some w)"

definition sampleKeys :: "string list" where
  "sampleKeys = [''foo'', ''bar'', ''baz'', ''user-1234'', ''session-abcd'', ''orders-99'']"

definition arrow :: string where
  "arrow = map char_of [0xE2, 0x86, 0x92 :: nat]"

text \<open>One line of \<open>info\<close>: the verb \<open>%-15s\<close> pads on the right.\<close>

definition infoLine :: "hashfun \<Rightarrow> Client \<Rightarrow> string \<Rightarrow> string" where
  "infoLine hash c k = ''  '' @ k @ replicate (15 - length k) (CHR '' '') @ '' '' @ arrow @ '' '' @
     (case Lookup hash c k of Inl e \<Rightarrow> ''ERROR '' @ errorText e | Inr pod \<Rightarrow> pod) @ nl"

fun infoLines :: "('w, 'c) cliEnv \<Rightarrow> hashfun \<Rightarrow> string list \<Rightarrow> 'w \<Rightarrow> string \<times> 'w" where
  "infoLines E hash [] w = ('''', w)"
| "infoLines E hash (k # ks) w =
     (case env_Client E w of (c, w) \<Rightarrow>
      case infoLines E hash ks w of (out, w) \<Rightarrow> (infoLine hash c k @ out, w))"

definition cliInfo :: "('w, 'c) cliEnv \<Rightarrow> hashfun \<Rightarrow> cliFlags \<Rightarrow> 'w \<Rightarrow> cliResult \<times> 'w" where
  "cliInfo E hash f w =
     (case env_Client E w of (c, w) \<Rightarrow>
      case infoLines E hash sampleKeys w of (out, w) \<Rightarrow>
        (printed (''ring version: '' @ FormatInt (RingVersion c) @ nl @ ''service FQDN: '' @ svcFQDN f @ nl
           @ ''sample lookups:'' @ nl @ out), w))"

text \<open>\<open>http.StatusText\<close>.\<close>

definition StatusText :: "int \<Rightarrow> string" where
  "StatusText code = (case map_of
     [(100, ''Continue''), (101, ''Switching Protocols''), (102, ''Processing''), (103, ''Early Hints''),
      (200, ''OK''), (201, ''Created''), (202, ''Accepted''), (203, ''Non-Authoritative Information''),
      (204, ''No Content''), (205, ''Reset Content''), (206, ''Partial Content''), (207, ''Multi-Status''),
      (208, ''Already Reported''), (226, ''IM Used''),
      (300, ''Multiple Choices''), (301, ''Moved Permanently''), (302, ''Found''), (303, ''See Other''),
      (304, ''Not Modified''), (305, ''Use Proxy''), (307, ''Temporary Redirect''), (308, ''Permanent Redirect''),
      (400, ''Bad Request''), (401, ''Unauthorized''), (402, ''Payment Required''), (403, ''Forbidden''),
      (404, ''Not Found''), (405, ''Method Not Allowed''), (406, ''Not Acceptable''),
      (407, ''Proxy Authentication Required''), (408, ''Request Timeout''), (409, ''Conflict''), (410, ''Gone''),
      (411, ''Length Required''), (412, ''Precondition Failed''), (413, ''Request Entity Too Large''),
      (414, ''Request URI Too Long''), (415, ''Unsupported Media Type''), (416, ''Requested Range Not Satisfiable''),
      (417, ''Expectation Failed''), (418, ''I'' @ [char_of (39::nat)] @ ''m a teapot''), (421, ''Misdirected Request''),
      (422, ''Unprocessable Entity''), (423, ''Locked''), (424, ''Failed Dependency''), (425, ''Too Early''),
      (426, ''Upgrade Required''), (428, ''Precondition Required''), (429, ''Too Many Requests''),
      (431, ''Request Header Fields Too Large''), (451, ''Unavailable For Legal Reasons''),
      (500, ''Internal Server Error''), (501, ''Not Implemented''), (502, ''Bad Gateway''),
      (503, ''Service Unavailable''), (504, ''Gateway Timeout''), (505, ''HTTP Version Not Supported''),
      (506, ''Variant Also Negotiates''), (507, ''Insufficient Storage''), (508, ''Loop Detected''),
      (510, ''Not Extended''), (511, ''Network Authentication Required'')] code of
     None \<Rightarrow> '''' | Some t \<Rightarrow> t)"

definition keyURL :: "string \<Rightarrow> int64 \<Rightarrow> string \<Rightarrow> string" where
  "keyURL pod port key = httpScheme @ pod @ '':'' @ FormatInt port @ ''/kv/'' @ key"

definition statusLines :: "string \<Rightarrow> Response \<Rightarrow> string" where
  "statusLines url resp = arrow @ '' '' @ url @ nl @ fmtInt (rs_Status resp) @ '' '' @ StatusText (rs_Status resp) @ nl"

text \<open>
  The three key operations. \<open>http.Get\<close> returns the error of a URL that does not parse; the other
  two drop it and pass the nil request on, which \<open>Do\<close> dereferences.
\<close>

definition cliKeyOp ::
  "('w, 'c) cliEnv \<Rightarrow> string \<Rightarrow> string list \<Rightarrow> string \<Rightarrow> 'w \<Rightarrow> cliResult \<times> 'w" where
  "cliKeyOp E op args url w =
     (if op = ''get'' then
        (case urlParse (env_GoodHost E) url of
           None \<Rightarrow> (fatalf (''GET: '' @ errorText (env_ParseError E url)), w)
         | Some u \<Rightarrow>
             (case env_Do E ''GET'' u '''' w of
                (Inl e, w) \<Rightarrow> (fatalf (''GET: '' @ errorText e), w)
              | (Inr resp, w) \<Rightarrow> (printed (statusLines url resp @ rs_Body resp @ nl), w)))
      else if op = ''put'' then
        (if length args < 3 then (fatalf ''usage: cache-cli [flags] put <key> <value>'', w)
         else case urlParse (env_GoodHost E) url of
           None \<Rightarrow> (\<lparr>cr_Exit = Panicked, cr_Stdout = '''', cr_Stderr = ''''\<rparr>, w)
         | Some u \<Rightarrow>
             (case env_Do E ''PUT'' u (args ! 2) w of
                (Inl e, w) \<Rightarrow> (fatalf (''PUT: '' @ errorText e), w)
              | (Inr resp, w) \<Rightarrow> (printed (statusLines url resp), w)))
      else if op = ''delete'' then
        (case urlParse (env_GoodHost E) url of
           None \<Rightarrow> (\<lparr>cr_Exit = Panicked, cr_Stdout = '''', cr_Stderr = ''''\<rparr>, w)
         | Some u \<Rightarrow>
             (case env_Do E ''DELETE'' u '''' w of
                (Inl e, w) \<Rightarrow> (fatalf (''DELETE: '' @ errorText e), w)
              | (Inr resp, w) \<Rightarrow> (printed (statusLines url resp), w)))
      else (fatalf (''unknown op: '' @ op), w))"

text \<open>After the wait: \<open>info\<close>, or a key operation on the pod that owns the key.\<close>

definition cliOp ::
  "('w, 'c) cliEnv \<Rightarrow> hashfun \<Rightarrow> cliFlags \<Rightarrow> string list \<Rightarrow> 'w \<Rightarrow> cliResult \<times> 'w" where
  "cliOp E hash f args w =
     (if args ! 0 = ''info'' then cliInfo E hash f w
      else if length args < 2 then (fatalf ''usage: cache-cli [flags] {get|put|delete} <key> [value]'', w)
      else case env_Client E w of (c, w) \<Rightarrow>
        (case Lookup hash c (args ! 1) of
           Inl e \<Rightarrow> (fatalf (''lookup: '' @ errorText e), w)
         | Inr pod \<Rightarrow> cliKeyOp E (args ! 0) args (keyURL pod (fl_port f) (args ! 1)) w))"

definition cliMain ::
  "('w, 'c) cliEnv \<Rightarrow> hashfun \<Rightarrow> cliFlags \<Rightarrow> string list \<Rightarrow> 'w \<Rightarrow> (cliResult \<times> 'w) option" where
  "cliMain E hash f args w =
     (if fl_name f = '''' then Some (fatalf ''--name is required'', w)
      else if length args < 1 then Some (fatalf ''usage: cache-cli [flags] {get|put|delete|info} <key> [value]'', w)
      else case loadRestConfig E (fl_kubeconfig f) of
        Inl e \<Rightarrow> Some (fatalf (''kube config: '' @ errorText e), w)
      | Inr cfg \<Rightarrow>
          (case env_NewClient E cfg of
             Some e \<Rightarrow> Some (fatalf (''k8s client: '' @ errorText e), w)
           | None \<Rightarrow>
               (case env_Now E (env_GoRun E (New (cliConfig f)) w) of (now, w) \<Rightarrow>
                  (case waitRing E (time_Add now (5 * Second)) w of
                     None \<Rightarrow> None
                   | Some w \<Rightarrow> Some (cliOp E hash f args w)))))"

end
