(* ===== verification/Store.thy ===== *)
theory Store
  imports Http
begin

text \<open>
  The key-value store of the cache server (\<open>internal/cache/store.go\<close>). The expirable LRU of
  hashicorp/golang-lru is a parameter: the record \<open>lruLib\<close> of its operations on the state of an
  LRU object together with the clock. The locale \<open>lru_api\<close> states its documented contract, which a
  list in order of recency implements.
\<close>

section \<open>The LRU library\<close>

record 'l lruLib =
  lru_NewLRU :: "int64 \<Rightarrow> Duration \<Rightarrow> 'l \<Rightarrow> 'l"
  lru_Get :: "string \<Rightarrow> 'l \<Rightarrow> string option \<times> 'l"
  lru_Add :: "string \<Rightarrow> string \<Rightarrow> 'l \<Rightarrow> bool \<times> 'l"
  lru_Remove :: "string \<Rightarrow> 'l \<Rightarrow> bool \<times> 'l"
  lru_Len :: "'l \<Rightarrow> int64"

section \<open>The store\<close>

record 'l Store =
  lru :: 'l
  defaultTTL :: Duration

definition storeFloor :: Duration where
  "storeFloor = word_of_int (60 * Second)"

text \<open>\<open>None\<close> is the panic.\<close>

definition NewStore :: "'l lruLib \<Rightarrow> int64 \<Rightarrow> Duration \<Rightarrow> 'l \<Rightarrow> 'l Store option" where
  "NewStore L capacity ttl l =
     (if sint capacity \<le> 0 then None
      else let ttl = (if sint ttl \<le> 0 then storeFloor else ttl)
           in Some \<lparr>lru = lru_NewLRU L capacity ttl l, defaultTTL = ttl\<rparr>)"

definition Store_Get :: "'l lruLib \<Rightarrow> string \<Rightarrow> 'l Store \<Rightarrow> string option \<times> 'l Store" where
  "Store_Get L key s = (case lru_Get L key (lru s) of (v, l) \<Rightarrow> (v, s\<lparr>lru := l\<rparr>))"

definition Store_Put :: "'l lruLib \<Rightarrow> string \<Rightarrow> string \<Rightarrow> 'l Store \<Rightarrow> bool \<times> 'l Store" where
  "Store_Put L key v s = (case lru_Add L key v (lru s) of (evicted, l) \<Rightarrow> (evicted, s\<lparr>lru := l\<rparr>))"

definition Store_Delete :: "'l lruLib \<Rightarrow> string \<Rightarrow> 'l Store \<Rightarrow> bool \<times> 'l Store" where
  "Store_Delete L key s = (case lru_Remove L key (lru s) of (present, l) \<Rightarrow> (present, s\<lparr>lru := l\<rparr>))"

definition Store_Len :: "'l lruLib \<Rightarrow> 'l Store \<Rightarrow> int64" where
  "Store_Len L s = lru_Len L (lru s)"

section \<open>The contract of the LRU\<close>

text \<open>
  What an LRU object holds: values with the instant they expire at, in nanoseconds. An entry past
  that instant may still be held until it is evicted, removed or swept.
\<close>

record lruView =
  lv_items :: "string \<Rightarrow> (string \<times> int) option"
  lv_now :: int
  lv_size :: int
  lv_ttl :: int

definition liveAt :: "lruView \<Rightarrow> string \<Rightarrow> string option" where
  "liveAt v k = (case lv_items v k of None \<Rightarrow> None | Some (x, e) \<Rightarrow> if lv_now v \<le> e then Some x else None)"

text \<open>What happens between the operations: time passes, and expired entries may be swept.\<close>

definition idles :: "lruView \<Rightarrow> lruView \<Rightarrow> bool" where
  "idles v v' \<longleftrightarrow> lv_now v \<le> lv_now v' \<and> lv_size v' = lv_size v \<and> lv_ttl v' = lv_ttl v
     \<and> lv_items v' \<subseteq>\<^sub>m lv_items v
     \<and> (\<forall>k x e. lv_items v k = Some (x, e) \<and> lv_items v' k = None \<longrightarrow> e < lv_now v')"

text \<open>The predicate \<open>repOk\<close> is the invariant of the object's representation.\<close>

locale lru_api =
  fixes L :: "'l lruLib" and view :: "'l \<Rightarrow> lruView" and repOk :: "'l \<Rightarrow> bool"
  assumes new: "0 < sint n \<Longrightarrow> 0 < sint ttl \<Longrightarrow> repOk (lru_NewLRU L n ttl l) \<and> view (lru_NewLRU L n ttl l) =
      \<lparr>lv_items = (\<lambda>_. None), lv_now = lv_now (view l), lv_size = sint n, lv_ttl = sint ttl\<rparr>"
    and get: "repOk l \<Longrightarrow> lru_Get L k l = (r, l') \<Longrightarrow> repOk l' \<and> view l' = view l \<and> r = liveAt (view l) k"
    and add: "repOk l \<Longrightarrow> 0 < lv_size (view l) \<Longrightarrow> lru_Add L k x l = (ev, l') \<Longrightarrow> repOk l' \<and> (\<exists>dropped. k \<notin> dropped \<and>
        view l' = (view l)\<lparr>lv_items := (lv_items (view l) |` (- dropped))(k \<mapsto> (x, lv_now (view l) + lv_ttl (view l)))\<rparr>
      \<and> (if lv_items (view l) k = None \<and> lv_size (view l) \<le> int (card (dom (lv_items (view l))))
         then ev \<and> (\<exists>d. dropped = {d} \<and> lv_items (view l) d \<noteq> None) else \<not> ev \<and> dropped = {}))"
    and remove: "repOk l \<Longrightarrow> lru_Remove L k l = (present, l') \<Longrightarrow> repOk l' \<and>
      view l' = (view l)\<lparr>lv_items := (lv_items (view l))(k := None)\<rparr> \<and> present = (lv_items (view l) k \<noteq> None)"
    and len: "repOk l \<Longrightarrow> finite (dom (lv_items (view l))) \<and> lru_Len L l = word_of_nat (card (dom (lv_items (view l))))"
begin

text \<open>A bounded object stays bounded.\<close>

lemma add_bounded:
  assumes "repOk l" "0 < lv_size (view l)" "lru_Add L k x l = (ev, l')"
    and "int (card (dom (lv_items (view l)))) \<le> lv_size (view l)"
  shows "int (card (dom (lv_items (view l')))) \<le> lv_size (view l')"
proof -
  let ?d = "dom (lv_items (view l))"
  have fin: "finite ?d"
    using len [OF assms(1)] by blast
  obtain dropped where v: "view l' = (view l)\<lparr>lv_items :=
      (lv_items (view l) |` (- dropped))(k \<mapsto> (x, lv_now (view l) + lv_ttl (view l)))\<rparr>"
    and d: "if lv_items (view l) k = None \<and> lv_size (view l) \<le> int (card ?d)
      then ev \<and> (\<exists>d. dropped = {d} \<and> lv_items (view l) d \<noteq> None) else \<not> ev \<and> dropped = {}"
    using add [OF assms(1-3)] by blast
  have dom: "dom (lv_items (view l')) = insert k (?d - dropped)"
    by (auto simp: v)
  show ?thesis
  proof (cases "lv_items (view l) k = None \<and> lv_size (view l) \<le> int (card ?d)")
    case True
    then obtain z where "dropped = {z}" "z \<in> ?d"
      using d by auto
    then have "card (insert k (?d - dropped)) \<le> card ?d"
      using fin by (simp add: card_insert_if card_Diff_singleton) (metis Suc_pred card_gt_0_iff empty_iff le_refl)
    then show ?thesis
      using assms(4) by (simp add: dom) (simp add: v)
  next
    case False
    then have "dropped = {}"
      using d by auto
    moreover have "int (card (insert k ?d)) \<le> lv_size (view l)"
      using False fin assms(4) by (auto simp: card_insert_if domIff)
    ultimately show ?thesis
      by (simp add: dom) (simp add: v)
  qed
qed

end

section \<open>An LRU as a list\<close>

text \<open>Most recently used entries come first; the eviction takes the last one.\<close>

record listLru =
  ll_items :: "(string \<times> string \<times> int) list"
  ll_now :: int
  ll_size :: int
  ll_ttl :: int

definition listView :: "listLru \<Rightarrow> lruView" where
  "listView l = \<lparr>lv_items = map_of (ll_items l), lv_now = ll_now l, lv_size = ll_size l, lv_ttl = ll_ttl l\<rparr>"

definition without :: "string \<Rightarrow> (string \<times> 'v) list \<Rightarrow> (string \<times> 'v) list" where
  "without k xs = filter (\<lambda>(k', v). k' \<noteq> k) xs"

definition listGet :: "string \<Rightarrow> listLru \<Rightarrow> string option \<times> listLru" where
  "listGet k l = (case map_of (ll_items l) k of
     None \<Rightarrow> (None, l)
   | Some (x, e) \<Rightarrow> if e < ll_now l then (None, l) else (Some x, l\<lparr>ll_items := (k, x, e) # without k (ll_items l)\<rparr>))"

definition listAdd :: "string \<Rightarrow> string \<Rightarrow> listLru \<Rightarrow> bool \<times> listLru" where
  "listAdd k x l =
     (let items = (k, x, ll_now l + ll_ttl l) # without k (ll_items l);
          evict = (map_of (ll_items l) k = None \<and> ll_size l < int (length items))
      in (evict, l\<lparr>ll_items := (if evict then butlast items else items)\<rparr>))"

definition listLib :: "listLru lruLib" where
  "listLib = \<lparr>lru_NewLRU = (\<lambda>n ttl l. \<lparr>ll_items = [], ll_now = ll_now l, ll_size = sint n, ll_ttl = sint ttl\<rparr>),
     lru_Get = listGet, lru_Add = listAdd,
     lru_Remove = (\<lambda>k l. (map_of (ll_items l) k \<noteq> None, l\<lparr>ll_items := without k (ll_items l)\<rparr>)),
     lru_Len = (\<lambda>l. word_of_nat (length (ll_items l)))\<rparr>"

definition listWf :: "listLru \<Rightarrow> bool" where
  "listWf l \<longleftrightarrow> distinct (map fst (ll_items l))"

lemma listView_sel [simp]:
  "lv_items (listView l) = map_of (ll_items l)" "lv_now (listView l) = ll_now l"
  "lv_size (listView l) = ll_size l" "lv_ttl (listView l) = ll_ttl l"
  by (simp_all add: listView_def)

lemma listLib_sel:
  "lru_NewLRU listLib n ttl l = \<lparr>ll_items = [], ll_now = ll_now l, ll_size = sint n, ll_ttl = sint ttl\<rparr>"
  "lru_Get listLib = listGet" "lru_Add listLib = listAdd"
  "lru_Remove listLib k l = (map_of (ll_items l) k \<noteq> None, l\<lparr>ll_items := without k (ll_items l)\<rparr>)"
  "lru_Len listLib l = word_of_nat (length (ll_items l))"
  by (simp_all add: listLib_def)

lemma without_map_of [simp]: "map_of (without k xs) = (map_of xs)(k := None)"
  by (induction xs) (auto simp: without_def)

lemma without_distinct: "distinct (map fst xs) \<Longrightarrow> distinct (map fst (without k xs))"
  by (simp add: without_def distinct_map_filter)

lemma without_keys: "fst ` set (without k xs) = fst ` set xs - {k}"
  by (auto simp: without_def)

lemma without_absent: "map_of xs k = None \<Longrightarrow> without k xs = xs"
  by (auto simp: without_def map_of_eq_None_iff image_iff intro!: filter_True)

lemma map_of_butlast:
  assumes "distinct (map fst xs)" "xs \<noteq> []"
  shows "map_of (butlast xs) = map_of xs |` (- {fst (last xs)})"
  using assms
proof (induction xs rule: rev_induct)
  case (snoc x xs)
  then have "map_of xs (fst x) = None"
    by (simp add: map_of_eq_None_iff)
  then show ?case
    by (auto simp: restrict_map_def map_add_def fun_eq_iff split: option.splits)
qed simp

lemma listAdd_law:
  assumes "listWf l" "0 < ll_size l" "listAdd k x l = (ev, l')"
  shows "listWf l' \<and> (\<exists>dropped. k \<notin> dropped \<and> listView l' = (listView l)\<lparr>lv_items :=
      (lv_items (listView l) |` (- dropped))(k \<mapsto> (x, ll_now l + ll_ttl l))\<rparr>
    \<and> (if map_of (ll_items l) k = None \<and> ll_size l \<le> int (card (dom (map_of (ll_items l))))
       then ev \<and> (\<exists>d. dropped = {d} \<and> map_of (ll_items l) d \<noteq> None) else \<not> ev \<and> dropped = {}))"
proof -
  let ?e = "ll_now l + ll_ttl l" and ?xs = "ll_items l"
  have dist: "distinct (map fst ?xs)"
    using assms(1) by (simp add: listWf_def)
  have card: "card (dom (map_of ?xs)) = length ?xs"
    using dist by (metis distinct_card dom_map_of_conv_image_fst length_map list.set_map)
  have dist': "distinct (map fst ((k, x, ?e) # without k ?xs))"
    using dist without_keys [of k ?xs] by (simp add: without_distinct)
  show ?thesis
  proof (cases "map_of ?xs k = None \<and> ll_size l \<le> int (length ?xs)")
    case True
    then have w: "without k ?xs = ?xs" "?xs \<noteq> []"
      using assms(2) by (auto simp: without_absent)
    then have l': "ev" "l' = l\<lparr>ll_items := (k, x, ?e) # butlast ?xs\<rparr>"
      using assms(3) True by (auto simp: listAdd_def Let_def)
    let ?d = "fst (last ?xs)"
    have d: "map_of ?xs ?d \<noteq> None" "?d \<noteq> k"
      using w(2) True by (auto simp: map_of_eq_None_iff)
    have "distinct (map fst ((k, x, ?e) # butlast ?xs))"
      using dist' w by (auto simp: map_butlast distinct_butlast dest: in_set_butlastD)
    then show ?thesis
      using True d l' by (auto simp: listWf_def listView_def card map_of_butlast [OF dist w(2)] intro!: exI [of _ "{?d}"])
  next
    case False
    then have "\<not> (map_of ?xs k = None \<and> ll_size l < int (length ((k, x, ?e) # without k ?xs)))"
      using without_absent [of ?xs k] by fastforce
    then have "\<not> ev" "l' = l\<lparr>ll_items := (k, x, ?e) # without k ?xs\<rparr>"
      using assms(3) unfolding listAdd_def Let_def by (simp_all only: if_False prod.inject, simp_all)
    then show ?thesis
      using False dist' by (auto simp: listWf_def listView_def card)
  qed
qed

interpretation list_lru: lru_api listLib listView listWf
proof unfold_locales
  fix l k x ev l'
  assume a: "listWf l" "0 < lv_size (listView l)" "lru_Add listLib k x l = (ev, l')"
  show "listWf l' \<and> (\<exists>dropped. k \<notin> dropped \<and> listView l' = (listView l)\<lparr>lv_items :=
      (lv_items (listView l) |` (- dropped))(k \<mapsto> (x, lv_now (listView l) + lv_ttl (listView l)))\<rparr>
    \<and> (if lv_items (listView l) k = None \<and> lv_size (listView l) \<le> int (card (dom (lv_items (listView l))))
       then ev \<and> (\<exists>d. dropped = {d} \<and> lv_items (listView l) d \<noteq> None) else \<not> ev \<and> dropped = {}))"
    unfolding listView_sel(2-4) using listAdd_law [of l k x ev l'] a by (simp only: listLib_sel listView_sel)
next
  fix l k r l'
  assume "listWf l" "lru_Get listLib k l = (r, l')"
  then show "listWf l' \<and> listView l' = listView l \<and> r = liveAt (listView l) k"
    by (cases "map_of (ll_items l) k")
      (auto simp: listLib_sel listGet_def listWf_def listView_def liveAt_def without_distinct without_keys
        fun_upd_idem simp del: map_of_eq_Some_iff split: if_splits)
next
  fix l
  assume "listWf l"
  then have "card (dom (map_of (ll_items l))) = length (ll_items l)"
    by (metis distinct_card dom_map_of_conv_image_fst length_map list.set_map listWf_def)
  then show "finite (dom (lv_items (listView l))) \<and> lru_Len listLib l = word_of_nat (card (dom (lv_items (listView l))))"
    by (simp add: listLib_def listView_def finite_dom_map_of)
qed (auto simp: listLib_def listWf_def listView_def without_distinct)

section \<open>Properties\<close>


definition exampleStore :: "(string \<times> string \<times> int) list \<Rightarrow> int \<Rightarrow> listLru Store" where
  "exampleStore items n = \<lparr>lru = \<lparr>ll_items = items, ll_now = 100, ll_size = n, ll_ttl = 60\<rparr>, defaultTTL = 60\<rparr>"


text \<open>
  A new store is empty, has the capacity asked for and always expires: a TTL of zero or less
  becomes one minute and every other TTL is taken as it is. Only a capacity of zero or less
  panics.
\<close>

theorem new_store:
  assumes "lru_api L view repOk"
  shows "(NewStore L capacity ttl l = None \<longleftrightarrow> sint capacity \<le> 0)
    \<and> (\<forall>s. NewStore L capacity ttl l = Some s \<longrightarrow> repOk (lru s) \<and> lv_items (view (lru s)) = (\<lambda>_. None)
        \<and> lv_size (view (lru s)) = sint capacity \<and> sint (Store_Len L s) = 0
        \<and> lv_ttl (view (lru s)) = (if 0 < sint ttl then sint ttl else 60 * Second))"
proof -
  have floor: "sint storeFloor = 60 * Second"
    by (simp add: storeFloor_def Second_def)
  have "repOk (lru s) \<and> lv_items (view (lru s)) = (\<lambda>_. None) \<and> lv_size (view (lru s)) = sint capacity
      \<and> lv_ttl (view (lru s)) = (if 0 < sint ttl then sint ttl else 60 * Second)"
    if "NewStore L capacity ttl l = Some s" for s
    using that lru_api.new [OF assms, of capacity ttl l] lru_api.new [OF assms, of capacity storeFloor l] floor
    by (auto simp: NewStore_def Let_def Second_def split: if_splits)
  then show ?thesis
    using lru_api.len [OF assms] by (auto simp: NewStore_def Store_Len_def Let_def)
qed

theorem new_store_witness:
  "\<exists>s. NewStore listLib 3 0 (lru (exampleStore [] 1)) = Some s \<and> lv_ttl (listView (lru s)) = 60 * Second"
  using new_store [OF list_lru.lru_api_axioms, of 3 0 "lru (exampleStore [] 1)"] by auto

end
