(* ===== verification/Server.thy ===== *)
theory Server
  imports Store
begin

text \<open>
  The tiny-cache server: the handlers of \<open>internal/cache/handlers.go\<close>, the routes and the life
  cycle of \<open>internal/cache/server.go\<close> and the command \<open>cmd/tiny-cache\<close>. Each request makes at most
  one call to the store, which locks itself, so concurrent requests take effect one after the
  other; a run is a sequence of requests, with time passing in between. Log lines are left out.
\<close>

section \<open>Server state\<close>

record ServerConfig =
  sc_Listen :: string
  sc_HasLogger :: bool
  sc_Capacity :: int64
  sc_DefaultTTL :: Duration

record 'l server =
  srv_store :: "'l Store"
  srv_ready :: bool

text \<open>\<open>None\<close> is the panic of \<open>NewStore\<close>.\<close>

definition newServer :: "'l lruLib \<Rightarrow> ServerConfig \<Rightarrow> 'l \<Rightarrow> 'l server option" where
  "newServer L cfg l = (case NewStore L (sc_Capacity cfg) (sc_DefaultTTL cfg) l of
     None \<Rightarrow> None
   | Some st \<Rightarrow> Some \<lparr>srv_store = st, srv_ready = True\<rparr>)"

definition markNotReady :: "'l server \<Rightarrow> 'l server" where
  "markNotReady s = s\<lparr>srv_ready := False\<rparr>"

section \<open>Handlers\<close>

definition maxValueBytes :: int64 where
  "maxValueBytes = push_bit 20 1"

definition handleGet :: "'l lruLib \<Rightarrow> string \<Rightarrow> 'l server \<Rightarrow> Response \<times> 'l server" where
  "handleGet L key s =
     (case Store_Get L key (srv_store s) of
        (None, st) \<Rightarrow> (httpError [] ''not found'' 404, s\<lparr>srv_store := st\<rparr>)
      | (Some value, st) \<Rightarrow>
          (\<lparr>rs_Status = 200, rs_Header = [(''Content-Type'', ''application/octet-stream'')], rs_Body = value\<rparr>,
           s\<lparr>srv_store := st\<rparr>))"

definition noContent :: Response where
  "noContent = \<lparr>rs_Status = 204, rs_Header = [], rs_Body = ''''\<rparr>"

definition handlePut :: "'l lruLib \<Rightarrow> Request \<Rightarrow> string \<Rightarrow> 'l server \<Rightarrow> Response \<times> 'l server" where
  "handlePut L r key s =
     (case readLimited (rq_Body r) (maxValueBytes + 1) of
        Inl e \<Rightarrow> (httpError [] (''read body: '' @ errorText e) 400, s)
      | Inr body \<Rightarrow>
          if sint maxValueBytes < int (length body) then (httpError [] ''value too large'' 413, s)
          else (noContent, s\<lparr>srv_store := snd (Store_Put L key body (srv_store s))\<rparr>))"

definition handleDelete :: "'l lruLib \<Rightarrow> string \<Rightarrow> 'l server \<Rightarrow> Response \<times> 'l server" where
  "handleDelete L key s =
     (case Store_Delete L key (srv_store s) of
        (existed, st) \<Rightarrow>
          (if existed then noContent else httpError [] ''not found'' 404, s\<lparr>srv_store := st\<rparr>))"

definition kvPrefix :: string where
  "kvPrefix = ''/kv/''"

definition kvHandler :: "'l lruLib \<Rightarrow> string \<Rightarrow> Request \<Rightarrow> 'l server \<Rightarrow> Response \<times> 'l server" where
  "kvHandler L urlPath r s =
     (if \<not> HasPrefix urlPath kvPrefix then (httpNotFound, s)
      else let key = TrimPrefix urlPath kvPrefix
        in if key = '''' \<or> CHR ''/'' \<in> set key then (httpError [] ''invalid key'' 400, s)
           else if rq_Method r = ''GET'' then handleGet L key s
           else if rq_Method r = ''PUT'' then handlePut L r key s
           else if rq_Method r = ''DELETE'' then handleDelete L key s
           else (httpError [(''Allow'', ''GET, PUT, DELETE'')] ''method not allowed'' 405, s))"

section \<open>Routes\<close>

datatype route = Healthz | Readyz | KV

definition routes :: "(pattern \<times> route) list" where
  "routes =
     [(\<lparr>pat_Segment = ''healthz'', pat_Subtree = False\<rparr>, Healthz),
      (\<lparr>pat_Segment = ''readyz'', pat_Subtree = False\<rparr>, Readyz),
      (\<lparr>pat_Segment = ''kv'', pat_Subtree = True\<rparr>, KV)]"

definition textReply :: "int \<Rightarrow> string \<Rightarrow> Response" where
  "textReply code msg = \<lparr>rs_Status = code, rs_Header = [], rs_Body = msg @ [char_of (10::nat)]\<rparr>"

definition readyzHandler :: "'l server \<Rightarrow> Response" where
  "readyzHandler s = (if \<not> srv_ready s then textReply 503 ''not ready'' else textReply 200 ''ready'')"

text \<open>
  A request through \<open>net/http\<close>: a target that does not unescape is answered by the library, the
  others go through the mux.
\<close>

definition serveHTTP :: "'l lruLib \<Rightarrow> Request \<Rightarrow> 'l server \<Rightarrow> Response \<times> 'l server" where
  "serveHTTP L r s =
     (case pathUnescape (rq_EscapedPath r) of
        None \<Rightarrow> (\<lparr>rs_Status = 400, rs_Header = [(''Content-Type'', ''text/plain; charset=utf-8''), (''Connection'', ''close'')],
                   rs_Body = ''400 Bad Request''\<rparr>, s)
      | Some urlPath \<Rightarrow>
          (case findHandler routes r urlPath of
             NoHandler \<Rightarrow> (httpNotFound, s)
           | MovedTo path \<Rightarrow> (movedPermanently path (rq_RawQuery r), s)
           | Handler Healthz \<Rightarrow> (textReply 200 ''ok'', s)
           | Handler Readyz \<Rightarrow> (readyzHandler s, s)
           | Handler KV \<Rightarrow> kvHandler L urlPath r s))"

section \<open>Life cycle\<close>

definition ErrServerClosed :: goerr where
  "ErrServerClosed = OtherErr ''http: Server closed''"

fun errorsIs :: "goerr \<Rightarrow> goerr \<Rightarrow> bool" where
  "errorsIs (Wrapped p e) target \<longleftrightarrow> Wrapped p e = target \<or> errorsIs e target"
| "errorsIs e target \<longleftrightarrow> e = target"

text \<open>What the listening goroutine sends for the error \<open>ListenAndServe\<close> returned.\<close>

definition listenResult :: "goerr \<Rightarrow> goerr option" where
  "listenResult e = (if errorsIs e ErrServerClosed then None else Some e)"

text \<open>
  What happens to the server from outside: requests arrive, and the LRU gets into another state
  by the passing of time.
\<close>

datatype 'l event = Arrives Request | Idles 'l

definition handleEvent :: "'l lruLib \<Rightarrow> 'l event \<Rightarrow> 'l server \<Rightarrow> 'l server" where
  "handleEvent L ev s = (case ev of
     Arrives r \<Rightarrow> snd (serveHTTP L r s)
   | Idles l \<Rightarrow> s\<lparr>srv_store := (srv_store s)\<lparr>lru := l\<rparr>\<rparr>)"

text \<open>
  The choices of the environment: the events until the \<open>select\<close> returns, which of its cases is
  taken, the events during \<open>Shutdown\<close>, what \<open>Shutdown\<close> returns within its 15 seconds, and the
  error \<open>ListenAndServe\<close> returns after it.
\<close>

datatype selected = CtxDone | ListenErr goerr

record 'l runEnv =
  re_events :: "'l event list"
  re_select :: selected
  re_draining :: "'l event list"
  re_Shutdown :: "goerr option"
  re_Listen :: goerr

definition serverRun ::
  "'l lruLib \<Rightarrow> ServerConfig \<Rightarrow> 'l runEnv \<Rightarrow> 'l \<Rightarrow> (goerr option \<times> 'l server option) option" where
  "serverRun L cfg env l =
     (if \<not> sc_HasLogger cfg then Some (Some (OtherErr ''Config.Logger is required''), None)
      else if sc_Listen cfg = '''' then Some (Some (OtherErr ''Config.Listen is required''), None)
      else if sint (sc_Capacity cfg) \<le> 0 then Some (Some (OtherErr ''Config.Capacity must be > 0''), None)
      else case newServer L cfg l of
        None \<Rightarrow> None
      | Some srv \<Rightarrow>
          (let srv = fold (handleEvent L) (re_events env) srv
           in case re_select env of
             ListenErr e \<Rightarrow>
               (case listenResult e of
                  Some e \<Rightarrow> Some (Some (Wrapped ''listen'' e), Some srv)
                | None \<Rightarrow> Some (None, Some srv))
           | CtxDone \<Rightarrow>
               (let srv = fold (handleEvent L) (re_draining env) (markNotReady srv)
                in case re_Shutdown env of
                     Some e \<Rightarrow> Some (Some (Wrapped ''shutdown'' e), Some srv)
                   | None \<Rightarrow> Some (listenResult (re_Listen env), Some srv))))"

text \<open>The command: its flags, and its exit code with what it prints on standard error.\<close>

record tinyCacheFlags =
  tf_listen :: string
  tf_capacity :: int64
  tf_defaultTTL :: Duration

definition tinyCacheDefaults :: tinyCacheFlags where
  "tinyCacheDefaults = \<lparr>tf_listen = '':8080'', tf_capacity = 100000, tf_defaultTTL = word_of_int (5 * 60 * Second)\<rparr>"

definition tinyCacheConfig :: "tinyCacheFlags \<Rightarrow> ServerConfig" where
  "tinyCacheConfig f = \<lparr>sc_Listen = tf_listen f, sc_HasLogger = True, sc_Capacity = tf_capacity f,
     sc_DefaultTTL = tf_defaultTTL f\<rparr>"

definition tinyCacheMain :: "'l lruLib \<Rightarrow> tinyCacheFlags \<Rightarrow> 'l runEnv \<Rightarrow> 'l \<Rightarrow> (int \<times> string) option" where
  "tinyCacheMain L f env l =
     (case serverRun L (tinyCacheConfig f) env l of
        None \<Rightarrow> None
      | Some (Some e, _) \<Rightarrow> Some (1, ''tiny-cache: '' @ errorText e @ [char_of (10::nat)])
      | Some (None, _) \<Rightarrow> Some (0, ''''))"

section \<open>Requests for keys\<close>

text \<open>The key a request is about, if it gets as far as the store by its target.\<close>

definition addressedKey :: "Request \<Rightarrow> string option" where
  "addressedKey r =
     (case pathUnescape (rq_EscapedPath r) of
        None \<Rightarrow> None
      | Some urlPath \<Rightarrow>
          if findHandler routes r urlPath = Handler KV \<and> HasPrefix urlPath kvPrefix
            \<and> TrimPrefix urlPath kvPrefix \<noteq> '''' \<and> CHR ''/'' \<notin> set (TrimPrefix urlPath kvPrefix)
          then Some (TrimPrefix urlPath kvPrefix) else None)"

lemma maxValueBytes_sint [simp]: "sint maxValueBytes = 2 ^ 20" "sint (maxValueBytes + 1) = 2 ^ 20 + 1"
  by (simp_all add: maxValueBytes_def)

lemma serveHTTP_addressed:
  assumes "addressedKey r = Some key"
  shows "serveHTTP L r s =
    (if rq_Method r = ''GET'' then handleGet L key s
     else if rq_Method r = ''PUT'' then handlePut L r key s
     else if rq_Method r = ''DELETE'' then handleDelete L key s
     else (httpError [(''Allow'', ''GET, PUT, DELETE'')] ''method not allowed'' 405, s))"
  using assms by (auto simp: addressedKey_def serveHTTP_def kvHandler_def Let_def split: option.splits if_splits)

lemma serveHTTP_unaddressed:
  assumes "addressedKey r = None" "serveHTTP L r s = (resp, s')"
  shows "s' = s \<and> rs_Status resp \<in> {200, 301, 400, 404, 503}"
  using assms by (auto simp: addressedKey_def serveHTTP_def kvHandler_def Let_def readyzHandler_def textReply_def
      split: option.splits if_splits dispatch.splits route.splits)

lemma readLimited_cases:
  "readLimited b (maxValueBytes + 1) =
     (if 2 ^ 20 < length (br_Bytes b) then Inr (take (2 ^ 20 + 1) (br_Bytes b))
      else case br_Err b of Some e \<Rightarrow> Inl e | None \<Rightarrow> Inr (br_Bytes b))"
  by (auto simp: readLimited_def nat_add_distrib split: option.splits)

lemma handlePut_cases:
  "handlePut L r key s =
     (if 2 ^ 20 < length (br_Bytes (rq_Body r)) then (httpError [] ''value too large'' 413, s)
      else case br_Err (rq_Body r) of
        Some e \<Rightarrow> (httpError [] (''read body: '' @ errorText e) 400, s)
      | None \<Rightarrow> (noContent, s\<lparr>srv_store := snd (Store_Put L key (br_Bytes (rq_Body r)) (srv_store s))\<rparr>))"
  unfolding handlePut_def readLimited_cases by (auto split: option.splits)

lemma writtenPath_kv:
  assumes "writtenPath (kvPrefix @ key) = Some e" "plainElem key" "CHR ''%'' \<notin> set key"
  obtains k where "e = CHR ''/'' # ''kv'' @ CHR ''/'' # k" "plainElem k"
proof (cases "validEncoded (kvPrefix @ key)")
  case True
  then have "e = kvPrefix @ key"
    using assms(1) by (auto simp: writtenPath_def split: option.splits)
  with that [of key] assms(2) show thesis
    by (simp add: kvPrefix_def)
next
  case False
  have "pathUnescape (kvPrefix @ key) = Some (kvPrefix @ key)"
    using assms(3) by (intro pathUnescape_plain) (simp add: kvPrefix_def)
  then have "e = escapePath (kvPrefix @ key)"
    using assms(1) False by (simp add: writtenPath_def)
  moreover have "escapePath kvPrefix = kvPrefix"
    by code_simp
  ultimately show thesis
    using that [of "escapePath key"] plainElem_escapePath [OF assms(2)]
    by (simp add: escapePath_append) (simp add: kvPrefix_def)
qed

text \<open>A plain key reaches the handler as it is, however it has to be escaped on the way.\<close>

lemma addressedKey_plain:
  assumes "writtenPath (kvPrefix @ key) = Some (rq_EscapedPath r)" "plainElem key" "CHR ''%'' \<notin> set key"
  shows "addressedKey r = Some key"
proof -
  let ?e = "rq_EscapedPath r"
  have "CHR ''%'' \<notin> set (kvPrefix @ key)"
    using assms(3) by (simp add: kvPrefix_def)
  then have u: "pathUnescape ?e = Some (kvPrefix @ key)"
    using writtenPath_unescapes [OF assms(1)] pathUnescape_plain by metis
  obtain k where e: "?e = CHR ''/'' # ''kv'' @ CHR ''/'' # k" and k: "plainElem k"
    using writtenPath_kv [OF assms] .
  have clean: "cleanPath ?e = ?e"
    unfolding e by (rule cleanPath_plain [OF _ k]) (simp add: plainElem_def)
  have "firstSegment ?e = (''kv'', CHR ''/'' # k)"
    unfolding e by (rule firstSegment_plain) simp_all
  then have m: "muxMatch routes ?e = Some (\<lparr>pat_Segment = ''kv'', pat_Subtree = True\<rparr>, KV)"
    by (simp add: muxMatch_def routes_def matches_def)
  have "firstSegment (?e @ ''/'') = (''kv'', CHR ''/'' # k @ ''/'')"
    using firstSegment_plain [of "''kv''" "k @ ''/''"] by (simp add: e)
  then have m': "muxMatch routes (?e @ ''/'') = Some (\<lparr>pat_Segment = ''kv'', pat_Subtree = True\<rparr>, KV)"
    by (simp add: muxMatch_def routes_def matches_def)
  have "count_list (?e @ ''/'') (CHR ''/'') = 3"
    using k by (simp add: e plainElem_def)
  then have "findHandler routes r (kvPrefix @ key) = Handler KV"
    using clean m m' by (auto simp: findHandler_def exactMatch_def Let_def)
  then show ?thesis
    using u assms(2) by (simp add: addressedKey_def plainElem_def)
qed

end
