(* ===== verification/Serving.thy ===== *)
theory Serving
  imports Server
begin

text \<open>
  Runs of the cache server over an LRU that keeps its contract: what it may answer, how much it
  holds, and that it stops being ready once and for all.
\<close>

section \<open>Runs\<close>

abbreviation lruOf :: "'l server \<Rightarrow> 'l" where
  "lruOf s \<equiv> lru (srv_store s)"

text \<open>
  The specification of the contents: for each key the value of the last accepted PUT, with its
  time, unless a DELETE was accepted since.
\<close>

definition noted :: "int \<Rightarrow> Request \<Rightarrow> Response \<Rightarrow> (string \<Rightarrow> (string \<times> int) option) \<Rightarrow> string \<Rightarrow> (string \<times> int) option" where
  "noted now r resp m = (case addressedKey r of
     None \<Rightarrow> m
   | Some key \<Rightarrow>
       if rs_Status resp \<noteq> 204 then m
       else if rq_Method r = ''PUT'' then m(key \<mapsto> (br_Bytes (rq_Body r), now))
       else m(key := None))"

inductive served ::
  "'l lruLib \<Rightarrow> ('l \<Rightarrow> lruView) \<Rightarrow> ('l \<Rightarrow> bool) \<Rightarrow> ServerConfig \<Rightarrow> 'l server \<Rightarrow> (string \<Rightarrow> (string \<times> int) option) \<Rightarrow> bool"
  for L view repOk cfg where
  start: "newServer L cfg l = Some s \<Longrightarrow> served L view repOk cfg s (\<lambda>_. None)"
| request: "served L view repOk cfg s m \<Longrightarrow> serveHTTP L r s = (resp, s') \<Longrightarrow>
    served L view repOk cfg s' (noted (lv_now (view (lruOf s))) r resp m)"
| idle: "served L view repOk cfg s m \<Longrightarrow> idles (view (lruOf s)) (view l') \<Longrightarrow> repOk l' \<Longrightarrow>
    served L view repOk cfg (s\<lparr>srv_store := (srv_store s)\<lparr>lru := l'\<rparr>\<rparr>) m"
| drain: "served L view repOk cfg s m \<Longrightarrow> served L view repOk cfg (markNotReady s) m"

definition effectiveTTL :: "ServerConfig \<Rightarrow> int" where
  "effectiveTTL cfg = (if 0 < sint (sc_DefaultTTL cfg) then sint (sc_DefaultTTL cfg) else 60 * Second)"

definition holds :: "ServerConfig \<Rightarrow> lruView \<Rightarrow> (string \<Rightarrow> (string \<times> int) option) \<Rightarrow> bool" where
  "holds cfg v m \<longleftrightarrow> lv_size v = sint (sc_Capacity cfg) \<and> 0 < lv_size v \<and> lv_ttl v = effectiveTTL cfg
     \<and> int (card (dom (lv_items v))) \<le> lv_size v
     \<and> (\<forall>k x e. lv_items v k = Some (x, e) \<longrightarrow> m k = Some (x, e - lv_ttl v) \<and> length x \<le> 2 ^ 20)"

lemma effectiveTTL_pos: "0 < effectiveTTL cfg"
  by (simp add: effectiveTTL_def Second_def)

lemma holds_sub:
  assumes "holds cfg v m" "lv_items v' \<subseteq>\<^sub>m lv_items v" "lv_size v' = lv_size v" "lv_ttl v' = lv_ttl v"
    and "finite (dom (lv_items v))"
  shows "holds cfg v' m"
proof -
  have "card (dom (lv_items v')) \<le> card (dom (lv_items v))"
    using assms(2,5) by (intro card_mono) (auto simp: map_le_implies_dom_le)
  moreover have "lv_items v' k = Some p \<Longrightarrow> lv_items v k = Some p" for k p
    using assms(2) by (metis domI map_le_def)
  ultimately show ?thesis
    using assms(1,3,4) by (simp add: holds_def) blast
qed

context lru_api
begin

lemma newServer_holds:
  assumes "newServer L cfg l = Some s"
  shows "repOk (lruOf s) \<and> holds cfg (view (lruOf s)) (\<lambda>_. None)"
proof -
  have pos: "0 < sint (sc_Capacity cfg)"
    using assms by (auto simp: newServer_def NewStore_def split: if_splits)
  have f: "sint storeFloor = 60 * Second"
    by (simp add: storeFloor_def Second_def)
  show ?thesis
    using assms pos new [OF pos, of "sc_DefaultTTL cfg" l] new [OF pos, of storeFloor l] f
    by (auto simp: newServer_def NewStore_def Let_def holds_def effectiveTTL_def Second_def split: if_splits)
qed

lemma handlePut_holds:
  assumes "repOk (lruOf s)" "holds cfg (view (lruOf s)) m" "length x \<le> 2 ^ 20"
    and "s' = s\<lparr>srv_store := snd (Store_Put L key x (srv_store s))\<rparr>"
  shows "repOk (lruOf s') \<and> holds cfg (view (lruOf s')) (m(key \<mapsto> (x, lv_now (view (lruOf s)))))"
proof -
  obtain ev l' where l': "lru_Add L key x (lruOf s) = (ev, l')"
    by (cases "lru_Add L key x (lruOf s)")
  then have s': "lruOf s' = l'"
    by (simp add: assms(4) Store_Put_def)
  have pos: "0 < lv_size (view (lruOf s))" and "int (card (dom (lv_items (view (lruOf s))))) \<le> lv_size (view (lruOf s))"
    using assms(2) by (simp_all add: holds_def)
  then have card: "int (card (dom (lv_items (view l')))) \<le> lv_size (view l')"
    using add_bounded [OF assms(1) _ l'] by blast
  obtain dropped where ok: "repOk l'" and v: "view l' = (view (lruOf s))\<lparr>lv_items :=
      (lv_items (view (lruOf s)) |` (- dropped))(key \<mapsto> (x, lv_now (view (lruOf s)) + lv_ttl (view (lruOf s))))\<rparr>"
    using add [OF assms(1) pos l'] by blast
  show ?thesis
    using assms(2,3) ok card unfolding s' holds_def
    by (auto simp: v restrict_map_def simp del: dom_fun_upd split: if_splits)
qed

lemma serveHTTP_holds:
  assumes "repOk (lruOf s)" "holds cfg (view (lruOf s)) m" "serveHTTP L r s = (resp, s')"
  shows "repOk (lruOf s') \<and> holds cfg (view (lruOf s')) (noted (lv_now (view (lruOf s))) r resp m)"
proof (cases "addressedKey r")
  case None
  then show ?thesis
    using serveHTTP_unaddressed [OF None assms(3)] assms(1,2) by (simp add: noted_def)
next
  case (Some key)
  note run = assms(3) [unfolded serveHTTP_addressed [OF Some]]
  have fin: "finite (dom (lv_items (view (lruOf s))))"
    using len [OF assms(1)] by blast
  consider "rq_Method r = ''GET''" | "rq_Method r = ''PUT''" | "rq_Method r = ''DELETE''"
    | "s' = s" "rs_Status resp = 405"
    using run by (auto split: if_splits)
  then show ?thesis
  proof cases
    case 1
    then have "\<exists>v l'. lru_Get L key (lruOf s) = (v, l') \<and> lruOf s' = l' \<and> rs_Status resp \<noteq> 204"
      using run by (auto simp: handleGet_def Store_Get_def split: prod.splits option.splits)
    then show ?thesis
      using get [OF assms(1)] assms(2) Some by (auto simp: noted_def)
  next
    case 2
    show ?thesis
    proof (cases "rs_Status resp = 204")
      case True
      then have "length (br_Bytes (rq_Body r)) \<le> 2 ^ 20"
        "s' = s\<lparr>srv_store := snd (Store_Put L key (br_Bytes (rq_Body r)) (srv_store s))\<rparr>"
        using run 2 by (auto simp: handlePut_cases split: if_splits option.splits)
      from handlePut_holds [OF assms(1,2) this] True 2 Some show ?thesis
        by (simp add: noted_def)
    next
      case False
      then have "s' = s"
        using run 2 by (auto simp: handlePut_cases noContent_def split: if_splits option.splits)
      with False assms(1,2) Some show ?thesis
        by (simp add: noted_def)
    qed
  next
    case 3
    then obtain present l' where l': "lru_Remove L key (lruOf s) = (present, l')" "lruOf s' = l'"
      "rs_Status resp = (if present then 204 else 404)"
      using run by (auto simp: handleDelete_def Store_Delete_def noContent_def split: prod.splits)
    have v: "repOk l'" "view l' = (view (lruOf s))\<lparr>lv_items := (lv_items (view (lruOf s)))(key := None)\<rparr>"
      "present = (lv_items (view (lruOf s)) key \<noteq> None)"
      using remove [OF assms(1) l'(1)] by blast+
    have "holds cfg (view l') m"
      by (rule holds_sub [OF assms(2) _ _ _ fin]) (auto simp: v(2) map_le_def)
    then have "holds cfg (view l') (m(key := None))"
      by (auto simp: holds_def v(2))
    then show ?thesis
      using \<open>holds cfg (view l') m\<close> v(1) l'(2,3) 3 Some by (simp add: noted_def)
  next
    case 4
    with assms(1,2) Some show ?thesis
      by (simp add: noted_def)
  qed
qed

lemma served_holds:
  "served L view repOk cfg s m \<Longrightarrow> repOk (lruOf s) \<and> holds cfg (view (lruOf s)) m"
proof (induction rule: served.induct)
  case (start l s)
  then show ?case by (rule newServer_holds)
next
  case (request s m r resp s')
  then show ?case by (intro serveHTTP_holds) simp_all
next
  case (idle s m l')
  then show ?case
    using holds_sub [of cfg "view (lruOf s)" m "view l'"] len [of "lruOf s"] by (simp add: idles_def)
next
  case (drain s m)
  then show ?case by (simp add: markNotReady_def)
qed

lemma put_get:
  assumes "served L view repOk cfg s m"
    and "plainElem key" "CHR ''%'' \<notin> set key"
    and "writtenPath (kvPrefix @ key) = Some (rq_EscapedPath put)" "rq_Method put = ''PUT''"
    and "length (br_Bytes (rq_Body put)) \<le> 2 ^ 20" "br_Err (rq_Body put) = None"
    and "rq_EscapedPath gt = rq_EscapedPath put" "rq_Method gt = ''GET''"
    and "serveHTTP L put s = (resp, s')"
  shows "resp = noContent \<and> fst (serveHTTP L gt s') =
    \<lparr>rs_Status = 200, rs_Header = [(''Content-Type'', ''application/octet-stream'')], rs_Body = br_Bytes (rq_Body put)\<rparr>"
proof -
  have inv: "repOk (lruOf s)" "holds cfg (view (lruOf s)) m"
    using served_holds [OF assms(1)] by blast+
  have a: "addressedKey put = Some key" "addressedKey gt = Some key"
    using addressedKey_plain [OF _ assms(2,3)] assms(4,8) by simp_all
  have r: "resp = noContent" "s' = s\<lparr>srv_store := snd (Store_Put L key (br_Bytes (rq_Body put)) (srv_store s))\<rparr>"
    using assms(10,5,6,7) by (simp_all add: serveHTTP_addressed [OF a(1)] handlePut_cases)
  obtain ev l' where l': "lru_Add L key (br_Bytes (rq_Body put)) (lruOf s) = (ev, l')"
    by (cases "lru_Add L key (br_Bytes (rq_Body put)) (lruOf s)")
  have pos: "0 < lv_size (view (lruOf s))" "0 < lv_ttl (view (lruOf s))"
    using inv(2) effectiveTTL_pos [of cfg] by (simp_all add: holds_def)
  have ok: "repOk l'" "liveAt (view l') key = Some (br_Bytes (rq_Body put))"
    using add [OF inv(1) pos(1) l'] pos(2) by (auto simp: liveAt_def)
  obtain v l2 where g: "lru_Get L key l' = (v, l2)"
    by (cases "lru_Get L key l'")
  have "v = Some (br_Bytes (rq_Body put))"
    using get [OF ok(1) g] ok(2) by simp
  then show ?thesis
    using r l' g assms(9) by (simp add: serveHTTP_addressed [OF a(2)] handleGet_def Store_Get_def Store_Put_def)
qed

end

section \<open>Readiness\<close>

lemma serveHTTP_ready: "srv_ready (snd (serveHTTP L r s)) = srv_ready s"
proof (cases "addressedKey r")
  case None
  then show ?thesis
    using serveHTTP_unaddressed [OF None, of L s] by (metis prod.collapse)
next
  case (Some key)
  show ?thesis
    unfolding serveHTTP_addressed [OF Some]
    by (auto simp: handleGet_def handlePut_cases handleDelete_def split: prod.splits option.splits)
qed

lemma handleEvents_ready: "srv_ready (fold (handleEvent L) evs s) = srv_ready s"
  by (induction evs arbitrary: s) (auto simp: handleEvent_def serveHTTP_ready split: event.splits)

section \<open>Properties\<close>

text \<open>
  C19: the cache never serves a wrong or an outdated value. In every run, a GET for a key is
  answered by 404, or by 200 with the value of the last PUT accepted for that key, if no DELETE
  was accepted since and the PUT is not older than the TTL. Evictions, expiry and other keys
  only ever turn an answer into 404.
\<close>

theorem cache_serves_last_put:
  assumes "lru_api L view repOk" "served L view repOk cfg s m"
    and "addressedKey r = Some key" "rq_Method r = ''GET''" "serveHTTP L r s = (resp, s')"
  shows "rs_Status resp = 404 \<or> rs_Status resp = 200 \<and>
    (\<exists>t. m key = Some (rs_Body resp, t) \<and> lv_now (view (lruOf s)) \<le> t + effectiveTTL cfg)"
proof -
  have inv: "repOk (lruOf s)" "holds cfg (view (lruOf s)) m"
    using lru_api.served_holds [OF assms(1,2)] by blast+
  obtain v l' where g: "lru_Get L key (lruOf s) = (v, l')"
    by (cases "lru_Get L key (lruOf s)")
  have v: "v = liveAt (view (lruOf s)) key"
    using lru_api.get [OF assms(1) inv(1) g] by blast
  show ?thesis
  proof (cases v)
    case None
    then show ?thesis
      using assms(5) g by (auto simp: serveHTTP_addressed [OF assms(3)] assms(4) handleGet_def Store_Get_def)
  next
    case (Some x)
    then have "rs_Status resp = 200" "rs_Body resp = x"
      using assms(5) g by (auto simp: serveHTTP_addressed [OF assms(3)] assms(4) handleGet_def Store_Get_def)
    moreover obtain e where "lv_items (view (lruOf s)) key = Some (x, e)" "lv_now (view (lruOf s)) \<le> e"
      using Some v by (auto simp: liveAt_def split: option.splits if_splits)
    ultimately show ?thesis
      using inv(2) by (auto simp: holds_def)
  qed
qed

definition keyRequest :: "string \<Rightarrow> string \<Rightarrow> string \<Rightarrow> Request" where
  "keyRequest method key body = \<lparr>rq_Method = method, rq_EscapedPath = kvPrefix @ key, rq_RawQuery = '''',
     rq_Body = \<lparr>br_Bytes = body, br_Err = None\<rparr>\<rparr>"

definition smallConfig :: ServerConfig where
  "smallConfig = \<lparr>sc_Listen = '':8080'', sc_HasLogger = True, sc_Capacity = 2, sc_DefaultTTL = 60\<rparr>"

definition smallServer :: "listLru server" where
  "smallServer = the (newServer listLib smallConfig (lru (exampleStore [] 1)))"

lemma smallServer_served: "served listLib listView listWf smallConfig smallServer (\<lambda>_. None)"
proof -
  have "newServer listLib smallConfig (lru (exampleStore [] 1)) \<noteq> None"
    by (simp add: newServer_def NewStore_def smallConfig_def Let_def)
  then show ?thesis
    unfolding smallServer_def by (intro served.start) auto
qed

lemma keyRequest_addressed [simp]: "addressedKey (keyRequest method ''k'' body) = Some ''k''"
proof (rule addressedKey_plain)
  show "writtenPath (kvPrefix @ ''k'') = Some (rq_EscapedPath (keyRequest method ''k'' body))"
    unfolding keyRequest_def Request.select_convs by code_simp
qed (simp_all add: plainElem_def)

lemma keyRequest_sel [simp]: "rq_Method (keyRequest method k body) = method"
  "rq_Body (keyRequest method k body) = \<lparr>br_Bytes = body, br_Err = None\<rparr>"
  by (simp_all add: keyRequest_def)

theorem cache_serves_last_put_witness:
  "let (p, s) = serveHTTP listLib (keyRequest ''PUT'' ''k'' ''v'') smallServer;
       (resp, s') = serveHTTP listLib (keyRequest ''GET'' ''k'' '''') s
   in rs_Status p = 204 \<and> (rs_Status resp = 404 \<or> rs_Body resp = ''v'')"
proof -
  let ?r = "keyRequest ''PUT'' ''k'' ''v''"
  obtain p s where p: "serveHTTP listLib ?r smallServer = (p, s)"
    by (cases "serveHTTP listLib ?r smallServer")
  obtain resp s' where g: "serveHTTP listLib (keyRequest ''GET'' ''k'' '''') s = (resp, s')"
    by (cases "serveHTTP listLib (keyRequest ''GET'' ''k'' '''') s")
  have "rs_Status p = 204"
    using p by (auto simp: serveHTTP_addressed handlePut_cases noContent_def)
  with cache_serves_last_put [OF list_lru.lru_api_axioms served.request [OF smallServer_served p] _ _ g, of "''k''"] p g
  show ?thesis
    by (auto simp: noted_def)
qed



text \<open>
  C21: what is put is got. On a running server, an accepted PUT followed at once by a GET for the
  same key returns 200 with the bytes that were put, also when the store is full. The key may be
  any non-empty string without \<open>/\<close> and \<open>%\<close> other than \<open>.\<close> and \<open>..\<close>, escaped in
  the target as \<open>net/url\<close> escapes it.
\<close>

theorem put_get_roundtrip:
  assumes "lru_api L view repOk" "served L view repOk cfg s m"
    and "plainElem key" "CHR ''%'' \<notin> set key"
    and "writtenPath (kvPrefix @ key) = Some (rq_EscapedPath put)" "rq_Method put = ''PUT''"
    and "length (br_Bytes (rq_Body put)) \<le> 2 ^ 20" "br_Err (rq_Body put) = None"
    and "rq_EscapedPath get = rq_EscapedPath put" "rq_Method get = ''GET''"
    and "serveHTTP L put s = (resp, s')"
  shows "resp = noContent \<and> fst (serveHTTP L get s') =
    \<lparr>rs_Status = 200, rs_Header = [(''Content-Type'', ''application/octet-stream'')], rs_Body = br_Bytes (rq_Body put)\<rparr>"
  using assms by (intro lru_api.put_get) simp_all

theorem put_get_roundtrip_witness:
  "rs_Body (fst (serveHTTP listLib (keyRequest ''GET'' ''k'' '''')
     (snd (serveHTTP listLib (keyRequest ''PUT'' ''k'' ''v'') smallServer)))) = ''v''"
proof -
  let ?r = "keyRequest ''PUT'' ''k'' ''v''"
  have "writtenPath (kvPrefix @ ''k'') = Some (rq_EscapedPath ?r)"
    by code_simp
  moreover have "plainElem ''k''" "CHR ''%'' \<notin> set ''k''"
    by (simp_all add: plainElem_def)
  ultimately show ?thesis
    using put_get_roundtrip [OF list_lru.lru_api_axioms smallServer_served, of "''k''" ?r "keyRequest ''GET'' ''k'' ''''"
        "fst (serveHTTP listLib ?r smallServer)" "snd (serveHTTP listLib ?r smallServer)"]
    by (simp add: keyRequest_def)
qed

text \<open>
  C24: refused requests change nothing. Whatever the LRU does, a request changes the server only if
  its target names a valid key and its method is GET, PUT or DELETE. A PUT for a key is answered
  by 413 exactly when its body is longer than one MiB, however long it is and whatever follows;
  by 400 exactly when a shorter body fails to be read; and by 204 otherwise. The first two leave
  the server as it was. Any other method gets 405.
\<close>

theorem refused_requests_change_nothing:
  assumes "serveHTTP L r s = (resp, s')"
  shows "(s' \<noteq> s \<longrightarrow> (\<exists>key. addressedKey r = Some key) \<and> rq_Method r \<in> {''GET'', ''PUT'', ''DELETE''}
            \<and> rs_Status resp \<in> {200, 204, 404})
    \<and> (\<forall>key. addressedKey r = Some key \<longrightarrow> rq_Method r = ''PUT'' \<longrightarrow>
         rs_Status resp = (if 2 ^ 20 < length (br_Bytes (rq_Body r)) then 413
           else if br_Err (rq_Body r) \<noteq> None then 400 else 204)
         \<and> (rs_Status resp \<noteq> 204 \<longrightarrow> s' = s))
    \<and> (\<forall>key. addressedKey r = Some key \<longrightarrow> rq_Method r \<notin> {''GET'', ''PUT'', ''DELETE''} \<longrightarrow>
         rs_Status resp = 405 \<and> mapGet (rs_Header resp) ''Allow'' = Some ''GET, PUT, DELETE'' \<and> s' = s)"
proof (cases "addressedKey r")
  case None
  then show ?thesis
    using serveHTTP_unaddressed [OF None assms] by simp
next
  case (Some key)
  show ?thesis
    using assms unfolding serveHTTP_addressed [OF Some]
    by (auto simp: handleGet_def handlePut_cases handleDelete_def noContent_def httpError_def Some
        split: prod.splits option.splits if_splits)
qed

theorem refused_requests_change_nothing_witness:
  "let (resp, s') = serveHTTP listLib (keyRequest ''PUT'' ''k'' (replicate (2 ^ 20 + 1) (CHR ''x''))) smallServer
   in rs_Status resp = 413 \<and> s' = smallServer"
proof -
  let ?r = "keyRequest ''PUT'' ''k'' (replicate (2 ^ 20 + 1) (CHR ''x''))"
  obtain resp s' where run: "serveHTTP listLib ?r smallServer = (resp, s')"
    by (cases "serveHTTP listLib ?r smallServer")
  have "2 ^ 20 < length (br_Bytes (rq_Body ?r))"
    unfolding keyRequest_sel by (simp only: bodyReader.select_convs length_replicate)
  then have "rs_Status resp = 413" "s' = smallServer"
    using refused_requests_change_nothing [OF run] keyRequest_addressed [of "''PUT''"] keyRequest_sel(1) by (metis (no_types) num.distinct(5) numeral_eq_iff)+
  with run show ?thesis
    by (simp only: Let_def prod.case simp_thms)
qed

text \<open>
  C38: the life of the server. With an address and a positive capacity \<open>Run\<close> never panics.
  A cancelled context makes it return nil exactly if \<open>Shutdown\<close> succeeds and the listener
  ended because of it, and leaves the server not ready; otherwise it stays ready to the end. A
  listener that fails first makes it return that error. The command exits with 1 exactly if
  \<open>Run\<close> fails.
\<close>

theorem serverRun_outcome:
  assumes "tf_listen f \<noteq> ''''" "0 < sint (tf_capacity f)"
  shows "\<exists>err s. serverRun L (tinyCacheConfig f) env l = Some (err, Some s)
    \<and> (srv_ready s \<longleftrightarrow> re_select env \<noteq> CtxDone)
    \<and> (re_select env = CtxDone \<longrightarrow>
        (err = None \<longleftrightarrow> re_Shutdown env = None \<and> errorsIs (re_Listen env) ErrServerClosed))
    \<and> (\<forall>e. re_select env = ListenErr e \<longrightarrow>
        err = (if errorsIs e ErrServerClosed then None else Some (Wrapped ''listen'' e)))
    \<and> (\<exists>msg. tinyCacheMain L f env l = Some (if err = None then 0 else 1, msg))"
proof -
  have cfg: "sc_HasLogger (tinyCacheConfig f)" "sc_Listen (tinyCacheConfig f) \<noteq> ''''"
    "0 < sint (sc_Capacity (tinyCacheConfig f))"
    using assms by (simp_all add: tinyCacheConfig_def)
  obtain s0 where s0: "newServer L (tinyCacheConfig f) l = Some s0" "srv_ready s0"
    using cfg(3) by (auto simp: newServer_def NewStore_def Let_def)
  define s1 where "s1 = fold (handleEvent L) (re_events env) s0"
  have main: "\<exists>msg. tinyCacheMain L f env l = Some (if err = None then 0 else 1, msg)"
    if "serverRun L (tinyCacheConfig f) env l = Some (err, Some s)" for err s
    using that by (cases err) (simp_all add: tinyCacheMain_def)
  show ?thesis
  proof (cases "re_select env")
    case CtxDone
    define s2 where "s2 = fold (handleEvent L) (re_draining env) (markNotReady s1)"
    have run: "serverRun L (tinyCacheConfig f) env l = Some (case re_Shutdown env of
        Some e \<Rightarrow> Some (Wrapped ''shutdown'' e) | None \<Rightarrow> listenResult (re_Listen env), Some s2)"
      using cfg s0(1) CtxDone by (simp add: serverRun_def Let_def s1_def s2_def split: option.splits)
    have "\<not> srv_ready s2"
      by (simp add: s2_def handleEvents_ready markNotReady_def)
    with run main [OF run] CtxDone show ?thesis
      by (auto simp: listenResult_def split: option.splits if_splits)
  next
    case (ListenErr e)
    have run: "serverRun L (tinyCacheConfig f) env l =
        Some (if errorsIs e ErrServerClosed then None else Some (Wrapped ''listen'' e), Some s1)"
      using cfg s0(1) ListenErr by (simp add: serverRun_def Let_def s1_def listenResult_def)
    have "srv_ready s1"
      by (simp add: s1_def handleEvents_ready s0(2))
    with run main [OF run] ListenErr show ?thesis
      by auto
  qed
qed

theorem serverRun_outcome_witness:
  "\<exists>msg. tinyCacheMain listLib tinyCacheDefaults \<lparr>re_events = [], re_select = CtxDone, re_draining = [],
     re_Shutdown = None, re_Listen = ErrServerClosed\<rparr> (lru (exampleStore [] 1)) = Some (0, msg)"
proof -
  have "tf_listen tinyCacheDefaults \<noteq> ''''" "0 < sint (tf_capacity tinyCacheDefaults)"
    by (simp_all add: tinyCacheDefaults_def)
  from serverRun_outcome [OF this, of listLib "\<lparr>re_events = [], re_select = CtxDone, re_draining = [],
     re_Shutdown = None, re_Listen = ErrServerClosed\<rparr>" "lru (exampleStore [] 1)"]
  show ?thesis
    by (auto simp: ErrServerClosed_def)
qed

text \<open>
  C39: health and readiness by path. On every server \<open>/healthz\<close> gets 200 whatever its state, and
  \<open>/readyz\<close> gets 200 while the server is ready and 503 after \<open>markNotReady\<close>, whatever requests
  and pauses come in between: readiness is lost for good.
\<close>

theorem readiness_is_lost_for_good:
  assumes "rq_EscapedPath h = ''/healthz''" "rq_EscapedPath y = ''/readyz''"
  shows "rs_Status (fst (serveHTTP L h s)) = 200
    \<and> rs_Status (fst (serveHTTP L y s)) = (if srv_ready s then 200 else 503)
    \<and> rs_Status (fst (serveHTTP L y (fold (handleEvent L) evs (markNotReady s)))) = 503"
proof -
  have h: "pathUnescape ''/healthz'' = Some ''/healthz''" "cleanPath ''/healthz'' = ''/healthz''"
    "firstSegment ''/healthz'' = (''healthz'', '''')"
    by code_simp+
  have y: "pathUnescape ''/readyz'' = Some ''/readyz''" "cleanPath ''/readyz'' = ''/readyz''"
    "firstSegment ''/readyz'' = (''readyz'', '''')"
    by code_simp+
  have "findHandler routes h ''/healthz'' = Handler Healthz"
    using h assms by (simp add: findHandler_def muxMatch_def matches_def routes_def exactMatch_def Let_def)
  moreover have "findHandler routes y ''/readyz'' = Handler Readyz"
    using y assms by (simp add: findHandler_def muxMatch_def matches_def routes_def exactMatch_def Let_def)
  ultimately show ?thesis
    using h y assms by (simp add: serveHTTP_def readyzHandler_def textReply_def handleEvents_ready markNotReady_def)
qed

theorem readiness_is_lost_for_good_witness:
  "rs_Status (fst (serveHTTP listLib \<lparr>rq_Method = ''GET'', rq_EscapedPath = ''/readyz'', rq_RawQuery = '''',
     rq_Body = \<lparr>br_Bytes = '''', br_Err = None\<rparr>\<rparr> (markNotReady smallServer))) = 503"
  using readiness_is_lost_for_good [of "\<lparr>rq_Method = ''GET'', rq_EscapedPath = ''/healthz'', rq_RawQuery = '''',
     rq_Body = \<lparr>br_Bytes = '''', br_Err = None\<rparr>\<rparr>" "\<lparr>rq_Method = ''GET'', rq_EscapedPath = ''/readyz'', rq_RawQuery = '''',
     rq_Body = \<lparr>br_Bytes = '''', br_Err = None\<rparr>\<rparr>" listLib smallServer "[]"] by simp

end
