(* ===== verification/Access.thy ===== *)
theory Access
  imports Cli Serving Publish Cells
begin

text \<open>
  The command line client against its surroundings: it always returns, it moves values to and from
  the cache servers, and where it finds the ring the operator publishes. The clock, the polling
  goroutine and the network are interfaces, which a world in memory implements.
\<close>

section \<open>The clock\<close>

text \<open>Time does not run backwards, and \<open>time.Sleep\<close> pauses for at least the duration.\<close>

locale cli_clock =
  fixes E :: "('w, 'c) cliEnv" and clock :: "'w \<Rightarrow> int"
  assumes client_clock: "env_Client E w = (c, w') \<Longrightarrow> clock w \<le> clock w'"
    and now_clock: "env_Now E w = (t, w') \<Longrightarrow> clock w \<le> instant t \<and> clock w \<le> clock w'"
    and sleep_clock: "clock w + sint d \<le> clock (env_Sleep E d w)"
begin

lemma waitRing_returns: "\<exists>w'. waitRing E deadline w = Some w'"
proof (induction "nat (instant deadline - clock w)" arbitrary: w rule: less_induct)
  case less
  obtain c w1 where c: "env_Client E w = (c, w1)" by (cases "env_Client E w")
  obtain now w2 where n: "env_Now E w1 = (now, w2)" by (cases "env_Now E w1")
  show ?case
  proof (cases "RingVersion c \<noteq> 0 \<or> \<not> Before now deadline")
    case True
    with c n show ?thesis
      by (subst waitRing.simps) auto
  next
    case False
    then have "clock w < instant deadline"
      using client_clock [OF c] now_clock [OF n] by (simp add: Before_def)
    moreover have "clock w < clock (env_Sleep E waitStep w2)"
      using client_clock [OF c] now_clock [OF n] sleep_clock [of w2 waitStep] by (simp add: waitStep_def)
    ultimately have "nat (instant deadline - clock (env_Sleep E waitStep w2)) < nat (instant deadline - clock w)"
      by simp
    from less.hyps [OF this] False c n show ?thesis
      by (subst waitRing.simps) auto
  qed
qed

end

section \<open>The poller\<close>

text \<open>
  The goroutine started by \<open>env_GoRun\<close> runs \<open>Run\<close>: what is read later is the client after some
  polls, each answered by one of \<open>gets\<close>, in the worlds that admit no other answers. The relation
  \<open>polling\<close> says which client a world polls for.
\<close>

locale cli_poller =
  fixes E :: "('w, 'c) cliEnv" and hash :: hashfun and srt :: sort_index
    and gets :: "(NamespacedName \<Rightarrow> goerr + ConfigMap) set" and admits :: "'w \<Rightarrow> bool"
    and polling :: "'w \<Rightarrow> Client \<Rightarrow> bool"
  assumes go: "admits w \<Longrightarrow> polling (env_GoRun E c w) c"
    and read: "polling w c0 \<Longrightarrow> env_Client E w = (c, w') \<Longrightarrow>
      polling w' c0 \<and> (\<exists>gs. set gs \<subseteq> gets \<and> c = runTicks hash srt gs c0)"
    and now_polling: "polling w c0 \<Longrightarrow> env_Now E w = (t, w') \<Longrightarrow> polling w' c0"
    and sleep_polling: "polling w c0 \<Longrightarrow> polling (env_Sleep E d w) c0"
begin

lemma waitRing_polling:
  assumes "waitRing E deadline w = Some w'" "polling w c0"
  shows "polling w' c0"
proof -
  let ?P = "\<lambda>E' deadline w w'. E' = E \<longrightarrow> polling w c0 \<longrightarrow> polling w' c0"
  have "?P E deadline w w'"
  proof (rule waitRing.raw_induct [where P = ?P, OF _ assms(1)], intro impI)
    fix wait E' deadline w w'
    assume IH: "\<And>E' deadline w w'. wait E' deadline w = Some w' \<Longrightarrow> ?P E' deadline w w'"
      and body: "(case env_Client E' w of (c, w) \<Rightarrow>
          if RingVersion c \<noteq> 0 then Some w
          else case env_Now E' w of (now, w) \<Rightarrow>
            if Before now deadline then wait E' deadline (env_Sleep E' waitStep w) else Some w) = Some w'"
      and E': "E' = E" and w: "polling w c0"
    obtain c w1 where c: "env_Client E w = (c, w1)" by (cases "env_Client E w")
    obtain now w2 where n: "env_Now E w1 = (now, w2)" by (cases "env_Now E w1")
    have p: "polling w1 c0" "polling w2 c0"
      using read [OF w c] now_polling [OF _ n] by blast+
    show "polling w' c0"
      using body c n p IH [OF _ , of E deadline "env_Sleep E waitStep w2" w'] sleep_polling [OF p(2)]
      by (auto simp: E' split: if_splits)
  qed
  with assms(2) show ?thesis by blast
qed

text \<open>Whatever the client is asked to do, the reads it makes see the poller's client.\<close>

lemma cliMain_polling:
  assumes "cliMain E h f args w = Some (r, w')" "fl_name f \<noteq> ''''" "args \<noteq> []"
    and "loadRestConfig E (fl_kubeconfig f) = Inr cfg" "env_NewClient E cfg = None" "admits w"
  obtains w1 where "polling w1 (New (cliConfig f))" "cliOp E h f args w1 = (r, w')"
proof -
  obtain now w2 where n: "env_Now E (env_GoRun E (New (cliConfig f)) w) = (now, w2)"
    by (cases "env_Now E (env_GoRun E (New (cliConfig f)) w)")
  then obtain w1 where w1: "waitRing E (time_Add now (5 * Second)) w2 = Some w1" "cliOp E h f args w1 = (r, w')"
    using assms by (auto simp: cliMain_def split: option.splits)
  have "polling w2 (New (cliConfig f))"
    using now_polling [OF go [OF assms(6)] n] .
  from that [OF waitRing_polling [OF w1(1) this] w1(2)] show thesis .
qed

end

section \<open>The network\<close>

definition toRequest :: "string \<Rightarrow> URL \<Rightarrow> string \<Rightarrow> Request" where
  "toRequest method u body = \<lparr>rq_Method = method, rq_EscapedPath = url_EscapedPath u, rq_RawQuery = url_RawQuery u,
     rq_Body = \<lparr>br_Bytes = body, br_Err = None\<rparr>\<rparr>"

text \<open>
  Cache servers by address. A reply that arrives is the reply of the server at that address to
  this request, unless it is a redirect, which the transport follows.
\<close>

locale pod_network =
  fixes E :: "('w, 'c) cliEnv" and L :: "'l lruLib" and pods :: "'w \<Rightarrow> string \<Rightarrow> 'l server option"
  assumes answered: "env_Do E method u body w = (Inr resp, w') \<Longrightarrow> pods w (url_Host u) = Some s \<Longrightarrow>
      serveHTTP L (toRequest method u body) s = (reply, s') \<Longrightarrow> rs_Status reply \<noteq> 301 \<Longrightarrow>
      resp = reply \<and> pods w' = (pods w)(url_Host u \<mapsto> s')"

section \<open>A world in memory\<close>

record netWorld =
  nw_client :: Client
  nw_stored :: "NamespacedName \<Rightarrow> ConfigMap option"
  nw_pods :: "string \<Rightarrow> listLru server option"
  nw_now :: int

definition nw_get :: "(NamespacedName \<Rightarrow> ConfigMap option) \<Rightarrow> NamespacedName \<Rightarrow> goerr + ConfigMap" where
  "nw_get m k = (case m k of None \<Rightarrow> Inl (NotFoundErr ''not found'') | Some cm \<Rightarrow> Inr cm)"

definition nw_time :: "netWorld \<Rightarrow> Time" where
  "nw_time w = \<lparr>t_sec = 0, t_nsec = nw_now w\<rparr>"

definition netEnv :: "hashfun \<Rightarrow> sort_index \<Rightarrow> (netWorld, unit) cliEnv" where
  "netEnv hash srt =
     \<lparr>env_InClusterConfig = Inr (), env_UserHomeDir = Inr ''/root'', env_BuildConfig = (\<lambda>_. Inr ()),
      env_NewClient = (\<lambda>_. None),
      env_GoRun = (\<lambda>c w. w\<lparr>nw_client := c\<rparr>),
      env_Client = (\<lambda>w. let c = snd (pollOnce hash srt (nw_get (nw_stored w)) (nw_client w)) in (c, w\<lparr>nw_client := c\<rparr>)),
      env_Now = (\<lambda>w. (nw_time w, w)),
      env_Sleep = (\<lambda>d w. w\<lparr>nw_now := nw_now w + max 0 (sint d)\<rparr>),
      env_GoodHost = (\<lambda>h. h \<noteq> ''''),
      env_ParseError = (\<lambda>url. OtherErr (''parse '' @ url)),
      env_Do = (\<lambda>method u body w. case nw_pods w (url_Host u) of
         None \<Rightarrow> (Inl (OtherErr ''no such host''), w)
       | Some s \<Rightarrow> (case serveHTTP listLib (toRequest method u body) s of
           (reply, s') \<Rightarrow> if rs_Status reply = 301 then (Inl (OtherErr ''redirected''), w)
             else (Inr reply, w\<lparr>nw_pods := (nw_pods w)(url_Host u \<mapsto> s')\<rparr>)))\<rparr>"

lemma netEnv_sel:
  "env_InClusterConfig (netEnv hash srt) = Inr ()" "env_NewClient (netEnv hash srt) = (\<lambda>_. None)"
  "env_GoRun (netEnv hash srt) = (\<lambda>c w. w\<lparr>nw_client := c\<rparr>)"
  "env_Client (netEnv hash srt) =
     (\<lambda>w. let c = snd (pollOnce hash srt (nw_get (nw_stored w)) (nw_client w)) in (c, w\<lparr>nw_client := c\<rparr>))"
  "env_Now (netEnv hash srt) = (\<lambda>w. (nw_time w, w))"
  "env_Sleep (netEnv hash srt) = (\<lambda>d w. w\<lparr>nw_now := nw_now w + max 0 (sint d)\<rparr>)"
  "env_GoodHost (netEnv hash srt) = (\<lambda>h. h \<noteq> '''')"
  "env_Do (netEnv hash srt) = (\<lambda>method u body w. case nw_pods w (url_Host u) of
         None \<Rightarrow> (Inl (OtherErr ''no such host''), w)
       | Some s \<Rightarrow> (case serveHTTP listLib (toRequest method u body) s of
           (reply, s') \<Rightarrow> if rs_Status reply = 301 then (Inl (OtherErr ''redirected''), w)
             else (Inr reply, w\<lparr>nw_pods := (nw_pods w)(url_Host u \<mapsto> s')\<rparr>)))"
  by (simp_all add: netEnv_def)

lemma runTicks_append: "runTicks hash srt (gs @ hs) c = runTicks hash srt hs (runTicks hash srt gs c)"
  by (induction gs arbitrary: c) simp_all

interpretation net_clock: cli_clock "netEnv hash srt" nw_now for hash srt
  by unfold_locales (auto simp: netEnv_sel Let_def nw_time_def instant_def)

definition nw_polling :: "hashfun \<Rightarrow> sort_index \<Rightarrow> (NamespacedName \<Rightarrow> ConfigMap option) \<Rightarrow> netWorld \<Rightarrow> Client \<Rightarrow> bool" where
  "nw_polling hash srt m w c0 \<longleftrightarrow> nw_stored w = m \<and> (\<exists>gs. set gs \<subseteq> {nw_get m} \<and> nw_client w = runTicks hash srt gs c0)"

interpretation net_poller: cli_poller "netEnv hash srt" hash srt "{nw_get m}" "\<lambda>w. nw_stored w = m" "nw_polling hash srt m"
  for hash srt m
proof unfold_locales
  show "nw_polling hash srt m (env_GoRun (netEnv hash srt) c w) c" if "nw_stored w = m" for c w
    using that by (auto simp: nw_polling_def netEnv_sel intro: exI [of _ "[]"])
next
  fix w c0 c w'
  assume p: "nw_polling hash srt m w c0" and r: "env_Client (netEnv hash srt) w = (c, w')"
  obtain gs where gs: "set gs \<subseteq> {nw_get m}" "nw_client w = runTicks hash srt gs c0" "nw_stored w = m"
    using p by (auto simp: nw_polling_def)
  have "c = runTicks hash srt (gs @ [nw_get m]) c0" "w' = w\<lparr>nw_client := c\<rparr>"
    using r gs by (auto simp: netEnv_sel Let_def runTicks_append)
  with gs show "nw_polling hash srt m w' c0 \<and> (\<exists>gs. set gs \<subseteq> {nw_get m} \<and> c = runTicks hash srt gs c0)"
    unfolding nw_polling_def by (auto intro!: exI [of _ "gs @ [nw_get m]"])
qed (auto simp: nw_polling_def netEnv_sel)

interpretation net_pods: pod_network "netEnv hash srt" listLib nw_pods for hash srt
  by unfold_locales (auto simp: netEnv_sel split: option.splits if_splits)

section \<open>Addresses and keys\<close>

text \<open>What the parts of a URL must not contain to come back as they are.\<close>

definition plainHost :: "string \<Rightarrow> bool" where
  "plainHost h \<longleftrightarrow> (\<forall>c \<in> set h. c \<noteq> CHR ''/'' \<and> c \<noteq> CHR ''?'' \<and> c \<noteq> CHR ''#'' \<and> \<not> isControl c)"

definition urlKey :: "string \<Rightarrow> bool" where
  "urlKey key \<longleftrightarrow> plainElem key \<and> CHR ''%'' \<notin> set key \<and> (\<forall>c \<in> set key. c \<noteq> CHR ''?'' \<and> c \<noteq> CHR ''#'' \<and> \<not> isControl c)"

lemma FormatInt_plain: "plainHost (FormatInt n)"
proof -
  have "c = CHR ''-'' \<or> isDigit c" if "c \<in> set (FormatInt n)" for c
    using that by (auto simp: FormatInt_def fmtInt_def dest: fmtNat_digits split: if_splits)
  moreover have "c \<noteq> CHR ''/'' \<and> c \<noteq> CHR ''?'' \<and> c \<noteq> CHR ''#'' \<and> \<not> isControl c" if "c = CHR ''-'' \<or> isDigit c" for c
    using that by (auto simp: isDigit_def digitVal_def isControl_def Let_def split: if_splits)
  ultimately show ?thesis
    by (simp add: plainHost_def)
qed

lemma cutAt_absent: "c \<notin> set s \<Longrightarrow> cutAt c s = (s, '''')"
  by (induction s) (auto simp: cutAt_def)

lemma urlParse_keyURL:
  assumes "plainHost pod" "CHR ''?'' \<notin> set key" "CHR ''#'' \<notin> set key"
  shows "urlParse goodHost (keyURL pod port key) =
    (if list_ex isControl key \<or> \<not> goodHost (pod @ '':'' @ FormatInt port) then None
     else map_option (\<lambda>e. \<lparr>url_Host = pod @ '':'' @ FormatInt port, url_EscapedPath = e, url_RawQuery = ''''\<rparr>)
       (writtenPath (kvPrefix @ key)))"
proof -
  let ?host = "pod @ '':'' @ FormatInt port" and ?url = "keyURL pod port key"
  have host: "plainHost ?host"
    using assms(1) FormatInt_plain [of port] by (auto simp: plainHost_def isControl_def)
  have "CHR ''#'' \<notin> set ?url" "CHR ''?'' \<notin> set ?url"
    using host assms(2,3) by (auto simp: keyURL_def httpScheme_def plainHost_def)
  then have cut: "cutAt (CHR ''#'') ?url = (?url, '''')"
    "cutAt (CHR ''?'') (drop (length httpScheme) ?url) = (drop (length httpScheme) ?url, '''')"
    using in_set_dropD by (intro cutAt_absent; fastforce)+
  have rest: "drop (length httpScheme) ?url = ?host @ kvPrefix @ key"
    by (simp add: keyURL_def kvPrefix_def)
  have "takeWhile (\<lambda>c. c \<noteq> CHR ''/'') (?host @ kvPrefix @ key) = ?host"
    "dropWhile (\<lambda>c. c \<noteq> CHR ''/'') (?host @ kvPrefix @ key) = kvPrefix @ key"
    using host by (subst takeWhile_append2 dropWhile_append2; auto simp: plainHost_def kvPrefix_def)+
  moreover have "list_ex isControl ?url \<longleftrightarrow> list_ex isControl key"
    using host by (auto simp: keyURL_def httpScheme_def plainHost_def list_ex_iff isControl_def)
  ultimately show ?thesis
    using cut by (simp add: urlParse_def rest Let_def split: option.splits)
qed

lemma pathUnescape_append:
  "CHR ''%'' \<notin> set p \<Longrightarrow> pathUnescape (p @ s) = map_option ((@) p) (pathUnescape s)"
  by (cases "pathUnescape s"; induction p) auto

lemma writtenPath_kv_None: "writtenPath (kvPrefix @ key) = None \<longleftrightarrow> pathUnescape key = None"
  by (simp add: writtenPath_def pathUnescape_append kvPrefix_def split: option.splits)

lemma runTicks_refused:
  assumes "set gs \<subseteq> gets" "\<And>g. g \<in> gets \<Longrightarrow> \<exists>e. g (cl_ringConfigMap c) = Inl e"
  shows "runTicks hash srt gs c = c"
  using assms(1)
proof (induction gs)
  case (Cons g gs)
  then have "snd (pollOnce hash srt g c) = c"
    using assms(2) [of g] by (auto simp: pollOnce_def)
  with Cons show ?case by simp
qed simp

section \<open>Properties\<close>


definition emptyWorld :: netWorld where
  "emptyWorld = \<lparr>nw_client = New \<lparr>cf_RingConfigMap = \<lparr>nn_Namespace = '''', nn_Name = ''''\<rparr>, cf_ServiceFQDN = '''', cf_PollInterval = 0\<rparr>,
     nw_stored = (\<lambda>_. None), nw_pods = [''p:80'' \<mapsto> smallServer], nw_now = 0\<rparr>"

definition exampleFlags :: cliFlags where
  "exampleFlags = \<lparr>fl_ns = ''default'', fl_name = ''c'', fl_kubeconfig = '''', fl_port = 80, fl_poll = word_of_int (2 * Second)\<rparr>"


text \<open>
  C22: what the command puts it gets. On a running cache server reached through the network, for a
  key of any bytes but \<open>/\<close>, \<open>?\<close>, \<open>#\<close>, \<open>%\<close> and control bytes, other than \<open>.\<close> and \<open>..\<close>, a
  \<open>put\<close> of at most one MiB that exits with 0 has printed 204, and a \<open>get\<close> right after it that
  exits with 0 prints 200 and exactly the value.
\<close>

theorem cli_put_get_roundtrip:
  assumes "lru_api L view repOk" "pod_network E L pods" "served L view repOk cfg s m"
    and "plainHost pod" "urlKey key" "length v \<le> 2 ^ 20"
    and "pods w (pod @ '':'' @ FormatInt port) = Some s"
    and "cliKeyOp E ''put'' [''put'', key, v] (keyURL pod port key) w = (r1, w1)" "cr_Exit r1 = Exited 0"
    and "cliKeyOp E ''get'' [''get'', key] (keyURL pod port key) w1 = (r2, w2)" "cr_Exit r2 = Exited 0"
  shows "cr_Stdout r1 = arrow @ '' '' @ keyURL pod port key @ nl @ ''204 No Content'' @ nl
    \<and> cr_Stdout r2 = arrow @ '' '' @ keyURL pod port key @ nl @ ''200 OK'' @ nl @ v @ nl"
proof -
  let ?host = "pod @ '':'' @ FormatInt port" and ?url = "keyURL pod port key"
  have key: "plainElem key" "CHR ''%'' \<notin> set key" "CHR ''?'' \<notin> set key" "CHR ''#'' \<notin> set key" "\<not> list_ex isControl key"
    using assms(5) by (auto simp: urlKey_def list_ex_iff)
  obtain u where u: "urlParse (env_GoodHost E) ?url = Some u"
    using assms(8,9) by (auto simp: cliKeyOp_def split: option.splits)
  then have host: "url_Host u = ?host" and path: "writtenPath (kvPrefix @ key) = Some (url_EscapedPath u)"
    using key by (auto simp: urlParse_keyURL [OF assms(4)] split: if_splits)
  obtain resp1 where d1: "env_Do E ''PUT'' u v w = (Inr resp1, w1)" "cr_Stdout r1 = statusLines ?url resp1"
    using assms(8,9) by (auto simp: cliKeyOp_def u fatalf_def printed_def split: prod.splits sum.splits)
  obtain resp2 where d2: "env_Do E ''GET'' u '''' w1 = (Inr resp2, w2)"
    "cr_Stdout r2 = statusLines ?url resp2 @ rs_Body resp2 @ nl"
    using assms(10,11) by (auto simp: cliKeyOp_def u fatalf_def printed_def split: prod.splits sum.splits)
  let ?put = "toRequest ''PUT'' u v" and ?get = "toRequest ''GET'' u ''''"
  obtain p s1 where p: "serveHTTP L ?put s = (p, s1)" by (cases "serveHTTP L ?put s")
  obtain g s2 where g: "serveHTTP L ?get s1 = (g, s2)" by (cases "serveHTTP L ?get s1")
  have "p = noContent \<and> fst (serveHTTP L ?get s1) = \<lparr>rs_Status = 200,
      rs_Header = [(''Content-Type'', ''application/octet-stream'')], rs_Body = br_Bytes (rq_Body ?put)\<rparr>"
    using path assms(6) by (intro lru_api.put_get [OF assms(1,3) key(1,2) _ _ _ _ _ _ p]) (simp_all add: toRequest_def)
  then have pg: "p = noContent" "g = \<lparr>rs_Status = 200, rs_Header = [(''Content-Type'', ''application/octet-stream'')], rs_Body = v\<rparr>"
    using g by (simp_all add: toRequest_def)
  have 1: "resp1 = p" "pods w1 = (pods w)(?host \<mapsto> s1)"
    using pod_network.answered [OF assms(2) d1(1) _ p] assms(7) pg(1) by (simp_all add: host noContent_def)
  have 2: "resp2 = g"
    using pod_network.answered [OF assms(2) d2(1) _ g] 1(2) pg(2) by (simp add: host)
  have f: "fmtInt 204 = ''204''" "StatusText 204 = ''No Content''" "fmtInt 200 = ''200''" "StatusText 200 = ''OK''"
    by code_simp+
  show ?thesis
    using d1(2) d2(2) 1(1) 2 pg f by (simp add: statusLines_def noContent_def)
qed

lemma netEnv_do:
  assumes "nw_pods w (url_Host u) = Some s" "url_EscapedPath u = kvPrefix @ ''k''" "method = ''GET'' \<or> method = ''PUT'' \<and> body = ''v''"
  shows "\<exists>reply w'. env_Do (netEnv hash srt) method u body w = (Inr reply, w') \<and> (\<exists>s. nw_pods w' (url_Host u) = Some s)"
proof -
  have "writtenPath (kvPrefix @ ''k'') = Some (kvPrefix @ ''k'')"
    by code_simp
  then have "addressedKey (toRequest method u body) = Some ''k''"
    using assms(2) by (intro addressedKey_plain) (simp_all add: toRequest_def plainElem_def)
  then have "rs_Status (fst (serveHTTP listLib (toRequest method u body) s)) \<noteq> 301"
    using assms(3) by (auto simp: serveHTTP_addressed toRequest_def handleGet_def handlePut_cases noContent_def
        split: prod.splits option.splits)
  then show ?thesis
    using assms(1) by (auto simp: netEnv_sel split: prod.splits)
qed

theorem cli_put_get_roundtrip_witness:
  "let E = netEnv (\<lambda>_. 0) (\<lambda>_ xs. xs); url = keyURL ''p'' 80 ''k'';
       (r1, w1) = cliKeyOp E ''put'' [''put'', ''k'', ''v''] url emptyWorld;
       (r2, w2) = cliKeyOp E ''get'' [''get'', ''k''] url w1
   in cr_Stdout r2 = arrow @ '' '' @ url @ nl @ ''200 OK'' @ nl @ ''v'' @ nl"
proof -
  let ?E = "netEnv (\<lambda>_. 0) (\<lambda>_ xs. xs)" and ?url = "keyURL ''p'' 80 ''k''"
  let ?u = "\<lparr>url_Host = ''p:80'', url_EscapedPath = kvPrefix @ ''k'', url_RawQuery = ''''\<rparr>"
  have "fmtInt 80 = ''80''"
    by code_simp
  then have port: "FormatInt 80 = ''80''"
    by (simp add: FormatInt_def)
  have "writtenPath (kvPrefix @ ''k'') = Some (kvPrefix @ ''k'')"
    by code_simp
  then have u: "urlParse (env_GoodHost ?E) ?url = Some ?u"
    by (simp add: urlParse_keyURL plainHost_def isControl_def netEnv_sel(7) port)
  have s: "nw_pods emptyWorld (url_Host ?u) = Some smallServer"
    by (simp add: emptyWorld_def)
  obtain p w1 s1 where p: "env_Do ?E ''PUT'' ?u ''v'' emptyWorld = (Inr p, w1)" "nw_pods w1 (url_Host ?u) = Some s1"
    using netEnv_do [OF s, of "''PUT''" "''v''" "\<lambda>_. 0" "\<lambda>_ xs. xs"] by auto
  obtain g w2 where g: "env_Do ?E ''GET'' ?u '''' w1 = (Inr g, w2)"
    using netEnv_do [OF p(2), of "''GET''" "''''" "\<lambda>_. 0" "\<lambda>_ xs. xs"] by auto
  have r1: "cliKeyOp ?E ''put'' [''put'', ''k'', ''v''] ?url emptyWorld = (printed (statusLines ?url p), w1)"
    using u p(1) by (simp add: cliKeyOp_def)
  have r2: "cliKeyOp ?E ''get'' [''get'', ''k''] ?url w1 = (printed (statusLines ?url g @ rs_Body g @ nl), w2)"
    using u g by (simp add: cliKeyOp_def)
  have pods: "nw_pods emptyWorld (''p'' @ '':'' @ FormatInt 80) = Some smallServer"
    by (simp add: emptyWorld_def port)
  have k: "plainHost ''p''" "urlKey ''k''" "length ''v'' \<le> 2 ^ 20"
    by (simp_all add: plainHost_def urlKey_def plainElem_def isControl_def)
  have "cr_Stdout (printed (statusLines ?url g @ rs_Body g @ nl)) = arrow @ '' '' @ ?url @ nl @ ''200 OK'' @ nl @ ''v'' @ nl"
    by (rule cli_put_get_roundtrip [THEN conjunct2, OF list_lru.lru_api_axioms net_pods.pod_network_axioms
          smallServer_served k pods r1 _ r2]) (simp_all add: printed_def)
  then show ?thesis
    using r1 r2 by (simp only: Let_def prod.case)
qed

text \<open>
  C36: a key the URL parser refuses crashes \<open>put\<close> and \<open>delete\<close>. For a key without \<open>?\<close> and \<open>#\<close>
  and a good address, these two operations, and no other, panic exactly when the key has a control
  byte or a percent sign without two hexadecimal digits after it; \<open>get\<close> then exits with 2.
\<close>

theorem cli_panics_on_bad_keys:
  assumes "plainHost pod" "env_GoodHost E (pod @ '':'' @ FormatInt port)" "CHR ''?'' \<notin> set key" "CHR ''#'' \<notin> set key"
    and "cliKeyOp E op args (keyURL pod port key) w = (r, w')"
  shows "(cr_Exit r = Panicked \<longleftrightarrow> (op = ''put'' \<and> 3 \<le> length args \<or> op = ''delete'')
      \<and> (list_ex isControl key \<or> pathUnescape key = None))
    \<and> (op = ''get'' \<longrightarrow> list_ex isControl key \<or> pathUnescape key = None \<longrightarrow> cr_Exit r = Exited 2 \<and> w' = w)"
proof -
  have "urlParse (env_GoodHost E) (keyURL pod port key) = None \<longleftrightarrow> list_ex isControl key \<or> pathUnescape key = None"
    using assms(2) by (simp add: urlParse_keyURL [OF assms(1,3,4)] writtenPath_kv_None)
  then show ?thesis
    using assms(5)
    by (cases "urlParse (env_GoodHost E) (keyURL pod port key)")
      (auto simp: cliKeyOp_def fatalf_def printed_def split: if_splits prod.splits sum.splits)
qed

theorem cli_panics_on_bad_keys_witness:
  "cr_Exit (fst (cliKeyOp (netEnv (\<lambda>_. 0) (\<lambda>_ xs. xs)) ''put'' [''put'', ''50%'', ''v''] (keyURL ''p'' 80 ''50%'') emptyWorld)) = Panicked"
proof -
  have "pathUnescape ''50%'' = None"
    by code_simp
  moreover have "plainHost ''p''"
    by (simp add: plainHost_def isControl_def)
  ultimately show ?thesis
    using cli_panics_on_bad_keys [of "''p''" "netEnv (\<lambda>_. 0) (\<lambda>_ xs. xs)" 80 "''50%''" "''put''"
        "[''put'', ''50%'', ''v'']" emptyWorld, OF _ _ _ _ prod.collapse [symmetric]]
    by (simp add: netEnv_sel)
qed



end
