(* ===== verification/Manager.thy ===== *)
theory Manager
  imports Prelude
begin

text \<open>
  The entry point of the operator (\<open>cmd/manager\<close>) and \<open>SetupWithManager\<close>: from the flags to the
  options of the webhook server, the metrics server and the manager, and the start-up sequence.
  The controller-runtime is the record \<open>managerLib\<close> of the calls made to it, on a world \<open>'w\<close>. Flag
  parsing, logging and the registration of the types in \<open>init\<close> are left out.
\<close>

section \<open>Flags\<close>

record managerFlags =
  mf_metricsAddr :: string
  mf_metricsCertPath :: string
  mf_metricsCertName :: string
  mf_metricsCertKey :: string
  mf_webhookCertPath :: string
  mf_webhookCertName :: string
  mf_webhookCertKey :: string
  mf_enableLeaderElection :: bool
  mf_probeAddr :: string
  mf_secureMetrics :: bool
  mf_enableHTTP2 :: bool

definition managerDefaults :: managerFlags where
  "managerDefaults = \<lparr>mf_metricsAddr = ''0'', mf_metricsCertPath = '''', mf_metricsCertName = ''tls.crt'',
     mf_metricsCertKey = ''tls.key'', mf_webhookCertPath = '''', mf_webhookCertName = ''tls.crt'',
     mf_webhookCertKey = ''tls.key'', mf_enableLeaderElection = False, mf_probeAddr = '':8081'',
     mf_secureMetrics = True, mf_enableHTTP2 = False\<rparr>"

section \<open>Options\<close>

record tlsConfig =
  tls_NextProtos :: "string list"

definition disableHTTP2 :: "tlsConfig \<Rightarrow> tlsConfig" where
  "disableHTTP2 c = c\<lparr>tls_NextProtos := [''http/1.1'']\<rparr>"

definition tlsOpts :: "managerFlags \<Rightarrow> (tlsConfig \<Rightarrow> tlsConfig) list" where
  "tlsOpts f = (if \<not> mf_enableHTTP2 f then [] @ [disableHTTP2] else [])"

record certOptions =
  co_CertDir :: string
  co_CertName :: string
  co_KeyName :: string

record webhookOptions = certOptions +
  wo_TLSOpts :: "(tlsConfig \<Rightarrow> tlsConfig) list"

datatype filterProvider = NoFilter | WithAuthenticationAndAuthorization

record metricsOptions = certOptions +
  mo_BindAddress :: string
  mo_SecureServing :: bool
  mo_TLSOpts :: "(tlsConfig \<Rightarrow> tlsConfig) list"
  mo_FilterProvider :: filterProvider

definition webhookServerOptions :: "managerFlags \<Rightarrow> webhookOptions" where
  "webhookServerOptions f =
     (let o1 = \<lparr>co_CertDir = '''', co_CertName = '''', co_KeyName = '''', wo_TLSOpts = tlsOpts f\<rparr>
      in if 0 < length (mf_webhookCertPath f)
         then o1\<lparr>co_CertDir := mf_webhookCertPath f, co_CertName := mf_webhookCertName f, co_KeyName := mf_webhookCertKey f\<rparr>
         else o1)"

definition metricsServerOptions :: "managerFlags \<Rightarrow> metricsOptions" where
  "metricsServerOptions f =
     (let o1 = \<lparr>co_CertDir = '''', co_CertName = '''', co_KeyName = '''', mo_BindAddress = mf_metricsAddr f,
                mo_SecureServing = mf_secureMetrics f, mo_TLSOpts = tlsOpts f, mo_FilterProvider = NoFilter\<rparr>;
          o2 = (if mf_secureMetrics f then o1\<lparr>mo_FilterProvider := WithAuthenticationAndAuthorization\<rparr> else o1)
      in if 0 < length (mf_metricsCertPath f)
         then o2\<lparr>co_CertDir := mf_metricsCertPath f, co_CertName := mf_metricsCertName f, co_KeyName := mf_metricsCertKey f\<rparr>
         else o2)"

record managerOptions =
  mgo_Metrics :: metricsOptions
  mgo_WebhookServer :: webhookOptions
  mgo_HealthProbeBindAddress :: string
  mgo_LeaderElection :: bool
  mgo_LeaderElectionID :: string

definition managerOpts :: "managerFlags \<Rightarrow> managerOptions" where
  "managerOpts f =
     \<lparr>mgo_Metrics = metricsServerOptions f, mgo_WebhookServer = webhookServerOptions f,
      mgo_HealthProbeBindAddress = mf_probeAddr f, mgo_LeaderElection = mf_enableLeaderElection f,
      mgo_LeaderElectionID = ''c75b5d52.sk1.services.com''\<rparr>"

section \<open>Start-up\<close>

datatype watched = DistributedCacheKind | ServiceKind | StatefulSetKind | ConfigMapKind | PodKind

record controllerBuilder =
  bld_For :: watched
  bld_Owns :: "watched list"
  bld_Named :: string

record 'w managerLib =
  ml_GetConfig :: "'w \<Rightarrow> goerr option \<times> 'w"
  ml_NewManager :: "managerOptions \<Rightarrow> 'w \<Rightarrow> goerr option \<times> 'w"
  ml_GetEventRecorderFor :: "string \<Rightarrow> 'w \<Rightarrow> 'w"
  ml_Complete :: "controllerBuilder \<Rightarrow> 'w \<Rightarrow> goerr option \<times> 'w"
  ml_AddHealthzCheck :: "string \<Rightarrow> 'w \<Rightarrow> goerr option \<times> 'w"
  ml_AddReadyzCheck :: "string \<Rightarrow> 'w \<Rightarrow> goerr option \<times> 'w"
  ml_Start :: "'w \<Rightarrow> goerr option \<times> 'w"

definition cacheController :: controllerBuilder where
  "cacheController = \<lparr>bld_For = DistributedCacheKind, bld_Owns = [ServiceKind, StatefulSetKind], bld_Named = ''distributedcache''\<rparr>"

definition SetupWithManager :: "'w managerLib \<Rightarrow> 'w \<Rightarrow> goerr option \<times> 'w" where
  "SetupWithManager M w =
     ml_Complete M cacheController (ml_GetEventRecorderFor M ''distributedcache-controller'' w)"

text \<open>The exit code. \<open>GetConfigOrDie\<close> exits with 1 by itself.\<close>

definition managerMain :: "'w managerLib \<Rightarrow> managerFlags \<Rightarrow> 'w \<Rightarrow> int \<times> 'w" where
  "managerMain M f w =
     (case ml_GetConfig M w of (Some e, w) \<Rightarrow> (1, w) | (None, w) \<Rightarrow>
      (case ml_NewManager M (managerOpts f) w of (Some e, w) \<Rightarrow> (1, w) | (None, w) \<Rightarrow>
       (case SetupWithManager M w of (Some e, w) \<Rightarrow> (1, w) | (None, w) \<Rightarrow>
        (case ml_AddHealthzCheck M ''healthz'' w of (Some e, w) \<Rightarrow> (1, w) | (None, w) \<Rightarrow>
         (case ml_AddReadyzCheck M ''readyz'' w of (Some e, w) \<Rightarrow> (1, w) | (None, w) \<Rightarrow>
          (case ml_Start M w of (Some e, w) \<Rightarrow> (1, w) | (None, w) \<Rightarrow> (0, w)))))))"

section \<open>The calls of a start-up\<close>

datatype call = GetConfig | NewManager managerOptions | GetEventRecorderFor string | Complete controllerBuilder
  | AddHealthzCheck string | AddReadyzCheck string | Start

text \<open>A runtime that records the calls, the latest first, and fails at the calls of a set.\<close>

definition recordCall :: "call set \<Rightarrow> call \<Rightarrow> call list \<Rightarrow> goerr option \<times> call list" where
  "recordCall bad c cs = (if c \<in> bad then Some (OtherErr ''failed'') else None, c # cs)"

definition recordingLib :: "call set \<Rightarrow> call list managerLib" where
  "recordingLib bad =
     \<lparr>ml_GetConfig = recordCall bad GetConfig, ml_NewManager = (\<lambda>opts. recordCall bad (NewManager opts)),
      ml_GetEventRecorderFor = (\<lambda>name cs. GetEventRecorderFor name # cs), ml_Complete = (\<lambda>b. recordCall bad (Complete b)),
      ml_AddHealthzCheck = (\<lambda>name. recordCall bad (AddHealthzCheck name)),
      ml_AddReadyzCheck = (\<lambda>name. recordCall bad (AddReadyzCheck name)), ml_Start = recordCall bad Start\<rparr>"

lemma managerOpts_hardened:
  "tls_NextProtos (fold (\<lambda>g. g) (wo_TLSOpts (mgo_WebhookServer (managerOpts f))) c) =
     (if mf_enableHTTP2 f then tls_NextProtos c else [''http/1.1''])"
  "tls_NextProtos (fold (\<lambda>g. g) (mo_TLSOpts (mgo_Metrics (managerOpts f))) c) =
     (if mf_enableHTTP2 f then tls_NextProtos c else [''http/1.1''])"
  "mo_FilterProvider (mgo_Metrics (managerOpts f)) = WithAuthenticationAndAuthorization \<longleftrightarrow> mf_secureMetrics f"
  "mo_SecureServing (mgo_Metrics (managerOpts f)) = mf_secureMetrics f"
  "co_CertDir (mgo_Metrics (managerOpts f)) = mf_metricsCertPath f"
  "co_CertDir (mgo_WebhookServer (managerOpts f)) = mf_webhookCertPath f"
  by (auto simp: managerOpts_def metricsServerOptions_def webhookServerOptions_def tlsOpts_def disableHTTP2_def Let_def)

lemma managerMain_calls:
  assumes "managerMain (recordingLib bad) f [] = (code, calls)" "Start \<in> set calls"
  shows "code = 0 \<longleftrightarrow> Start \<notin> bad"
    and "calls = rev [GetConfig, NewManager (managerOpts f), GetEventRecorderFor ''distributedcache-controller'',
      Complete cacheController, AddHealthzCheck ''healthz'', AddReadyzCheck ''readyz'', Start]"
    and "bad \<inter> {GetConfig, NewManager (managerOpts f), Complete cacheController, AddHealthzCheck ''healthz'',
      AddReadyzCheck ''readyz''} = {}"
  using assms by (auto simp: managerMain_def recordingLib_def recordCall_def SetupWithManager_def split: if_splits)

section \<open>Properties\<close>

text \<open>
  C37: the manager starts hardened and complete. Whichever calls of the runtime fail, it is started
  only after the configuration, the manager, the controller and both checks succeeded, in this
  order, and then the process exits with 0 exactly if the run succeeds. The options it is made with
  let every TLS configuration of both servers offer HTTP/1.1 only, unless \<open>--enable-http2\<close> is
  given; protect the metrics by authentication exactly if they are served securely; and take the
  certificate paths given. The controller is triggered by the resource, Services and StatefulSets, and
  not by the ring's ConfigMap.
\<close>

theorem manager_starts_hardened:
  assumes "managerMain (recordingLib bad) f [] = (code, calls)" "Start \<in> set calls"
  shows "(code = 0 \<longleftrightarrow> Start \<notin> bad) \<and> (\<exists>opts b. rev calls = [GetConfig, NewManager opts,
        GetEventRecorderFor ''distributedcache-controller'', Complete b, AddHealthzCheck ''healthz'', AddReadyzCheck ''readyz'', Start]
    \<and> bad \<inter> {GetConfig, NewManager opts, Complete b, AddHealthzCheck ''healthz'', AddReadyzCheck ''readyz''} = {}
    \<and> (\<forall>c. tls_NextProtos (fold (\<lambda>g. g) (wo_TLSOpts (mgo_WebhookServer opts)) c) =
          (if mf_enableHTTP2 f then tls_NextProtos c else [''http/1.1'']))
    \<and> (\<forall>c. tls_NextProtos (fold (\<lambda>g. g) (mo_TLSOpts (mgo_Metrics opts)) c) =
          (if mf_enableHTTP2 f then tls_NextProtos c else [''http/1.1'']))
    \<and> (mo_FilterProvider (mgo_Metrics opts) = WithAuthenticationAndAuthorization \<longleftrightarrow> mo_SecureServing (mgo_Metrics opts))
    \<and> mo_SecureServing (mgo_Metrics opts) = mf_secureMetrics f
    \<and> co_CertDir (mgo_Metrics opts) = mf_metricsCertPath f \<and> co_CertDir (mgo_WebhookServer opts) = mf_webhookCertPath f
    \<and> insert (bld_For b) (set (bld_Owns b)) = {DistributedCacheKind, ServiceKind, StatefulSetKind})"
  using managerMain_calls [OF assms] managerOpts_hardened [of f]
  by (intro conjI exI [of _ "managerOpts f"] exI [of _ cacheController] allI) (simp_all add: cacheController_def)

theorem manager_starts_hardened_witness:
  "fst (managerMain (recordingLib {}) managerDefaults []) = 0"
  using manager_starts_hardened [of "{}" managerDefaults, OF prod.collapse [symmetric]]
  by (simp add: managerMain_def recordingLib_def recordCall_def SetupWithManager_def)

end
