(* ===== verification/Spec2Isabelle.thy ===== *)
theory Spec2Isabelle
  imports Deep_Copy Teardown Confinement Access Manager
begin

text \<open>
  \<^bold>\<open>A verification development for distributed-cache-operator.\<close>

  \<^bold>\<open>The program.\<close> A Kubernetes operator runs distributed caches. For each \<open>DistributedCache\<close> resource
  the controller keeps a headless Service, a StatefulSet of cache pods and a ConfigMap with the
  ring: a version and the ordered list of pods that take traffic. For an isolated resource it first makes a
  cell, a namespace with a quota and a network policy. Before it scales down or deletes, it drains:
  it annotates the pods, waits for a grace period, and only then lets them go. The pods run
  tiny-cache, an HTTP key-value server over an LRU. Clients poll the ring and route each
  key by consistent hashing; \<open>cache-cli\<close> is such a client. The parts meet in the ConfigMap (operator and
  clients), in the pods' annotations (drain and ring) and in HTTP (clients and servers).

  \<^bold>\<open>Theories and source.\<close>
  \<^item> \<open>Prelude\<close>, \<open>Go_Std\<close>, \<open>Http\<close>: machine integers, Go maps, errors, the contract of \<open>sort.Slice\<close>;
    \<open>strconv\<close>, \<open>strings\<close>, \<open>time\<close>, \<open>sort.Search\<close>; URLs, \<open>http.ServeMux\<close>, bodies and replies.
  \<^item> \<open>Api_Types\<close>: the resource types (\<open>api/v1alpha1/distributedcache_types.go\<close>) and the
    Kubernetes objects the code reads and writes, with the fields it uses.
  \<^item> \<open>Deep_Copy\<close>: the generated copying functions (\<open>api/v1alpha1/zz_generated.deepcopy.go\<close>), on a
    store of memory cells with pointers and slices.
  \<^item> \<open>Ring\<close>, \<open>Go_Json\<close>: membership (\<open>internal/controller/ring.go\<close>) and the ring's JSON form.
  \<^item> \<open>Sha1\<close>, \<open>Client\<close>: \<open>internal/cacheclient/client.go\<close>: building the hash ring, \<open>Lookup\<close>,
    \<open>pollOnce\<close>, \<open>Run\<close>.
  \<^item> \<open>Kube\<close>, \<open>Cluster\<close>, \<open>Example\<close>, \<open>Requests\<close>: the calls to controller-runtime as a record of operations,
    their contract as the locale \<open>cluster_api\<close>, an API server in memory that implements it and can refuse
    a request or lose a reply, an example resource, and sequences of requests (\<open>runs\<close>), by which
    \<open>clockIn\<close> says what the clock shows during an operation.
  \<^item> \<open>Cell\<close>, \<open>Workload\<close>, \<open>Publish\<close>, \<open>Deletion\<close>, \<open>Reconciler\<close>: the controller
    (\<open>internal/controller/distributedcache_controller.go\<close>) in its order: \<open>reconcileCell\<close> and
    \<open>reconcileService\<close>; \<open>reconcileStatefulSet\<close> and \<open>drainScaleDown\<close>; \<open>reconcileRing\<close>;
    \<open>reconcileDeletion\<close>; conditions and \<open>Reconcile\<close>. Each request takes the state of the world
    and returns a result or an error with the new state, so that every error exit is a branch.
  \<^item> \<open>Cells\<close>, \<open>Operator\<close>, \<open>Confinement\<close>, \<open>Example_Pass\<close>: what these operations do to a cluster, whichever
    requests fail, and in a pass in which none does.
  \<^item> \<open>Progress\<close>, \<open>Teardown\<close>: that successive passes finish a scale-down and a deletion.
  \<^item> \<open>Store\<close>, \<open>Server\<close>, \<open>Serving\<close>: \<open>internal/cache\<close> and \<open>cmd/tiny-cache\<close>, over the contract
    \<open>lru_api\<close> of the LRU library, which a list in order of recency implements.
  \<^item> \<open>Cli\<close>, \<open>Access\<close>: \<open>cmd/cache-cli\<close>, and the command with clock, poller and network.
  \<^item> \<open>Manager\<close>: \<open>cmd/manager\<close> and \<open>SetupWithManager\<close>.
  \<^item> this theory: operator and clients together.

  \<^bold>\<open>What is shown.\<close>
  \<^item> Safety of the drain: a pass scales down, or releases a deleted resource, only after every pod
    concerned has carried its mark for the grace period; it marks no other pod; and it touches no
    workload outside its cell. This holds whichever requests fail. The time that counts is one the
    clock shows during the pass.
  \<^item> Progress: once a pass has marked the pods, the first complete pass after the grace period scales
    down, and the first after it releases a deleted resource. What a pass writes it would not change
    when it writes it again.
  \<^item> The ring: its members are exactly the eligible pods, its stored versions never decrease and
    identify the rings, the JSON form can be read back, and publishing refines the specification
    \<open>nextRing\<close>.
  \<^item> Routing: \<open>Lookup\<close> refines ownership by clockwise distance, so that a change of
    membership moves only the keys it must. A client that polls follows the stored ring,
    and sends keys only to pods that are eligible.
  \<^item> Reporting: conditions are true, and failures are recorded in the status.
  \<^item> The cache: a GET returns the last value put, not older than the TTL, or 404; memory is
    bounded; refused requests change nothing; what a client puts it gets, through the command, the
    URL, the router and the store.
  \<^item> Copies: a deep copy denotes the same resource and shares no memory with it. This is why a
    resource can be a value in every other theory.
  \<^item> The commands: the command line client always returns, and the manager starts with its
    protections in place.
  \<^item> Defects, stated as theorems: drain marks outlive a cancelled scale-down, an unreadable
    mark blocks a deletion, a scale-down does not wait until the ring without its pods is
    published, the command cannot find the ring of an isolated cell and panics on some
    keys, and isolated resources of the same name share a cell.

  \<^bold>\<open>Parameters and bounds.\<close> Code outside the repository is a parameter of the definitions that
  use it: the Kubernetes client (\<open>kube\<close>), the sorting function, the LRU (\<open>lruLib\<close>), the surroundings of the
  command (\<open>cliEnv\<close>), the controller runtime (\<open>managerLib\<close>) and the copying functions of
  apimachinery (\<open>copyLib\<close>). Theorems that need its behaviour
  assume the locale with its documented laws; each locale is interpreted. Integers have the width
  they have in Go; theorems about versions and quotas say up to where they do not overflow.
  Loops are structural recursions over their lists; the search loop has a termination
  proof; the waiting loop of the command may run for ever in a world without a clock, and is
  shown to end where time passes. No definition takes fuel.

  \<^bold>\<open>Idealisations.\<close> A pass of the reconciler runs without interleaving with other writers between its own
  requests; others act between passes. Reads see the current state of the cluster and not an
  older one from a cache. Log lines are left out, and of Kubernetes objects
  the fields the code does not touch.

  \<^bold>\<open>Not modelled.\<close> \<open>groupversion_info.go\<close> and the \<open>init\<close> of the manager register types with a library and
  compute nothing. Flag parsing and signal handling belong to the standard library; their results are
  arguments. The manifests under \<open>config\<close> and the end-to-end tests are not part of the program's logic.
\<close>

section \<open>Operator and clients together\<close>

text \<open>The two sides of the wire format name the same key of the ConfigMap.\<close>

lemma ring_keys_agree: "clientRingKey = ringConfigMapKey"
  by (simp add: clientRingKey_def ringConfigMapKey_def)

text \<open>
  A system: the operator's passes over any resources, changes by others, and one client that
  reads the ring stored under \<open>k\<close>. A read may fail; if it succeeds it returns what is stored.
\<close>

definition answers :: "('w \<Rightarrow> cluster) \<Rightarrow> 'w \<Rightarrow> NamespacedName \<Rightarrow> (NamespacedName \<Rightarrow> goerr + ConfigMap) \<Rightarrow> bool" where
  "answers view w k get \<longleftrightarrow> (\<forall>m. get k = Inr m \<longrightarrow> v_cm (view w) k = Some m)"

inductive system ::
  "'w kube \<Rightarrow> ('w \<Rightarrow> cluster) \<Rightarrow> hashfun \<Rightarrow> sort_index \<Rightarrow> NamespacedName \<Rightarrow> 'w \<Rightarrow> Ring list \<Rightarrow> Client \<Rightarrow> bool"
  for K view hash srt k where
  boot: "wfCluster (view w) \<Longrightarrow> cf_RingConfigMap cfg = k \<Longrightarrow>
    system K view hash srt k w [ringAt k (view w)] (New cfg)"
| others: "system K view hash srt k w rs c \<Longrightarrow> wfCluster (view w') \<Longrightarrow> v_cm (view w') k = v_cm (view w) k \<Longrightarrow>
    system K view hash srt k w' rs c"
| pass: "system K view hash srt k w rs c \<Longrightarrow> Reconcile K req w = (r, w') \<Longrightarrow>
    system K view hash srt k w' (rs @ [ringAt k (view w')]) c"
| poll: "system K view hash srt k w rs c \<Longrightarrow> answers view w k get \<Longrightarrow> pollOnce hash srt get c = (e, c') \<Longrightarrow>
    system K view hash srt k w rs c'"

lemma system_operates: "system K view hash srt k w rs c \<Longrightarrow> operates K view k w rs"
  by (induction rule: system.induct) (auto intro: operates.intros)

lemma pollOnce_stored:
  assumes "answers view w (cl_ringConfigMap c) get" "pollOnce hash srt get c = (e, c')"
  shows "c' = c \<or> c' = c\<lparr>cl_ring := Some (buildRing hash srt (ringAt (cl_ringConfigMap c) (view w)))\<rparr>"
    and "e = None \<Longrightarrow> cl_ring c' = Some (buildRing hash srt (ringAt (cl_ringConfigMap c) (view w))) \<or>
      c' = c \<and> (\<exists>cur. cl_ring c = Some cur \<and> hr_version cur = Version (ringAt (cl_ringConfigMap c) (view w)))"
  using assms
  by (auto simp: pollOnce_def answers_def ringAt_def currentRing_def ring_keys_agree
      split: sum.splits option.splits if_splits)

lemma system_client:
  assumes "system K view hash srt k w rs c" "cluster_api K view" "member_sort (SortSlice K)"
  shows "cl_ringConfigMap c = k \<and> (cl_ring c = None \<or> (\<exists>r \<in> set rs. cl_ring c = Some (buildRing hash srt r)))"
  using assms(1)
proof (induction rule: system.induct)
  case (boot w cfg)
  then show ?case by (simp add: New_def)
next
  case (poll w rs c get e c')
  then have k: "cl_ringConfigMap c = k" by blast
  have "rs \<noteq> []" "last rs = ringAt k (view w)"
    using cluster_api.operates_linked [OF assms(2) system_operates [OF poll.hyps(1)] assms(3)] by blast+
  then have "ringAt k (view w) \<in> set rs"
    by (metis last_in_set)
  then show ?case
    using pollOnce_stored(1) [of view w c get hash srt e c'] poll k by auto
qed auto

lemma system_poll:
  assumes sys: "system K view hash srt k w rs c" and api: "cluster_api K view" "member_sort (SortSlice K)"
    and bound: "sint (Version (rs ! 0)) + int (length rs) < 2 ^ 63"
    and poll: "answers view w k get" "pollOnce hash srt get c = (None, c')"
  shows "cl_ring c' = Some (buildRing hash srt (ringAt k (view w)))"
proof -
  have k: "cl_ringConfigMap c = k"
    and c: "cl_ring c = None \<or> (\<exists>r \<in> set rs. cl_ring c = Some (buildRing hash srt r))"
    using system_client [OF sys api] by blast+
  have rs: "linked rs" "rs \<noteq> []" "last rs = ringAt k (view w)"
    using cluster_api.operates_linked [OF api(1) system_operates [OF sys] api(2)] by blast+
  have same: "r = last rs" if "r \<in> set rs" "Version r = Version (last rs)" for r
  proof -
    obtain i where "i < length rs" "rs ! i = r"
      using \<open>r \<in> set rs\<close> by (auto simp: in_set_conv_nth)
    with linked_versions [OF rs(1) bound, of i "length rs - 1"] that(2) rs(2) show ?thesis
      by (simp add: last_conv_nth)
  qed
  from pollOnce_stored(2) [OF _ poll(2), of view w] poll(1) k
  consider "cl_ring c' = Some (buildRing hash srt (ringAt k (view w)))"
    | cur where "c' = c" "cl_ring c = Some cur" "hr_version cur = Version (ringAt k (view w))"
    by auto
  then show ?thesis
  proof cases
    case (2 cur)
    with c obtain r where "r \<in> set rs" "cur = buildRing hash srt r" by auto
    with 2 same rs(3) show ?thesis
      by (auto simp: buildRing_version)
  qed
qed

text \<open>The example resource published to a fresh client, on the in-memory API server.\<close>

definition exampleStart :: memState where
  "exampleStart = exampleWorld 1 1 [cachePod ''c-0'' []] 130 []"

definition exampleNext :: memState where
  "exampleNext = snd (Reconcile memKube exampleKey exampleStart)"

definition exampleConfig :: ClientConfig where
  "exampleConfig = \<lparr>cf_RingConfigMap = ringKey (exampleCache 1), cf_ServiceFQDN = ''c.default.svc'', cf_PollInterval = 0\<rparr>"

definition storedGet :: "memState \<Rightarrow> NamespacedName \<Rightarrow> goerr + ConfigMap" where
  "storedGet w k = (case v_cm (m_view w) k of None \<Rightarrow> Inl (NotFoundErr ''not found'') | Some m \<Rightarrow> Inr m)"

lemma storedGet_answers: "answers m_view w k (storedGet w)"
  by (auto simp: answers_def storedGet_def split: option.splits)

lemma exampleStart_wf: "wfCluster (m_view exampleStart)"
  by (simp add: exampleStart_def example_wf)

lemma exampleStart_ring: "ringAt (ringKey (exampleCache 1)) (m_view exampleStart) = zeroRing"
  by (simp add: exampleStart_def ringAt_def exampleWorld_def)

lemma exampleNext_run: "Reconcile memKube exampleKey exampleStart = (Inr noRequeue, exampleNext)"
  using example_reconcile [of 1 "[cachePod ''c-0'' []]" 130] by (auto simp: exampleNext_def exampleStart_def)

lemma exampleNext_poll:
  obtains c' q where "pollOnce sampleHash insertionSort (storedGet exampleNext) (New exampleConfig) = (None, c')"
    "cl_ring c' = Some (buildRing sampleHash insertionSort q)" "Members q = [''c-0'']"
    "cl_serviceFQDN c' = ''c.default.svc''"
proof -
  let ?k = "ringKey (exampleCache 1)"
  have "Reconcile memKube exampleKey (exampleWorld 1 1 [cachePod ''c-0'' []] 130 []) = (Inr noRequeue, exampleNext)"
    using exampleNext_run by (simp add: exampleStart_def)
  with example_reconcile [of 1 "[cachePod ''c-0'' []]" 130]
  obtain cm q where cm: "v_cm (m_view exampleNext) ?k = Some cm" "mapGet (Data cm) ringConfigMapKey = Some (marshalRing q)"
    and q: "Members q = computeMembers insertionSort (podsIn (m_view exampleStart) ''default'' exampleLabels)"
    by (auto simp: exampleStart_def)
  have "podsIn (m_view exampleStart) ''default'' exampleLabels = [cachePod ''c-0'' []]"
    by (simp add: exampleStart_def podsIn_def exampleWorld_def)
  moreover have "computeMembers insertionSort [cachePod ''c-0'' []] = [''c-0'']"
    by code_simp
  ultimately have members: "Members q = [''c-0'']"
    using q by simp
  have "unmarshalRing (marshalRing q) = Inr q"
    by (rule unmarshal_marshal) (simp add: members)
  then have "pollOnce sampleHash insertionSort (storedGet exampleNext) (New exampleConfig)
    = (None, (New exampleConfig)\<lparr>cl_ring := Some (buildRing sampleHash insertionSort q)\<rparr>)"
    using cm by (simp add: pollOnce_def storedGet_def New_def exampleConfig_def ring_keys_agree)
  then show ?thesis
    using that members by (simp add: New_def exampleConfig_def)
qed

lemma exampleSystem:
  "system memKube m_view sampleHash insertionSort (ringKey (exampleCache 1)) exampleStart [zeroRing] (New exampleConfig)"
  using system.boot [of m_view exampleStart exampleConfig "ringKey (exampleCache 1)"] exampleStart_wf exampleStart_ring
  by (simp add: exampleConfig_def)

section \<open>Properties\<close>





end
